(* ===== verification/Prelude.thy ===== *)
theory Prelude
  imports Main "HOL-Library.Word"
begin

text \<open>
  Shared ground of the development: the machine types of the Go source, Go's error values, the
  byte streams a component reads from and writes to (\<open>io.Reader\<close>, \<open>io.Writer\<close>,
  \<open>io.ReadFull\<close>), Go maps as association lists behind the interface \<open>go_map\<close>, and the
  transition-system locale every state machine of the library is an instance of.
\<close>

section \<open>Machine types\<close>

type_synonym byte = "8 word"
type_synonym bytes = "byte list"
type_synonym u16 = "16 word"
type_synonym u32 = "32 word"
type_synonym u64 = "64 word"

named_theorems io_simps \<open>unfolding rules of the byte-stream operations\<close>
named_theorems frame_simps \<open>rules of the frame codec\<close>
named_theorems stream_simps \<open>frame rules of the stream and session operations\<close>
named_theorems reg_simps \<open>rules of the registry operations\<close>

text \<open>Go's \<open>int\<close> and \<open>int64\<close> are 64-bit two's complement; a result out of range wraps.\<close>

definition wrap64 :: "int \<Rightarrow> int" where
  "wrap64 x = (x + 2 ^ 63) mod 2 ^ 64 - 2 ^ 63"

definition int64 :: "int \<Rightarrow> bool" where
  "int64 x \<longleftrightarrow> - (2 ^ 63) \<le> x \<and> x < 2 ^ 63"

lemma wrap64_id: "int64 x \<Longrightarrow> wrap64 x = x"
  by (simp add: wrap64_def int64_def)

lemma wrap64_range: "int64 (wrap64 x)"
proof -
  have "0 \<le> (x + 2 ^ 63) mod (2 ^ 64 :: int)" "(x + 2 ^ 63) mod 2 ^ 64 < (2 ^ 64 :: int)"
    by (simp_all add: pos_mod_sign pos_mod_bound)
  then show ?thesis by (simp add: wrap64_def int64_def)
qed

text \<open>\<open>Time.Sub\<close>: the difference of two points of time in nanoseconds, cut at the ends of \<open>time.Duration\<close>.\<close>

definition time_Sub :: "int \<Rightarrow> int \<Rightarrow> int" where
  "time_Sub a b = max (- (2 ^ 63)) (min (2 ^ 63 - 1) (a - b))"

section \<open>Strings and bytes\<close>

text \<open>
  A Go string is a sequence of bytes; a \<open>char\<close> of HOL is one of 256 values, so the
  conversions \<open>[]byte(s)\<close> and \<open>string(b)\<close> are a bijection.
\<close>

definition bytes_of :: "string \<Rightarrow> bytes" where
  "bytes_of s = map (\<lambda>c. of_nat (of_char c)) s"

definition string_of :: "bytes \<Rightarrow> string" where
  "string_of b = map (\<lambda>w. char_of (unat w)) b"

lemma string_of_bytes_of [simp]: "string_of (bytes_of s) = s"
proof -
  have "char_of (unat (of_nat (of_char c) :: byte)) = c" for c
  proof -
    have "unat (of_nat (of_char c) :: byte) = of_char c"
      by (simp add: unat_of_nat)
    then show ?thesis by simp
  qed
  then show ?thesis by (simp add: bytes_of_def string_of_def comp_def)
qed

lemma bytes_of_string_of [simp]: "bytes_of (string_of b) = b"
proof -
  have "of_nat (of_char (char_of (unat w) :: char)) = w" for w :: byte
  proof -
    have "unat w < 256" using unsigned_less [of w] by simp
    then have "(of_char (char_of (unat w) :: char) :: nat) = unat w" by simp
    then show ?thesis by simp
  qed
  then show ?thesis by (simp add: bytes_of_def string_of_def comp_def)
qed

lemma length_bytes_of [simp]: "length (bytes_of s) = length s"
  by (simp add: bytes_of_def)

lemma bytes_of_eq_iff [simp]: "bytes_of s = bytes_of t \<longleftrightarrow> s = t"
  by (metis string_of_bytes_of)

section \<open>Lists\<close>

lemma list_all_update: "list_all P xs \<Longrightarrow> P y \<Longrightarrow> list_all P (xs[i := y])"
  by (induction xs arbitrary: i) (auto split: nat.splits)

section \<open>Errors\<close>

text \<open>
  Go errors are values compared with \<open>errors.Is\<close> and \<open>errors.As\<close>, which follow the
  \<open>Unwrap\<close> chain: \<open>Wrapped s e\<close> is \<open>fmt.Errorf("s%w", e)\<close>, \<open>TrustError e\<close> is
  \<open>transport.TrustError\<close>, \<open>Msg s\<close> is \<open>errors.New(s)\<close>. A run-time panic is the value \<open>Panic s\<close>.
\<close>

datatype error =
    EOF
  | UnexpectedEOF
  | ErrClosed
  | Canceled
  | DeadlineExceeded
  | ErrNotExist
  | Msg string
  | Wrapped string error
  | TrustError error
  | Panic string

fun unwrap_chain :: "error \<Rightarrow> error list" where
  "unwrap_chain (Wrapped s e) = Wrapped s e # unwrap_chain e"
| "unwrap_chain (TrustError e) = TrustError e # unwrap_chain e"
| "unwrap_chain e = [e]"

definition errors_Is :: "error \<Rightarrow> error \<Rightarrow> bool" where
  "errors_Is e target \<longleftrightarrow> target \<in> set (unwrap_chain e)"

lemma errors_Is_refl [simp]: "errors_Is e e"
  by (cases e) (simp_all add: errors_Is_def)

lemma errors_Is_Wrapped [simp]:
  "(\<And>s e'. target \<noteq> Wrapped s e') \<Longrightarrow> errors_Is (Wrapped s e) target = errors_Is e target"
  by (auto simp: errors_Is_def)

text \<open>The text of an error, \<open>err.Error()\<close>.\<close>

fun error_text :: "error \<Rightarrow> string" where
  "error_text EOF = ''EOF''"
| "error_text UnexpectedEOF = ''unexpected EOF''"
| "error_text ErrClosed = ''use of closed network connection''"
| "error_text Canceled = ''context canceled''"
| "error_text DeadlineExceeded = ''context deadline exceeded''"
| "error_text ErrNotExist = ''file does not exist''"
| "error_text (Msg s) = s"
| "error_text (Wrapped s e) = s @ error_text e"
| "error_text (TrustError e) = error_text e"
| "error_text (Panic s) = s"

type_synonym 'a res = "error + 'a"

section \<open>Byte streams\<close>

text \<open>
  A connection as one end sees it: \<open>rbuf\<close> are the bytes that will still arrive, in order;
  \<open>rend\<close> is what \<open>Read\<close> returns once they are used up (\<open>EOF\<close>, or the error of a broken
  or closed connection); \<open>wout\<close> are the bytes written so far; \<open>wres\<close> are the outcomes of
  the coming \<open>Write\<close> calls: \<open>Some (n, e)\<close> is a write that fails with \<open>e\<close> after \<open>n\<close>
  bytes, and every call after the list is used up succeeds.
\<close>

record conn =
  rbuf :: bytes
  rend :: error
  wout :: bytes
  wres :: "(nat \<times> error) option list"

text \<open>\<open>io.ReadFull(r, buf)\<close> with \<open>len(buf) = n\<close>.\<close>

definition ReadFull :: "nat \<Rightarrow> conn \<Rightarrow> bytes res \<times> conn" where
  "ReadFull n c =
     (if n \<le> length (rbuf c)
      then (Inr (take n (rbuf c)), c\<lparr>rbuf := drop n (rbuf c)\<rparr>)
      else (Inl (if rbuf c \<noteq> [] \<and> rend c = EOF then UnexpectedEOF else rend c),
            c\<lparr>rbuf := []\<rparr>))"

text \<open>\<open>w.Write(p)\<close>: the error of the call, if any, and the connection after it.\<close>

definition io_Write :: "bytes \<Rightarrow> conn \<Rightarrow> error option \<times> conn" where
  "io_Write p c =
     (case wres c of
        [] \<Rightarrow> (None, c\<lparr>wout := wout c @ p\<rparr>)
      | None # rs \<Rightarrow> (None, c\<lparr>wout := wout c @ p, wres := rs\<rparr>)
      | Some (n, e) # rs \<Rightarrow> (Some e, c\<lparr>wout := wout c @ take n p, wres := rs\<rparr>))"

lemma ReadFull_enough [io_simps]:
  "length p = n \<Longrightarrow> rbuf c = p @ q \<Longrightarrow> ReadFull n c = (Inr p, c\<lparr>rbuf := q\<rparr>)"
  by (auto simp: ReadFull_def)

lemma ReadFull_short [io_simps]:
  "length (rbuf c) < n \<Longrightarrow>
   ReadFull n c = (Inl (if rbuf c \<noteq> [] \<and> rend c = EOF then UnexpectedEOF else rend c), c\<lparr>rbuf := []\<rparr>)"
  by (simp add: ReadFull_def)

lemma ReadFull_InrD:
  "ReadFull n c = (Inr p, c') \<Longrightarrow> rbuf c = p @ rbuf c' \<and> length p = n \<and> c' = c\<lparr>rbuf := rbuf c'\<rparr>"
  by (auto simp: ReadFull_def min_def split: if_splits)

lemma io_Write_ok [io_simps]: "wres c = [] \<Longrightarrow> io_Write p c = (None, c\<lparr>wout := wout c @ p\<rparr>)"
  by (simp add: io_Write_def)

lemma io_Write_reader [simp]:
  "rbuf (snd (io_Write p c)) = rbuf c" "rend (snd (io_Write p c)) = rend c"
  by (auto simp: io_Write_def split: list.splits option.splits)

lemma io_Write_NoneD: "io_Write p c = (None, c') \<Longrightarrow> wout c' = wout c @ p"
  by (auto simp: io_Write_def split: list.splits option.splits)

lemma io_Write_extends: "\<exists>q. wout (snd (io_Write p c)) = wout c @ q"
  by (auto simp: io_Write_def split: list.splits option.splits)

section \<open>Go maps\<close>

text \<open>
  A Go map is iterated in an order the language leaves open. The model keeps the entries as an
  association list whose order stands for the iteration order of one run; what the code
  computes must not depend on it, and the properties that matter are proved for every order.
\<close>

type_synonym ('k, 'v) gomap = "('k \<times> 'v) list"

definition gm_get :: "('k, 'v) gomap \<Rightarrow> 'k \<Rightarrow> 'v option" where
  "gm_get m k = map_of m k"

definition gm_del :: "'k \<Rightarrow> ('k, 'v) gomap \<Rightarrow> ('k, 'v) gomap" where
  "gm_del k m = filter (\<lambda>e. fst e \<noteq> k) m"

fun gm_set :: "'k \<Rightarrow> 'v \<Rightarrow> ('k, 'v) gomap \<Rightarrow> ('k, 'v) gomap" where
  "gm_set k v [] = [(k, v)]"
| "gm_set k v ((k', v') # m) = (if k' = k then (k, v) # m else (k', v') # gm_set k v m)"

definition gm_ok :: "('k, 'v) gomap \<Rightarrow> bool" where
  "gm_ok m \<longleftrightarrow> distinct (map fst m)"

text \<open>The interface of a map, by what a lookup returns after each operation.\<close>

locale go_map =
  fixes empty :: "'m"
    and get :: "'m \<Rightarrow> 'k \<Rightarrow> 'v option"
    and put :: "'k \<Rightarrow> 'v \<Rightarrow> 'm \<Rightarrow> 'm"
    and del :: "'k \<Rightarrow> 'm \<Rightarrow> 'm"
    and ok :: "'m \<Rightarrow> bool"
  assumes get_empty: "get empty k = None"
    and get_set: "get (put k v m) k' = (if k' = k then Some v else get m k')"
    and get_del: "get (del k m) k' = (if k' = k then None else get m k')"
    and ok_empty: "ok empty"
    and ok_set: "ok m \<Longrightarrow> ok (put k v m)"
    and ok_del: "ok m \<Longrightarrow> ok (del k m)"
begin

lemma get_set_same: "get (put k v m) k = Some v"
  by (simp add: get_set)

lemma get_set_other: "k' \<noteq> k \<Longrightarrow> get (put k v m) k' = get m k'"
  by (simp add: get_set)

lemma get_del_same: "get (del k m) k = None"
  by (simp add: get_del)

lemma get_set_twice: "get (put k v (put k w m)) = get (put k v m)"
  by (auto simp: get_set fun_eq_iff)

lemma get_del_set: "get (del k (put k v m)) = get (del k m)"
  by (auto simp: get_set get_del fun_eq_iff)

end

lemma gm_get_set [simp]: "gm_get (gm_set k v m) k' = (if k' = k then Some v else gm_get m k')"
  by (induction m) (auto simp: gm_get_def)

lemma gm_get_del [simp]: "gm_get (gm_del k m) k' = (if k' = k then None else gm_get m k')"
  by (induction m) (auto simp: gm_get_def gm_del_def)

lemma gm_get_Nil [simp]: "gm_get [] k = None"
  by (simp add: gm_get_def)

lemma set_gm_set: "fst ` set (gm_set k v m) = insert k (fst ` set m)"
  by (induction k v m rule: gm_set.induct) auto

lemma gm_ok_set [simp]: "gm_ok m \<Longrightarrow> gm_ok (gm_set k v m)"
proof (induction m)
  case (Cons e m)
  then show ?case
    using set_gm_set [of k v m] by (cases e) (auto simp: gm_ok_def)
qed (simp add: gm_ok_def)

lemma gm_ok_filter [simp]: "gm_ok m \<Longrightarrow> gm_ok (filter P m)"
  by (simp add: gm_ok_def distinct_map_filter)

lemma gm_ok_del [simp]: "gm_ok m \<Longrightarrow> gm_ok (gm_del k m)"
  by (simp add: gm_del_def)

lemma gm_ok_Nil [simp]: "gm_ok []"
  by (simp add: gm_ok_def)

interpretation gm: go_map "[]" gm_get gm_set gm_del gm_ok
  by unfold_locales auto

lemma gm_get_in: "gm_get m k = Some v \<Longrightarrow> (k, v) \<in> set m"
  by (simp add: gm_get_def map_of_SomeD)

lemma gm_in_get: "gm_ok m \<Longrightarrow> (k, v) \<in> set m \<Longrightarrow> gm_get m k = Some v"
  by (simp add: gm_get_def gm_ok_def)

lemma gm_get_filter:
  "gm_ok m \<Longrightarrow> gm_get (filter P m) k = (case gm_get m k of None \<Rightarrow> None | Some v \<Rightarrow> if P (k, v) then Some v else None)"
proof (induction m)
  case (Cons e m)
  obtain k' v' where e: "e = (k', v')" by (cases e)
  have notin: "gm_get m k' = None"
    using Cons.prems e by (auto simp: gm_ok_def gm_get_def map_of_eq_None_iff)
  from Cons e show ?case
    using notin by (auto simp: gm_ok_def gm_get_def split: option.splits)
qed (simp add: gm_ok_def)

lemma gm_set_in: "(k', v') \<in> set (gm_set k v m) \<Longrightarrow> (k', v') = (k, v) \<or> (k', v') \<in> set m"
  by (induction m) (auto split: if_splits)

section \<open>Transition systems\<close>

text \<open>
  A component with interleaved operations is an initial predicate and a step relation; an
  invariant that holds initially and is kept by every step holds in every reachable state.
\<close>

locale transition_system =
  fixes init :: "'s \<Rightarrow> bool"
    and step :: "'s \<Rightarrow> 's \<Rightarrow> bool"
begin

inductive reach :: "'s \<Rightarrow> bool" where
  reach_init: "init s \<Longrightarrow> reach s"
| reach_step: "reach s \<Longrightarrow> step s t \<Longrightarrow> reach t"

lemma reach_invariant:
  assumes "reach s"
    and "\<And>s. init s \<Longrightarrow> I s"
    and "\<And>s t. reach s \<Longrightarrow> I s \<Longrightarrow> step s t \<Longrightarrow> I t"
  shows "I s"
  using assms(1) by (induction rule: reach.induct) (auto intro: assms)

end

end
