(* ===== verification/GoLib.thy ===== *)
theory GoLib
  imports Prelude
begin

text \<open>
  The parts of Go's standard library the source calls on strings: \<open>strings\<close>, \<open>strconv\<close> and
  the address functions of \<open>net\<close>. Strings are byte sequences; the case and white-space
  functions are those of Go on ASCII, which is what addresses, fingerprints, roles and
  environment names are made of.
\<close>

section \<open>Package strings\<close>

definition is_space :: "char \<Rightarrow> bool" where
  "is_space c \<longleftrightarrow> (of_char c :: nat) \<in> {9, 10, 11, 12, 13, 32}"

definition trim_left :: "(char \<Rightarrow> bool) \<Rightarrow> string \<Rightarrow> string" where
  "trim_left p s = dropWhile p s"

definition trim_right :: "(char \<Rightarrow> bool) \<Rightarrow> string \<Rightarrow> string" where
  "trim_right p s = rev (dropWhile p (rev s))"

definition TrimFunc :: "(char \<Rightarrow> bool) \<Rightarrow> string \<Rightarrow> string" where
  "TrimFunc p s = trim_right p (trim_left p s)"

definition TrimSpace :: "string \<Rightarrow> string" where
  "TrimSpace s = TrimFunc is_space s"

definition Trim :: "string \<Rightarrow> string \<Rightarrow> string" where
  "Trim s cutset = TrimFunc (\<lambda>c. c \<in> set cutset) s"

definition TrimRight :: "string \<Rightarrow> string \<Rightarrow> string" where
  "TrimRight s cutset = trim_right (\<lambda>c. c \<in> set cutset) s"

definition upper_char :: "char \<Rightarrow> char" where
  "upper_char c = (if (97::nat) \<le> of_char c \<and> (of_char c :: nat) \<le> 122 then char_of (of_char c - 32 :: nat) else c)"

definition lower_char :: "char \<Rightarrow> char" where
  "lower_char c = (if (65::nat) \<le> of_char c \<and> (of_char c :: nat) \<le> 90 then char_of (of_char c + 32 :: nat) else c)"

definition ToUpper :: "string \<Rightarrow> string" where
  "ToUpper s = map upper_char s"

definition ToLower :: "string \<Rightarrow> string" where
  "ToLower s = map lower_char s"

definition EqualFold :: "string \<Rightarrow> string \<Rightarrow> bool" where
  "EqualFold s t \<longleftrightarrow> ToLower s = ToLower t"

definition HasPrefix :: "string \<Rightarrow> string \<Rightarrow> bool" where
  "HasPrefix s p \<longleftrightarrow> take (length p) s = p"

definition TrimPrefix :: "string \<Rightarrow> string \<Rightarrow> string" where
  "TrimPrefix s p = (if HasPrefix s p then drop (length p) s else s)"

lemma dropWhile_hd: "dropWhile p s \<noteq> [] \<Longrightarrow> \<not> p (hd (dropWhile p s))"
  by (rule hd_dropWhile)

lemma dropWhile_id: "(s = [] \<or> \<not> p (hd s)) \<Longrightarrow> dropWhile p s = s"
  by (cases s) auto

lemma trim_right_id: "(s = [] \<or> \<not> p (last s)) \<Longrightarrow> trim_right p s = s"
  by (simp add: trim_right_def dropWhile_id hd_rev)

lemma trim_left_id: "(s = [] \<or> \<not> p (hd s)) \<Longrightarrow> trim_left p s = s"
  by (simp add: trim_left_def dropWhile_id)

text \<open>A string with nothing to trim at either end, and trimming as the way to reach it.\<close>

definition trimmed :: "(char \<Rightarrow> bool) \<Rightarrow> string \<Rightarrow> bool" where
  "trimmed p s \<longleftrightarrow> s = [] \<or> (\<not> p (hd s) \<and> \<not> p (last s))"

lemma TrimFunc_id: "trimmed p s \<Longrightarrow> TrimFunc p s = s"
  unfolding trimmed_def TrimFunc_def
  by (auto simp: trim_left_id trim_right_id)

lemma trim_right_last: "trim_right p s = [] \<or> \<not> p (last (trim_right p s))"
  using dropWhile_hd [of p "rev s"] by (auto simp: trim_right_def last_rev)

lemma trim_right_hd: "trim_right p s \<noteq> [] \<Longrightarrow> hd (trim_right p s) = hd s"
proof -
  assume ne: "trim_right p s \<noteq> []"
  have "trim_right p s @ rev (takeWhile p (rev s)) = s"
    unfolding trim_right_def by (metis rev_append rev_rev_ident takeWhile_dropWhile_id)
  with ne show ?thesis by (metis hd_append2)
qed

lemma trimmed_TrimFunc: "trimmed p (TrimFunc p s)"
proof -
  let ?l = "trim_left p s"
  show ?thesis
  proof (cases "trim_right p ?l = []")
    case False
    then have "?l \<noteq> []" by (auto simp: trim_right_def)
    then have "\<not> p (hd ?l)" unfolding trim_left_def by (rule dropWhile_hd)
    with False trim_right_last [of p ?l] trim_right_hd [OF False] show ?thesis
      by (simp add: trimmed_def TrimFunc_def)
  qed (simp add: trimmed_def TrimFunc_def)
qed

lemma TrimFunc_idem: "TrimFunc p (TrimFunc p s) = TrimFunc p s"
  by (rule TrimFunc_id [OF trimmed_TrimFunc])

lemma set_TrimFunc: "set (TrimFunc p s) \<subseteq> set s"
  unfolding TrimFunc_def trim_right_def trim_left_def
  by (auto dest!: set_dropWhileD)

lemma upper_char_idem [simp]: "upper_char (upper_char c) = upper_char c"
  by (auto simp: upper_char_def)

lemma ToUpper_idem [simp]: "ToUpper (ToUpper s) = ToUpper s"
  by (simp add: ToUpper_def comp_def)

text \<open>The verb \<open>%q\<close>, on strings without quotes, backslashes or control characters.\<close>

definition quoted :: "string \<Rightarrow> string" where
  "quoted s = CHR 0x22 # s @ [CHR 0x22]"

lemma TrimSpace_ends: "TrimSpace s \<noteq> [] \<Longrightarrow> \<not> is_space (hd (TrimSpace s)) \<and> \<not> is_space (last (TrimSpace s))"
proof -
  assume ne: "TrimSpace s \<noteq> []"
  let ?l = "dropWhile is_space s"
  have t: "TrimSpace s = rev (dropWhile is_space (rev ?l))" by (simp add: TrimSpace_def TrimFunc_def trim_right_def trim_left_def)
  then have "\<not> is_space (last (TrimSpace s))" using ne hd_dropWhile [of is_space "rev ?l"] by (simp add: last_rev)
  moreover have "?l = TrimSpace s @ rev (takeWhile is_space (rev ?l))"
    unfolding t by (metis rev_append rev_rev_ident takeWhile_dropWhile_id)
  then have "hd (TrimSpace s) = hd ?l" "?l \<noteq> []" using ne by (metis hd_append2, metis append_is_Nil_conv)
  then have "\<not> is_space (hd (TrimSpace s))" using hd_dropWhile [of is_space s] by simp
  ultimately show ?thesis by simp
qed

lemma TrimSpace_id: "s \<noteq> [] \<Longrightarrow> \<not> is_space (hd s) \<Longrightarrow> \<not> is_space (last s) \<Longrightarrow> TrimSpace s = s"
proof -
  assume s: "s \<noteq> []" "\<not> is_space (hd s)" "\<not> is_space (last s)"
  have "dropWhile is_space s = s" using s by (simp add: dropWhile_id)
  moreover have "dropWhile is_space (rev s) = rev s" using s by (intro dropWhile_id) (simp add: hd_rev)
  ultimately show ?thesis by (simp add: TrimSpace_def TrimFunc_def trim_right_def trim_left_def)
qed

lemma hd_filter: "t \<noteq> [] \<Longrightarrow> Q (hd t) \<Longrightarrow> hd (filter Q t) = hd t"
  by (cases t) simp_all

lemma last_filter: "t \<noteq> [] \<Longrightarrow> Q (last t) \<Longrightarrow> last (filter Q t) = last t"
  by (cases t rule: rev_cases) simp_all

lemma filter_ends: "t \<noteq> [] \<Longrightarrow> Q (hd t) \<Longrightarrow> filter Q t \<noteq> []"
  by (cases t) simp_all

lemma is_space_upper [simp]: "is_space (upper_char c) = is_space c"
  by (auto simp: upper_char_def is_space_def)

section \<open>Decimal numbers: strconv\<close>

definition digit_char :: "nat \<Rightarrow> char" where
  "digit_char d = char_of (48 + d)"

definition digit_val :: "char \<Rightarrow> nat" where
  "digit_val c = of_char c - 48"

definition is_digit :: "char \<Rightarrow> bool" where
  "is_digit c \<longleftrightarrow> (48::nat) \<le> of_char c \<and> (of_char c :: nat) \<le> 57"

fun show_nat :: "nat \<Rightarrow> string" where
  "show_nat n = (if n < 10 then [digit_char n] else show_nat (n div 10) @ [digit_char (n mod 10)])"

declare show_nat.simps [simp del]

definition read_nat :: "string \<Rightarrow> nat" where
  "read_nat s = foldl (\<lambda>a c. 10 * a + digit_val c) 0 s"

definition Itoa :: "int \<Rightarrow> string" where
  "Itoa x = (if x < 0 then CHR ''-'' # show_nat (nat (- x)) else show_nat (nat x))"

text \<open>\<open>strconv.Atoi\<close>: an optional sign, one or more digits, and a value that fits an \<open>int\<close>.\<close>

definition Atoi :: "string \<Rightarrow> int option" where
  "Atoi s =
     (let neg = (s \<noteq> [] \<and> hd s = CHR ''-'');
          ds = (if s \<noteq> [] \<and> (hd s = CHR ''-'' \<or> hd s = CHR ''+'') then tl s else s);
          v = (if neg then - int (read_nat ds) else int (read_nat ds))
      in if ds \<noteq> [] \<and> list_all is_digit ds \<and> int64 v then Some v else None)"

lemma of_digit_char: "d < 10 \<Longrightarrow> (of_char (digit_char d) :: nat) = 48 + d"
  by (simp add: digit_char_def)

lemma digit_char_props [simp]:
  "d < 10 \<Longrightarrow> digit_val (digit_char d) = d" "d < 10 \<Longrightarrow> is_digit (digit_char d)"
  by (simp_all add: digit_val_def digit_char_def is_digit_def)

lemma show_nat_digits: "list_all is_digit (show_nat n)"
proof (induction n rule: show_nat.induct)
  case (1 n)
  then show ?case by (subst show_nat.simps) auto
qed

lemma show_nat_nonempty [simp]: "show_nat n \<noteq> []"
  by (subst show_nat.simps) simp

lemma read_nat_snoc: "read_nat (s @ [c]) = 10 * read_nat s + digit_val c"
  by (simp add: read_nat_def)

lemma read_show_nat [simp]: "read_nat (show_nat n) = n"
proof (induction n rule: show_nat.induct)
  case (1 n)
  show ?case
  proof (cases "n < 10")
    case True
    then show ?thesis by (subst show_nat.simps) (simp add: read_nat_def)
  next
    case False
    with 1 have "read_nat (show_nat (n div 10)) = n div 10" by simp
    with False show ?thesis by (subst show_nat.simps) (simp add: read_nat_snoc)
  qed
qed

lemma digit_char_zero: "d < 10 \<Longrightarrow> digit_char d = CHR ''0'' \<longleftrightarrow> d = 0"
  using of_digit_char [of d] of_char_eq_iff [where ?'a = nat, of "digit_char d" "CHR ''0''"] by simp

lemma show_nat_hd: "0 < n \<Longrightarrow> hd (show_nat n) \<noteq> CHR ''0''"
proof (induction n rule: show_nat.induct)
  case (1 n)
  show ?case
  proof (cases "n < 10")
    case True
    with 1 show ?thesis by (subst show_nat.simps) (simp add: digit_char_zero)
  next
    case False
    then have "0 < n div 10" by simp
    with 1 False have "hd (show_nat (n div 10)) \<noteq> CHR ''0''" by simp
    with False show ?thesis by (subst show_nat.simps) simp
  qed
qed

lemma length_show_nat: "n < 10 ^ Suc k \<Longrightarrow> length (show_nat n) \<le> Suc k"
proof (induction k arbitrary: n)
  case 0
  then show ?case by (subst show_nat.simps) simp
next
  case (Suc k)
  have "n div 10 < 10 ^ Suc k" using Suc.prems by (simp add: less_mult_imp_div_less)
  from Suc.IH [OF this] show ?case by (subst show_nat.simps) simp
qed

lemma show_nat_0: "show_nat 0 = ''0''"
  using digit_char_zero [of 0] by (subst show_nat.simps) simp

lemma is_digit_hd_show_nat: "is_digit (hd (show_nat n))"
  using show_nat_digits [of n] by (cases "show_nat n") auto

lemma Atoi_show_nat: "int64 (int n) \<Longrightarrow> Atoi (show_nat n) = Some (int n)"
proof -
  assume n: "int64 (int n)"
  have h: "hd (show_nat n) \<noteq> CHR ''-''" "hd (show_nat n) \<noteq> CHR ''+''"
    using is_digit_hd_show_nat [of n] by (auto simp: is_digit_def)
  with n show ?thesis by (simp add: Atoi_def Let_def show_nat_digits)
qed

section \<open>Host and port: package net\<close>

fun split_last_colon :: "string \<Rightarrow> (string \<times> string) option" where
  "split_last_colon [] = None"
| "split_last_colon (c # s) =
     (case split_last_colon s of
        Some (h, p) \<Rightarrow> Some (c # h, p)
      | None \<Rightarrow> if c = CHR '':'' then Some ([], s) else None)"

datatype addr_error = MissingPort | TooManyColons | MissingBracket | UnexpectedOpen | UnexpectedClose

text \<open>
  \<open>net.SplitHostPort\<close>: the port starts after the last colon; a host that contains colons is
  written in brackets, with the first closing bracket just before that colon.
\<close>

definition SplitHostPort :: "string \<Rightarrow> addr_error + (string \<times> string)" where
  "SplitHostPort hp =
     (case split_last_colon hp of
        None \<Rightarrow> Inl MissingPort
      | Some (h, p) \<Rightarrow>
          if hd hp = CHR ''['' then
            (if CHR '']'' \<notin> set hp then Inl MissingBracket
             else
               let host = takeWhile (\<lambda>c. c \<noteq> CHR '']'') (tl hp);
                   after = tl (dropWhile (\<lambda>c. c \<noteq> CHR '']'') hp)
               in if after = [] then Inl MissingPort
                  else if after \<noteq> CHR '':'' # p
                  then (if hd after = CHR '':'' then Inl TooManyColons else Inl MissingPort)
                  else if CHR ''['' \<in> set (tl hp) then Inl UnexpectedOpen
                  else if CHR '']'' \<in> set after then Inl UnexpectedClose
                  else Inr (host, p))
          else if CHR '':'' \<in> set h then Inl TooManyColons
          else if CHR ''['' \<in> set hp then Inl UnexpectedOpen
          else if CHR '']'' \<in> set hp then Inl UnexpectedClose
          else Inr (h, p))"

definition JoinHostPort :: "string \<Rightarrow> string \<Rightarrow> string" where
  "JoinHostPort host port =
     (if CHR '':'' \<in> set host
      then CHR ''['' # host @ CHR '']'' # CHR '':'' # port
      else host @ CHR '':'' # port)"

lemma split_last_colon_append:
  "CHR '':'' \<notin> set p \<Longrightarrow> split_last_colon (h @ CHR '':'' # p) = Some (h, p)"
proof (induction h)
  case Nil
  moreover have "CHR '':'' \<notin> set p \<Longrightarrow> split_last_colon p = None"
    by (induction p) auto
  ultimately show ?case by simp
qed simp

lemma split_last_colon_None: "split_last_colon s = None \<longleftrightarrow> CHR '':'' \<notin> set s"
  by (induction s) (auto split: option.splits)

lemma split_last_colon_Some:
  "split_last_colon s = Some (h, p) \<Longrightarrow> s = h @ CHR '':'' # p \<and> CHR '':'' \<notin> set p"
  by (induction s arbitrary: h)
     (auto split: option.splits if_splits simp: split_last_colon_None)

definition bracket_free :: "string \<Rightarrow> bool" where
  "bracket_free s \<longleftrightarrow> CHR ''['' \<notin> set s \<and> CHR '']'' \<notin> set s"

lemma SplitHostPort_JoinHostPort:
  assumes "bracket_free h" "bracket_free p" "CHR '':'' \<notin> set p"
  shows "SplitHostPort (JoinHostPort h p) = Inr (h, p)"
proof (cases "CHR '':'' \<in> set h")
  case True
  let ?hp = "CHR ''['' # h @ CHR '']'' # CHR '':'' # p"
  have sp: "split_last_colon ?hp = Some (CHR ''['' # h @ [CHR '']''], p)"
    using split_last_colon_append [of p "CHR ''['' # h @ [CHR '']'']"] assms by simp
  have h: "\<And>x. x \<in> set h \<Longrightarrow> x \<noteq> CHR '']''" using assms by (auto simp: bracket_free_def)
  have tk: "takeWhile (\<lambda>c. c \<noteq> CHR '']'') (h @ CHR '']'' # CHR '':'' # p) = h"
    using h by (subst takeWhile_append2) auto
  have dr: "dropWhile (\<lambda>c. c \<noteq> CHR '']'') (h @ CHR '']'' # CHR '':'' # p) = CHR '']'' # CHR '':'' # p"
    using h by (subst dropWhile_append2) auto
  from True show ?thesis
    using assms sp by (simp add: JoinHostPort_def SplitHostPort_def tk dr Let_def bracket_free_def
        del: split_last_colon.simps)
next
  case False
  have sp: "split_last_colon (h @ CHR '':'' # p) = Some (h, p)"
    by (rule split_last_colon_append) (rule assms)
  have hd: "hd (h @ CHR '':'' # p) \<noteq> CHR ''[''"
    using assms by (cases h) (auto simp: bracket_free_def)
  from False show ?thesis
    using assms hd by (auto simp: JoinHostPort_def SplitHostPort_def sp bracket_free_def)
qed

end
