(* ===== verification/Json.thy ===== *)
theory Json
  imports GoLib
begin

text \<open>
  Package \<open>encoding/json\<close> as the source uses it: the values that messages are made of, the
  compact printer behind \<open>json.Marshal\<close>, the parser behind \<open>json.Unmarshal\<close>, and the way a
  struct field takes its value from an object. The parser reads back whatever the printer
  writes (\<open>Unmarshal_Marshal\<close>), so the messages of the protocol survive the wire.
\<close>

section \<open>Values\<close>

text \<open>\<open>JFrac\<close> is a number literal that is no integer; decoding one into an integer field fails.\<close>

datatype json =
    JNull
  | JBool bool
  | JInt int
  | JFrac string
  | JStr string
  | JArr "json list"
  | JObj "(string \<times> json) list"

section \<open>Printer\<close>

definition hex_digit :: "nat \<Rightarrow> char" where
  "hex_digit d = (if d < 10 then char_of (48 + d) else char_of (87 + d))"

text \<open>
  The escapes of \<open>json.Marshal\<close>: quote, backslash, the short control escapes, and
  \<open>\u00XY\<close> for the other control characters and for \<open><\<close>, \<open>>\<close>, \<open>&\<close>.
\<close>

definition escape_char :: "char \<Rightarrow> string" where
  "escape_char c =
     (let n = (of_char c :: nat) in
      if n = 34 \<or> n = 92 then [CHR 0x5C, c]
      else if n = 8 then [CHR 0x5C, CHR ''b'']
      else if n = 12 then [CHR 0x5C, CHR ''f'']
      else if n = 10 then [CHR 0x5C, CHR ''n'']
      else if n = 13 then [CHR 0x5C, CHR ''r'']
      else if n = 9 then [CHR 0x5C, CHR ''t'']
      else if n < 32 \<or> n = 60 \<or> n = 62 \<or> n = 38
      then [CHR 0x5C, CHR ''u'', CHR ''0'', CHR ''0'', hex_digit (n div 16), hex_digit (n mod 16)]
      else [c])"

text \<open>
  Go strings are bytes. The length of the UTF-8 sequence a string starts with, as
  \<open>utf8.DecodeRune\<close> accepts it: no overlong forms, no surrogates; 0 where there is none.
\<close>

definition cont_byte :: "nat \<Rightarrow> bool" where
  "cont_byte b \<longleftrightarrow> 128 \<le> b \<and> b \<le> 191"

fun rune_size :: "nat list \<Rightarrow> nat" where
  "rune_size [] = 0"
| "rune_size (a # r) =
     (if a < 128 then 1
      else case r of
        [] \<Rightarrow> 0
      | b # r2 \<Rightarrow>
          if 194 \<le> a \<and> a \<le> 223 then (if cont_byte b then 2 else 0)
          else case r2 of
            [] \<Rightarrow> 0
          | c # r3 \<Rightarrow>
              if 224 \<le> a \<and> a \<le> 239 then
                (if cont_byte b \<and> cont_byte c \<and> (a = 224 \<longrightarrow> 160 \<le> b) \<and> (a = 237 \<longrightarrow> b \<le> 159) then 3 else 0)
              else case r3 of
                [] \<Rightarrow> 0
              | d # r4 \<Rightarrow>
                  if 240 \<le> a \<and> a \<le> 244 \<and> cont_byte b \<and> cont_byte c \<and> cont_byte d
                     \<and> (a = 240 \<longrightarrow> 144 \<le> b) \<and> (a = 244 \<longrightarrow> b \<le> 143)
                  then 4 else 0)"

definition rune_len :: "string \<Rightarrow> nat" where
  "rune_len s = rune_size (map of_char (take 4 s))"

text \<open>The body of a string literal: an invalid byte becomes \<open>\ufffd\<close>, U+2028 and U+2029 are escaped.\<close>

fun escape_string :: "string \<Rightarrow> string" where
  "escape_string [] = []"
| "escape_string (c # cs) =
     (if (of_char c :: nat) < 128 then escape_char c @ escape_string cs
      else
        let k = rune_len (c # cs); u = take k (c # cs) in
        if k = 0 then CHR 0x5C # ''ufffd'' @ escape_string cs
        else (if u = [CHR 0xE2, CHR 0x80, CHR 0xA8] then CHR 0x5C # ''u2028''
              else if u = [CHR 0xE2, CHR 0x80, CHR 0xA9] then CHR 0x5C # ''u2029'' else u)
             @ escape_string (drop (k - 1) cs))"

definition print_string :: "string \<Rightarrow> string" where
  "print_string s = CHR 0x22 # escape_string s @ [CHR 0x22]"

fun join_with :: "string \<Rightarrow> string list \<Rightarrow> string" where
  "join_with sep [] = []"
| "join_with sep [x] = x"
| "join_with sep (x # y # xs) = x @ sep @ join_with sep (y # xs)"

text \<open>
  The printer, with what stands between the tokens: \<open>nl d\<close> before an element at depth \<open>d\<close>, \<open>co\<close> after
  a colon. Empty arrays and objects are printed without either.
\<close>

definition bracketed :: "(nat \<Rightarrow> string) \<Rightarrow> nat \<Rightarrow> char \<Rightarrow> char \<Rightarrow> string list \<Rightarrow> string" where
  "bracketed nl d lb rb xs =
     (if xs = [] then [lb, rb]
      else lb # nl (Suc d) @ join_with (CHR '','' # nl (Suc d)) xs @ nl d @ [rb])"

fun print_json :: "(nat \<Rightarrow> string) \<Rightarrow> string \<Rightarrow> nat \<Rightarrow> json \<Rightarrow> string" where
  "print_json nl co d JNull = ''null''"
| "print_json nl co d (JBool b) = (if b then ''true'' else ''false'')"
| "print_json nl co d (JInt i) = Itoa i"
| "print_json nl co d (JFrac s) = s"
| "print_json nl co d (JStr s) = print_string s"
| "print_json nl co d (JArr vs) =
     bracketed nl d (CHR ''['') (CHR '']'') (map (print_json nl co (Suc d)) vs)"
| "print_json nl co d (JObj fs) =
     bracketed nl d (CHR ''{'') (CHR ''}'')
       (map (\<lambda>f. print_string (fst f) @ CHR '':'' # co @ print_json nl co (Suc d) (snd f)) fs)"

definition Marshal :: "json \<Rightarrow> bytes" where
  "Marshal v = bytes_of (print_json (\<lambda>_. []) [] 0 v)"

text \<open>\<open>json.MarshalIndent(v, "", "  ")\<close>.\<close>

definition MarshalIndent :: "json \<Rightarrow> bytes" where
  "MarshalIndent v = bytes_of (print_json (\<lambda>d. CHR 0x0A # replicate (2 * d) (CHR 0x20)) '' '' 0 v)"

section \<open>Parser\<close>

definition is_ws :: "char \<Rightarrow> bool" where
  "is_ws c \<longleftrightarrow> (of_char c :: nat) \<in> {32, 9, 10, 13}"

definition skip_ws :: "string \<Rightarrow> string" where
  "skip_ws s = dropWhile is_ws s"

definition hex_val :: "char \<Rightarrow> nat option" where
  "hex_val c =
     (let n = (of_char c :: nat) in
      if 48 \<le> n \<and> n \<le> 57 then Some (n - 48)
      else if 97 \<le> n \<and> n \<le> 102 then Some (n - 87)
      else if 65 \<le> n \<and> n \<le> 70 then Some (n - 55)
      else None)"

definition hex4 :: "char \<Rightarrow> char \<Rightarrow> char \<Rightarrow> char \<Rightarrow> nat option" where
  "hex4 a b c d =
     (case (hex_val a, hex_val b, hex_val c, hex_val d) of
        (Some a', Some b', Some c', Some d') \<Rightarrow> Some (4096 * a' + 256 * b' + 16 * c' + d')
      | _ \<Rightarrow> None)"

text \<open>UTF-8 of a code point; a lone surrogate becomes U+FFFD.\<close>

definition utf8 :: "nat \<Rightarrow> string" where
  "utf8 n =
     (if n < 128 then [char_of n]
      else if n < 2048 then [char_of (192 + n div 64), char_of (128 + n mod 64)]
      else if 55296 \<le> n \<and> n < 57344 then [CHR 0xEF, CHR 0xBF, CHR 0xBD]
      else if n < 65536
      then [char_of (224 + n div 4096), char_of (128 + n div 64 mod 64), char_of (128 + n mod 64)]
      else [char_of (240 + n div 262144), char_of (128 + n div 4096 mod 64),
            char_of (128 + n div 64 mod 64), char_of (128 + n mod 64)])"

text \<open>
  The code point an escape \<open>\uXXXX\<close> with value \<open>n\<close> stands for and the text after it: a high
  surrogate joins the low surrogate escaped right after it.
\<close>

definition join_surrogates :: "nat \<Rightarrow> string \<Rightarrow> nat \<times> nat" where
  "join_surrogates n r =
     (if 55296 \<le> n \<and> n < 56320 \<and> HasPrefix r [CHR 0x5C, CHR ''u''] \<and> 6 \<le> length r
      then case hex4 (r ! 2) (r ! 3) (r ! 4) (r ! 5) of
             Some m \<Rightarrow> if 56320 \<le> m \<and> m < 57344
                       then (65536 + (n - 55296) * 1024 + (m - 56320), 6) else (n, 0)
           | None \<Rightarrow> (n, 0)
      else (n, 0))"

definition unescape :: "char \<Rightarrow> char option" where
  "unescape e =
     (if e = CHR 0x22 \<or> e = CHR 0x5C \<or> e = CHR ''/'' then Some e
      else if e = CHR ''b'' then Some (CHR 0x08)
      else if e = CHR ''f'' then Some (CHR 0x0C)
      else if e = CHR ''n'' then Some (CHR 0x0A)
      else if e = CHR ''r'' then Some (CHR 0x0D)
      else if e = CHR ''t'' then Some (CHR 0x09)
      else None)"

text \<open>The characters of a string literal after its opens_value quote.\<close>

fun parse_chars :: "string \<Rightarrow> (string \<times> string) option" where
  "parse_chars [] = None"
| "parse_chars (c # r) =
     (if c = CHR 0x22 then Some ([], r)
      else if c = CHR 0x5C then
        (case r of
           [] \<Rightarrow> None
         | e # r1 \<Rightarrow>
             if e = CHR ''u'' then
               (case r1 of
                  h1 # h2 # h3 # h4 # r2 \<Rightarrow>
                    (case hex4 h1 h2 h3 h4 of
                       None \<Rightarrow> None
                     | Some n \<Rightarrow>
                         map_option (\<lambda>(x, y). (utf8 (fst (join_surrogates n r2)) @ x, y))
                           (parse_chars (drop (snd (join_surrogates n r2)) r2)))
                | _ \<Rightarrow> None)
             else
               (case unescape e of
                  None \<Rightarrow> None
                | Some x \<Rightarrow> map_option (\<lambda>(y, z). (x # y, z)) (parse_chars r1)))
      else if (of_char c :: nat) < 32 then None
      else if (of_char c :: nat) < 128 then map_option (\<lambda>(x, y). (c # x, y)) (parse_chars r)
      else
        let k = rune_len (c # r) in
        if k = 0 then map_option (\<lambda>(x, y). (CHR 0xEF # CHR 0xBF # CHR 0xBD # x, y)) (parse_chars r)
        else map_option (\<lambda>(x, y). (take k (c # r) @ x, y)) (parse_chars (drop (k - 1) r)))"

definition num_char :: "char \<Rightarrow> bool" where
  "num_char c \<longleftrightarrow> is_digit c \<or> c \<in> set ''+-.eE''"

definition int_literal :: "string \<Rightarrow> bool" where
  "int_literal s \<longleftrightarrow>
     (let d = (if s \<noteq> [] \<and> hd s = CHR ''-'' then tl s else s)
      in d \<noteq> [] \<and> list_all is_digit d \<and> (hd d = CHR ''0'' \<longrightarrow> length d = 1))"

definition exp_literal :: "string \<Rightarrow> bool" where
  "exp_literal s \<longleftrightarrow>
     s = [] \<or>
     ((hd s = CHR ''e'' \<or> hd s = CHR ''E'') \<and>
      (let d = (if tl s \<noteq> [] \<and> (hd (tl s) = CHR ''+'' \<or> hd (tl s) = CHR ''-'') then tl (tl s) else tl s)
       in d \<noteq> [] \<and> list_all is_digit d))"

definition frac_literal :: "string \<Rightarrow> bool" where
  "frac_literal s \<longleftrightarrow>
     (let i = takeWhile (\<lambda>c. c \<notin> set ''.eE'') s; r = dropWhile (\<lambda>c. c \<notin> set ''.eE'') s;
          f = takeWhile is_digit (tl r); x = dropWhile is_digit (tl r)
      in int_literal i \<and> (if r \<noteq> [] \<and> hd r = CHR ''.'' then f \<noteq> [] \<and> exp_literal x else exp_literal r))"

definition int_value :: "string \<Rightarrow> int" where
  "int_value s = (if s \<noteq> [] \<and> hd s = CHR ''-'' then - int (read_nat (tl s)) else int (read_nat s))"

definition parse_number :: "string \<Rightarrow> (json \<times> string) option" where
  "parse_number s =
     (let l = takeWhile num_char s; r = dropWhile num_char s
      in if int_literal l then Some (JInt (int_value l), r)
         else if frac_literal l then Some (JFrac l, r)
         else None)"

definition parse_lit :: "string \<Rightarrow> json \<Rightarrow> string \<Rightarrow> (json \<times> string) option" where
  "parse_lit l v s = (if HasPrefix s l then Some (v, drop (length l) s) else None)"

definition starts :: "char \<Rightarrow> string \<Rightarrow> bool" where
  "starts c s \<longleftrightarrow> s \<noteq> [] \<and> hd s = c"

text \<open>
  Recursive descent over the text. Every call consumes a character before it descends, so the
  length of the text is enough fuel (\<open>Unmarshal\<close>).
\<close>

fun parse_value :: "nat \<Rightarrow> string \<Rightarrow> (json \<times> string) option"
and parse_elems :: "nat \<Rightarrow> string \<Rightarrow> (json list \<times> string) option"
and parse_fields :: "nat \<Rightarrow> string \<Rightarrow> ((string \<times> json) list \<times> string) option" where
  "parse_value 0 s = None"
| "parse_value (Suc n) s =
     (let t = skip_ws s; r = tl t in
      if t = [] then None
      else if hd t = CHR ''n'' then parse_lit ''null'' JNull t
      else if hd t = CHR ''t'' then parse_lit ''true'' (JBool True) t
      else if hd t = CHR ''f'' then parse_lit ''false'' (JBool False) t
      else if hd t = CHR 0x22 then map_option (\<lambda>(x, y). (JStr x, y)) (parse_chars r)
      else if hd t = CHR ''['' then
        (if starts (CHR '']'') (skip_ws r) then Some (JArr [], tl (skip_ws r))
         else map_option (\<lambda>(x, y). (JArr x, y)) (parse_elems n r))
      else if hd t = CHR ''{'' then
        (if starts (CHR ''}'') (skip_ws r) then Some (JObj [], tl (skip_ws r))
         else map_option (\<lambda>(x, y). (JObj x, y)) (parse_fields n r))
      else parse_number t)"
| "parse_elems 0 s = None"
| "parse_elems (Suc n) s =
     (case parse_value n s of
        None \<Rightarrow> None
      | Some (v, r) \<Rightarrow>
          if starts (CHR '','') (skip_ws r) then
            map_option (\<lambda>(x, y). (v # x, y)) (parse_elems n (tl (skip_ws r)))
          else if starts (CHR '']'') (skip_ws r) then Some ([v], tl (skip_ws r))
          else None)"
| "parse_fields 0 s = None"
| "parse_fields (Suc n) s =
     (if \<not> starts (CHR 0x22) (skip_ws s) then None
      else case parse_chars (tl (skip_ws s)) of
        None \<Rightarrow> None
      | Some (k, r0) \<Rightarrow>
          if \<not> starts (CHR '':'') (skip_ws r0) then None
          else case parse_value n (tl (skip_ws r0)) of
            None \<Rightarrow> None
          | Some (v, r) \<Rightarrow>
              if starts (CHR '','') (skip_ws r) then
                map_option (\<lambda>(x, y). ((k, v) # x, y)) (parse_fields n (tl (skip_ws r)))
              else if starts (CHR ''}'') (skip_ws r) then Some ([(k, v)], tl (skip_ws r))
              else None)"

definition Unmarshal :: "bytes \<Rightarrow> json option" where
  "Unmarshal b =
     (case parse_value (Suc (length b)) (string_of b) of
        None \<Rightarrow> None
      | Some (v, r) \<Rightarrow> if skip_ws r = [] then Some v else None)"

section \<open>The parser reads back what the printer writes\<close>

lemma of_char_nat_eq: "(of_char c :: nat) = of_char d \<longleftrightarrow> c = d"
  by (rule of_char_eq_iff)

lemma char_code_iff:
  "(of_char c :: nat) = 34 \<longleftrightarrow> c = CHR 0x22" "(of_char c :: nat) = 92 \<longleftrightarrow> c = CHR 0x5C"
  "(of_char c :: nat) = 8 \<longleftrightarrow> c = CHR 0x08" "(of_char c :: nat) = 12 \<longleftrightarrow> c = CHR 0x0C"
  "(of_char c :: nat) = 10 \<longleftrightarrow> c = CHR 0x0A" "(of_char c :: nat) = 13 \<longleftrightarrow> c = CHR 0x0D"
  "(of_char c :: nat) = 9 \<longleftrightarrow> c = CHR 0x09"
  using of_char_nat_eq [of c "CHR 0x22"] of_char_nat_eq [of c "CHR 0x5C"]
    of_char_nat_eq [of c "CHR 0x08"] of_char_nat_eq [of c "CHR 0x0C"]
    of_char_nat_eq [of c "CHR 0x0A"] of_char_nat_eq [of c "CHR 0x0D"]
    of_char_nat_eq [of c "CHR 0x09"]
  by simp_all

lemma hex_val_hex_digit: "d < 16 \<Longrightarrow> hex_val (hex_digit d) = Some d"
  by (auto simp: hex_val_def hex_digit_def Let_def)

lemma hex_val_zero: "hex_val (CHR ''0'') = Some 0"
  by (simp add: hex_val_def)

lemma hex4_escape: "n < 256 \<Longrightarrow> hex4 (CHR ''0'') (CHR ''0'') (hex_digit (n div 16)) (hex_digit (n mod 16)) = Some n"
  by (simp add: hex4_def hex_val_hex_digit hex_val_zero)

lemma parse_escape_char:
  assumes "(of_char c :: nat) < 128"
  shows "parse_chars (escape_char c @ r) = map_option (\<lambda>(x, y). (c # x, y)) (parse_chars r)"
proof -
  have "\<not> 55296 \<le> (of_char c :: nat)" using assms by linarith
  then have sur: "join_surrogates (of_char c) r = (of_char c, 0)"
    by (simp add: join_surrogates_def)
  have utf: "(of_char c :: nat) = n \<Longrightarrow> n < 128 \<Longrightarrow> utf8 n = [c]" for n
    by (auto simp: utf8_def)
  show ?thesis
    using assms
    by (auto simp: escape_char_def Let_def unescape_def char_code_iff hex4_escape sur utf)
qed

section \<open>Valid strings\<close>

fun valid_utf8 :: "string \<Rightarrow> bool" where
  "valid_utf8 [] \<longleftrightarrow> True"
| "valid_utf8 (c # cs) \<longleftrightarrow> rune_len (c # cs) \<noteq> 0 \<and> valid_utf8 (drop (rune_len (c # cs) - 1) cs)"

declare valid_utf8.simps(2) [simp del]

lemma rune_len_ascii [simp]: "(of_char c :: nat) < 128 \<Longrightarrow> rune_len (c # cs) = 1"
  by (simp add: rune_len_def)

lemma valid_utf8_Cons [simp]: "(of_char c :: nat) < 128 \<Longrightarrow> valid_utf8 (c # cs) = valid_utf8 cs"
  by (simp add: valid_utf8.simps)

lemma valid_utf8_ascii: "list_all (\<lambda>c. (of_char c :: nat) < 128) s \<Longrightarrow> valid_utf8 s"
  by (induction s) (simp_all add: valid_utf8.simps)

lemma rune_size_bound: "rune_size ns \<le> length ns"
  by (cases ns) (auto split: list.splits)

lemma rune_size_prefix: "0 < rune_size ns \<Longrightarrow> rune_size (take (rune_size ns) ns @ ms) = rune_size ns"
  by (cases ns) (auto split: list.splits if_splits)

lemma rune_len_bound: "rune_len s \<le> length s" "rune_len s \<le> 4"
  using rune_size_bound [of "map of_char (take 4 s)"] by (simp_all add: rune_len_def)

lemma rune_len_prefix:
  assumes "0 < rune_len s"
  shows "rune_len (take (rune_len s) s @ t) = rune_len s"
proof -
  let ?k = "rune_len s"
  have k: "?k \<le> 4" "?k \<le> length s" by (rule rune_len_bound)+
  have "map of_char (take 4 (take ?k s @ t)) = take ?k (map of_char (take 4 s)) @ map of_char (take (4 - ?k) t)"
    using k by (simp add: take_map min_def)
  with rune_size_prefix [of "map of_char (take 4 s)" "map of_char (take (4 - ?k) t)"] assms
  show ?thesis unfolding rune_len_def by metis
qed

lemma char_E2:
  "char_of (226 :: nat) = CHR 0xE2" "char_of (128 :: nat) = CHR 0x80" "char_of (168 :: nat) = CHR 0xA8"
  "char_of (169 :: nat) = CHR 0xA9"
  by code_simp+

lemma escape_ufffd:
  "parse_chars (CHR 0x5C # CHR ''u'' # CHR ''2'' # CHR ''0'' # CHR ''2'' # CHR ''8'' # r)
     = map_option (\<lambda>(x, y). ([CHR 0xE2, CHR 0x80, CHR 0xA8] @ x, y)) (parse_chars r)"
  "parse_chars (CHR 0x5C # CHR ''u'' # CHR ''2'' # CHR ''0'' # CHR ''2'' # CHR ''9'' # r)
     = map_option (\<lambda>(x, y). ([CHR 0xE2, CHR 0x80, CHR 0xA9] @ x, y)) (parse_chars r)"
  using char_E2 by (simp_all add: hex4_def hex_val_def join_surrogates_def utf8_def)

lemma parse_multibyte:
  assumes "128 \<le> (of_char c :: nat)" "k = rune_len (c # cs)" "k \<noteq> 0"
  shows "parse_chars (take k (c # cs) @ r) = map_option (\<lambda>(x, y). (take k (c # cs) @ x, y)) (parse_chars r)"
proof -
  obtain m where m: "k = Suc m" using assms(3) by (cases k) auto
  have pre: "rune_len (c # take m cs @ r) = k"
    using rune_len_prefix [of "c # cs" r] assms(2,3) m by (metis append_Cons neq0_conv take_Suc_Cons)
  have "length (take m cs) = m" using rune_len_bound(1) [of "c # cs"] assms(2) m by simp
  moreover have "c \<noteq> CHR 0x22" "c \<noteq> CHR 0x5C" using assms(1) by auto
  ultimately show ?thesis using assms(1) m pre by simp
qed

lemma parse_print_string:
  "valid_utf8 s \<Longrightarrow> parse_chars (escape_string s @ CHR 0x22 # r) = Some (s, r)"
proof (induction s rule: escape_string.induct)
  case (2 c cs)
  let ?k = "rune_len (c # cs)"
  show ?case
  proof (cases "(of_char c :: nat) < 128")
    case True
    then show ?thesis using 2 by (simp add: parse_escape_char valid_utf8.simps)
  next
    case False
    then have k: "?k \<noteq> 0" "valid_utf8 (drop (?k - 1) cs)" using "2.prems" by (simp_all add: valid_utf8.simps)
    have ih: "parse_chars (escape_string (drop (?k - 1) cs) @ CHR 0x22 # r) = Some (drop (?k - 1) cs, r)"
      using 2(3) [OF False refl refl k] .
    have all: "take ?k (c # cs) @ drop (?k - 1) cs = c # cs" using k(1) by (cases ?k) simp_all
    show ?thesis
      using False k ih all parse_multibyte [OF _ refl k(1), of "escape_string (drop (?k - 1) cs) @ CHR 0x22 # r"]
        escape_ufffd
      by (auto simp: Let_def simp del: parse_chars.simps)
  qed
qed simp

fun printable :: "json \<Rightarrow> bool" where
  "printable (JFrac s) \<longleftrightarrow> False"
| "printable (JStr s) \<longleftrightarrow> valid_utf8 s"
| "printable (JArr vs) \<longleftrightarrow> list_all printable vs"
| "printable (JObj fs) \<longleftrightarrow> list_all (\<lambda>f. valid_utf8 (fst f) \<and> printable (snd f)) fs"
| "printable v \<longleftrightarrow> True"

fun parse_fuel :: "json \<Rightarrow> nat" where
  "parse_fuel (JArr vs) = Suc (sum_list (map (\<lambda>v. Suc (parse_fuel v)) vs))"
| "parse_fuel (JObj fs) = Suc (sum_list (map (\<lambda>f. Suc (parse_fuel (snd f))) fs))"
| "parse_fuel v = 1"

definition stops :: "string \<Rightarrow> bool" where
  "stops r \<longleftrightarrow> r = [] \<or> \<not> num_char (hd r)"

lemma Itoa_num_chars: "list_all num_char (Itoa i)"
  using show_nat_digits by (auto simp: Itoa_def num_char_def list_all_iff)

lemma int_literal_Itoa: "int_literal (Itoa i)"
proof -
  have "hd (show_nat n) = CHR ''0'' \<Longrightarrow> length (show_nat n) = 1" for n
    using show_nat_hd [of n] by (cases "n = 0") (auto simp: show_nat_0)
  moreover have "hd (show_nat n) \<noteq> CHR ''-''" for n
    using is_digit_hd_show_nat [of n] by (auto simp: is_digit_def)
  ultimately show ?thesis
    by (auto simp: int_literal_def Itoa_def Let_def show_nat_digits)
qed

lemma int_value_Itoa: "int_value (Itoa i) = i"
proof -
  have "hd (show_nat n) \<noteq> CHR ''-''" for n
    using is_digit_hd_show_nat [of n] by (auto simp: is_digit_def)
  then show ?thesis by (simp add: int_value_def Itoa_def)
qed

lemma Itoa_hd: "Itoa i \<noteq> [] \<and> (is_digit (hd (Itoa i)) \<or> hd (Itoa i) = CHR ''-'')"
  using is_digit_hd_show_nat by (auto simp: Itoa_def)

lemma parse_number_Itoa: "stops r \<Longrightarrow> parse_number (Itoa i @ r) = Some (JInt i, r)"
proof -
  assume r: "stops r"
  have all: "\<And>c. c \<in> set (Itoa i) \<Longrightarrow> num_char c"
    using Itoa_num_chars by (auto simp: list_all_iff)
  have "takeWhile num_char r = []" "dropWhile num_char r = r"
    using r by (cases r; simp add: stops_def)+
  with all have "takeWhile num_char (Itoa i @ r) = Itoa i" "dropWhile num_char (Itoa i @ r) = r"
    by (simp_all add: takeWhile_append2 dropWhile_append2)
  then show ?thesis
    by (simp add: parse_number_def int_literal_Itoa int_value_Itoa)
qed

text \<open>A printed value starts with a character that is no white space and closes no bracket.\<close>

definition opens_value :: "string \<Rightarrow> bool" where
  "opens_value s \<longleftrightarrow> s \<noteq> [] \<and> \<not> is_ws (hd s) \<and> hd s \<noteq> CHR '']'' \<and> hd s \<noteq> CHR ''}''"

lemma opening_Itoa: "opens_value (Itoa i)"
  using Itoa_hd [of i] by (auto simp: opens_value_def is_ws_def is_digit_def)

lemma skip_ws_opening: "opens_value s \<Longrightarrow> skip_ws (s @ r) = s @ r"
  by (cases s) (auto simp: skip_ws_def opens_value_def)

lemma skip_ws_char: "\<not> is_ws c \<Longrightarrow> skip_ws (c # r) = c # r"
  by (simp add: skip_ws_def)

lemma ws_chars [simp]:
  "\<not> is_ws (CHR '','')" "\<not> is_ws (CHR '']'')" "\<not> is_ws (CHR ''}'')" "\<not> is_ws (CHR '':'')"
  "\<not> is_ws (CHR 0x22)" "\<not> is_ws (CHR ''['')" "\<not> is_ws (CHR ''{'')"
  "\<not> is_ws (CHR ''n'')" "\<not> is_ws (CHR ''t'')" "\<not> is_ws (CHR ''f'')"
  by (simp_all add: is_ws_def)

lemma stops_chars [simp]: "stops []" "stops (CHR '','' # r)" "stops (CHR '']'' # r)" "stops (CHR ''}'' # r)"
  by (simp_all add: stops_def num_char_def is_digit_def)

lemma ws_not_num: "is_ws c \<Longrightarrow> \<not> num_char c"
  by (auto simp: is_ws_def num_char_def is_digit_def)

text \<open>What may stand between two tokens.\<close>

definition blank :: "string \<Rightarrow> bool" where
  "blank w \<longleftrightarrow> list_all is_ws w"

lemma blank_chars [simp]: "blank []" "blank '' ''" "blank (CHR 0x0A # replicate n (CHR 0x20))"
  by (simp_all add: blank_def is_ws_def list_all_iff)

lemma skip_ws_blank: "blank w \<Longrightarrow> skip_ws (w @ s) = skip_ws s"
  by (simp add: skip_ws_def blank_def list_all_iff)

lemma stops_blank: "blank w \<Longrightarrow> stops s \<Longrightarrow> stops (w @ s)"
  by (cases w) (auto simp: stops_def blank_def ws_not_num)

lemma parse_value_blank: "blank w \<Longrightarrow> parse_value n (w @ s) = parse_value n s"
  by (cases n) (simp_all add: skip_ws_blank)

lemma parse_elems_blank: "blank w \<Longrightarrow> parse_elems n (w @ s) = parse_elems n s"
  by (cases n) (simp_all add: parse_value_blank)

lemma parse_fields_blank: "blank w \<Longrightarrow> parse_fields n (w @ s) = parse_fields n s"
  by (cases n) (simp_all add: skip_ws_blank)

lemmas blank_rules = skip_ws_blank parse_value_blank parse_elems_blank parse_fields_blank

definition parses :: "(nat \<Rightarrow> string) \<Rightarrow> string \<Rightarrow> json \<Rightarrow> bool" where
  "parses nl co v \<longleftrightarrow>
     (\<forall>d n r. parse_fuel v \<le> n \<longrightarrow> stops r \<longrightarrow> parse_value n (print_json nl co d v @ r) = Some (v, r))"

lemma parsesD:
  "parses nl co v \<Longrightarrow> parse_fuel v \<le> n \<Longrightarrow> stops r \<Longrightarrow> parse_value n (print_json nl co d v @ r) = Some (v, r)"
  by (simp add: parses_def)

lemma opening_print_json: "printable v \<Longrightarrow> opens_value (print_json nl co d v)"
  by (cases v) (auto simp: opening_Itoa, auto simp: opens_value_def is_ws_def print_string_def bracketed_def)

lemma parse_elems_print:
  assumes "\<And>v. v \<in> set vs \<Longrightarrow> parses nl co v" and "vs \<noteq> []" and "blank w" and "blank w'"
    and "sum_list (map (\<lambda>v. Suc (parse_fuel v)) vs) \<le> n"
  shows "parse_elems n (join_with (CHR '','' # w) (map (print_json nl co d) vs) @ w' @ CHR '']'' # r) = Some (vs, r)"
  using assms
proof (induction vs arbitrary: n)
  case (Cons v vs)
  then obtain m where m: "n = Suc m" "parse_fuel v \<le> m"
    "sum_list (map (\<lambda>v. Suc (parse_fuel v)) vs) \<le> m"
    by (cases n) auto
  have v: "parses nl co v" using Cons.prems by simp
  show ?case
  proof (cases vs)
    case Nil
    then show ?thesis
      using parsesD [OF v m(2) stops_blank [OF assms(4)], of "CHR '']'' # r"] m Cons.prems(4)
      by (simp add: blank_rules skip_ws_char starts_def)
  next
    case (Cons u us)
    let ?rest = "join_with (CHR '','' # w) (map (print_json nl co d) vs) @ w' @ CHR '']'' # r"
    have "parse_elems m ?rest = Some (vs, r)"
      using Cons.IH [of m] Cons.prems m Cons by simp
    then show ?thesis
      using Cons parsesD [OF v m(2), of "CHR '','' # w @ ?rest"] m assms(3)
      by (simp add: blank_rules skip_ws_char starts_def)
  qed
qed simp

lemma parse_fields_print:
  assumes "\<And>f. f \<in> set fs \<Longrightarrow> parses nl co (snd f) \<and> valid_utf8 (fst f)" and "fs \<noteq> []"
    and "blank w" and "blank w'" and "blank co"
    and "sum_list (map (\<lambda>f. Suc (parse_fuel (snd f))) fs) \<le> n"
  shows "parse_fields n (join_with (CHR '','' # w)
      (map (\<lambda>f. print_string (fst f) @ CHR '':'' # co @ print_json nl co d (snd f)) fs) @ w' @ CHR ''}'' # r)
     = Some (fs, r)"
  using assms
proof (induction fs arbitrary: n)
  case (Cons f fs)
  obtain k v where f: "f = (k, v)" by (cases f)
  obtain m where m: "n = Suc m" "parse_fuel v \<le> m"
    "sum_list (map (\<lambda>f. Suc (parse_fuel (snd f))) fs) \<le> m"
    using Cons.prems f by (cases n) auto
  have v: "parses nl co v" "valid_utf8 k" using Cons.prems(1) [of f] f by simp_all
  let ?pf = "\<lambda>f. print_string (fst f) @ CHR '':'' # co @ print_json nl co d (snd f)"
  have str: "parse_chars (tl (print_string k @ q)) = Some (k, q)" for q
    by (simp add: print_string_def parse_print_string v(2))
  have sk: "skip_ws (print_string k @ q) = print_string k @ q" "hd (print_string k @ q) = CHR 0x22"
    "print_string k @ q \<noteq> []" for q
    by (simp_all add: print_string_def skip_ws_char)
  show ?case
  proof (cases fs)
    case Nil
    then show ?thesis
      using parsesD [OF v(1) m(2) stops_blank [OF assms(4)], of "CHR ''}'' # r"] m f assms(4,5)
      by (simp add: blank_rules skip_ws_char starts_def str sk)
  next
    case (Cons g gs)
    let ?rest = "join_with (CHR '','' # w) (map ?pf fs) @ w' @ CHR ''}'' # r"
    have "parse_fields m ?rest = Some (fs, r)"
      using Cons.IH [of m] Cons.prems m Cons by simp
    then show ?thesis
      using Cons parsesD [OF v(1) m(2), of "CHR '','' # w @ ?rest"] m f assms(3,5)
      by (simp add: blank_rules skip_ws_char starts_def str sk)
  qed
qed simp

lemma opening_join: "opens_value s \<Longrightarrow> opens_value (join_with sep (s # ss))"
  by (cases ss) (auto simp: opens_value_def)

lemma opening_not_starts: "opens_value s \<Longrightarrow> \<not> starts (CHR '']'') (s @ r) \<and> \<not> starts (CHR ''}'') (s @ r)"
  by (auto simp: opens_value_def starts_def)

lemma parses_JArr:
  assumes "\<And>v. v \<in> set vs \<Longrightarrow> parses nl co v" "list_all printable vs" "\<And>d. blank (nl d)"
  shows "parses nl co (JArr vs)"
  unfolding parses_def
proof (intro allI impI)
  fix d n r assume n: "parse_fuel (JArr vs) \<le> n" and "stops r"
  then obtain m where m: "n = Suc m" "sum_list (map (\<lambda>v. Suc (parse_fuel v)) vs) \<le> m"
    by (cases n) auto
  let ?xs = "join_with (CHR '','' # nl (Suc d)) (map (print_json nl co (Suc d)) vs)"
  show "parse_value n (print_json nl co d (JArr vs) @ r) = Some (JArr vs, r)"
  proof (cases vs)
    case Nil
    then show ?thesis using m by (simp add: skip_ws_char starts_def bracketed_def)
  next
    case (Cons v ws)
    then have op: "opens_value ?xs" using assms(2) opening_join [OF opening_print_json] by simp
    have "parse_elems m (?xs @ nl d @ CHR '']'' # r) = Some (vs, r)"
      by (rule parse_elems_print) (use assms m Cons in auto)
    moreover have "print_json nl co d (JArr vs) @ r = CHR ''['' # nl (Suc d) @ ?xs @ nl d @ CHR '']'' # r"
      using Cons by (simp add: bracketed_def)
    ultimately show ?thesis
      using m opening_not_starts [OF op]
      by (simp add: skip_ws_char skip_ws_opening [OF op] blank_rules [OF assms(3)])
  qed
qed

lemma parses_JObj:
  assumes "\<And>f. f \<in> set fs \<Longrightarrow> parses nl co (snd f) \<and> valid_utf8 (fst f)" "\<And>d. blank (nl d)" "blank co"
  shows "parses nl co (JObj fs)"
  unfolding parses_def
proof (intro allI impI)
  fix d n r assume n: "parse_fuel (JObj fs) \<le> n" and "stops r"
  then obtain m where m: "n = Suc m" "sum_list (map (\<lambda>f. Suc (parse_fuel (snd f))) fs) \<le> m"
    by (cases n) auto
  let ?pf = "\<lambda>f. print_string (fst f) @ CHR '':'' # co @ print_json nl co (Suc d) (snd f)"
  let ?xs = "join_with (CHR '','' # nl (Suc d)) (map ?pf fs)"
  show "parse_value n (print_json nl co d (JObj fs) @ r) = Some (JObj fs, r)"
  proof (cases fs)
    case Nil
    then show ?thesis using m by (simp add: skip_ws_char starts_def bracketed_def)
  next
    case (Cons f gs)
    have "opens_value (?pf f)" by (simp add: opens_value_def print_string_def)
    then have op: "opens_value ?xs" using opening_join Cons by simp
    have "parse_fields m (?xs @ nl d @ CHR ''}'' # r) = Some (fs, r)"
      by (rule parse_fields_print) (use assms m Cons in auto)
    moreover have "print_json nl co d (JObj fs) @ r = CHR ''{'' # nl (Suc d) @ ?xs @ nl d @ CHR ''}'' # r"
      using Cons by (simp add: bracketed_def)
    ultimately show ?thesis
      using m opening_not_starts [OF op]
      by (simp add: skip_ws_char skip_ws_opening [OF op] blank_rules [OF assms(2)])
  qed
qed

lemma parses_scalar:
  "parses nl co JNull" "parses nl co (JBool b)" "valid_utf8 s \<Longrightarrow> parses nl co (JStr s)" "parses nl co (JInt i)"
proof -
  show "parses nl co JNull" "parses nl co (JBool b)"
    by (auto simp: parses_def Suc_le_eq gr0_conv_Suc skip_ws_char parse_lit_def HasPrefix_def)
  show "valid_utf8 s \<Longrightarrow> parses nl co (JStr s)"
    by (auto simp: parses_def Suc_le_eq gr0_conv_Suc skip_ws_char print_string_def parse_print_string)
  show "parses nl co (JInt i)"
    unfolding parses_def
  proof (intro allI impI)
    fix d n r assume "parse_fuel (JInt i) \<le> n" and r: "stops r"
    then obtain m where m: "n = Suc m" by (cases n) auto
    have h: "hd (Itoa i @ r) \<notin> {CHR ''n'', CHR ''t'', CHR ''f'', CHR 0x22, CHR ''['', CHR ''{''}"
      using Itoa_hd [of i] by (auto simp: is_digit_def)
    show "parse_value n (print_json nl co d (JInt i) @ r) = Some (JInt i, r)"
      using m h Itoa_hd [of i] by (simp add: skip_ws_opening [OF opening_Itoa] parse_number_Itoa [OF r])
  qed
qed

lemma printable_parses:
  assumes "\<And>d. blank (nl d)" "blank co"
  shows "printable v \<Longrightarrow> parses nl co v"
proof (induction v)
  case (JArr vs)
  then show ?case by (intro parses_JArr assms) (auto simp: list_all_iff)
next
  case (JObj fs)
  then show ?case by (intro parses_JObj assms) (auto simp: list_all_iff elim!: snds.cases)
qed (auto simp: parses_scalar)

lemma length_join_with:
  "sum_list (map (\<lambda>x. Suc (length x)) xs) \<le> Suc (length (join_with (CHR '','' # w) xs))"
  by (induction "CHR '','' # w" xs rule: join_with.induct) auto

lemma length_bracketed: "sum_list (map (\<lambda>x. Suc (length x)) xs) < length (bracketed nl d lb rb xs)"
  using length_join_with [of xs "nl (Suc d)"] by (auto simp: bracketed_def)

lemma parse_fuel_length: "printable v \<Longrightarrow> parse_fuel v \<le> length (print_json nl co d v)"
proof (induction v arbitrary: d)
  case (JArr vs)
  have "sum_list (map (\<lambda>v. Suc (parse_fuel v)) vs) \<le> sum_list (map (\<lambda>v. Suc (length (print_json nl co (Suc d) v))) vs)"
    using JArr by (intro sum_list_mono) (auto simp: list_all_iff)
  then show ?case
    using length_bracketed [of "map (print_json nl co (Suc d)) vs" nl d "CHR ''[''" "CHR '']''"]
    by (simp add: comp_def)
next
  case (JObj fs)
  let ?pf = "\<lambda>f. print_string (fst f) @ CHR '':'' # co @ print_json nl co (Suc d) (snd f)"
  have "parse_fuel (snd f) \<le> length (?pf f)" if "f \<in> set fs" for f
  proof -
    have "parse_fuel (snd f) \<le> length (print_json nl co (Suc d) (snd f))"
      using JObj that by (intro JObj.IH [of f]) (auto simp: list_all_iff snds.simps)
    then show ?thesis by simp
  qed
  then have "sum_list (map (\<lambda>f. Suc (parse_fuel (snd f))) fs) \<le> sum_list (map (\<lambda>f. Suc (length (?pf f))) fs)"
    by (intro sum_list_mono) auto
  then show ?case
    using length_bracketed [of "map ?pf fs" nl d "CHR ''{''" "CHR ''}''"] by (simp add: comp_def)
qed (use Itoa_hd in \<open>auto simp: print_string_def Suc_le_eq\<close>)

lemma Unmarshal_printed:
  assumes "\<And>d. blank (nl d)" "blank co" "printable v" "blank w"
  shows "Unmarshal (bytes_of (print_json nl co 0 v @ w)) = Some v"
proof -
  have "parse_fuel v \<le> Suc (length (print_json nl co 0 v @ w))"
    using parse_fuel_length [OF assms(3), of nl co 0] by simp
  from parsesD [OF printable_parses [OF assms(1-3)] this stops_blank [OF assms(4), of "[]"], where d = 0]
  show ?thesis using skip_ws_blank [OF assms(4), of "[]"] by (simp add: Unmarshal_def skip_ws_def)
qed

lemma Unmarshal_Marshal: "printable v \<Longrightarrow> Unmarshal (Marshal v) = Some v"
  using Unmarshal_printed [of "\<lambda>_. []" "[]" v "[]"] by (simp add: Marshal_def)

text \<open>Printed text is at most six times as long as its source.\<close>

lemma length_escape_string: "length (escape_string s) \<le> 6 * length s"
proof (induction s rule: escape_string.induct)
  case (2 c cs)
  have "length (escape_char c) \<le> 6" by (simp add: escape_char_def Let_def)
  moreover have "length (take (rune_len (c # cs)) (c # cs)) = rune_len (c # cs)"
    using rune_len_bound(1) [of "c # cs"] by simp
  moreover have "rune_len (c # cs) - 1 \<le> length cs" using rune_len_bound(1) [of "c # cs"] by simp
  ultimately show ?case using 2 by (fastforce simp: Let_def)
qed simp

lemma length_print_string: "length (print_string s) \<le> 6 * length s + 2"
  using length_escape_string [of s] by (simp add: print_string_def)

text \<open>Files are written with a line break after the indented object.\<close>

lemma Unmarshal_MarshalIndent: "printable v \<Longrightarrow> Unmarshal (MarshalIndent v @ [10]) = Some v"
  using Unmarshal_printed [of "\<lambda>d. CHR 0x0A # replicate (2 * d) (CHR 0x20)" "'' ''" v "[CHR 0x0A]"]
    blank_chars(3) [of 0]
  by (simp add: MarshalIndent_def bytes_of_def)

end
