(* ===== verification/Codec.thy ===== *)
theory Codec
  imports Json
begin

text \<open>
  How struct values meet JSON text: \<open>encoding/base64\<close> (byte slices travel as base64 strings) and
  the rules by which \<open>json.Unmarshal\<close> fills a struct field (names compared without regard to
  case, a later duplicate wins, \<open>null\<close> leaves the field alone, a value of the wrong kind or out
  of range is an error).
\<close>

section \<open>Package encoding/base64\<close>

definition b64_char :: "nat \<Rightarrow> char" where
  "b64_char n =
     (if n < 26 then char_of (65 + n)
      else if n < 52 then char_of (71 + n)
      else if n < 62 then char_of (n - 4)
      else if n = 62 then CHR ''+'' else CHR ''/'')"

definition b64_val :: "char \<Rightarrow> nat option" where
  "b64_val c =
     (let n = (of_char c :: nat) in
      if 65 \<le> n \<and> n \<le> 90 then Some (n - 65)
      else if 97 \<le> n \<and> n \<le> 122 then Some (n - 71)
      else if 48 \<le> n \<and> n \<le> 57 then Some (n + 4)
      else if n = 43 then Some 62
      else if n = 47 then Some 63
      else None)"

text \<open>\<open>pad\<close> distinguishes \<open>StdEncoding\<close> (JSON byte slices) from \<open>RawStdEncoding\<close> (the verifier file).\<close>

fun b64_encode :: "bool \<Rightarrow> bytes \<Rightarrow> string" where
  "b64_encode pad [] = []"
| "b64_encode pad [a] =
     [b64_char (unat a div 4), b64_char (unat a mod 4 * 16)] @ (if pad then ''=='' else [])"
| "b64_encode pad [a, b] =
     [b64_char (unat a div 4), b64_char (unat a mod 4 * 16 + unat b div 16), b64_char (unat b mod 16 * 4)]
     @ (if pad then ''='' else [])"
| "b64_encode pad (a # b # c # r) =
     b64_char (unat a div 4) # b64_char (unat a mod 4 * 16 + unat b div 16)
     # b64_char (unat b mod 16 * 4 + unat c div 64) # b64_char (unat c mod 64) # b64_encode pad r"

definition b64_two :: "char \<Rightarrow> char \<Rightarrow> bytes option" where
  "b64_two p q =
     (case (b64_val p, b64_val q) of
        (Some x, Some y) \<Rightarrow> Some [of_nat (x * 4 + y div 16)]
      | _ \<Rightarrow> None)"

definition b64_three :: "char \<Rightarrow> char \<Rightarrow> char \<Rightarrow> bytes option" where
  "b64_three p q s =
     (case (b64_val p, b64_val q, b64_val s) of
        (Some x, Some y, Some z) \<Rightarrow> Some [of_nat (x * 4 + y div 16), of_nat (y mod 16 * 16 + z div 4)]
      | _ \<Rightarrow> None)"

definition b64_four :: "char \<Rightarrow> char \<Rightarrow> char \<Rightarrow> char \<Rightarrow> bytes option" where
  "b64_four p q s t =
     (case (b64_val p, b64_val q, b64_val s, b64_val t) of
        (Some x, Some y, Some z, Some w) \<Rightarrow>
          Some [of_nat (x * 4 + y div 16), of_nat (y mod 16 * 16 + z div 4), of_nat (z mod 4 * 64 + w)]
      | _ \<Rightarrow> None)"

fun b64_decode_quanta :: "bool \<Rightarrow> string \<Rightarrow> bytes option" where
  "b64_decode_quanta pad [] = Some []"
| "b64_decode_quanta pad [p] = None"
| "b64_decode_quanta pad [p, q] = (if pad then None else b64_two p q)"
| "b64_decode_quanta pad [p, q, s] = (if pad then None else b64_three p q s)"
| "b64_decode_quanta pad (p # q # s # t # r) =
     (if pad \<and> t = CHR ''='' then
        (if r \<noteq> [] then None else if s = CHR ''='' then b64_two p q else b64_three p q s)
      else
        (case b64_four p q s t of
           None \<Rightarrow> None
         | Some bs \<Rightarrow> map_option (\<lambda>x. bs @ x) (b64_decode_quanta pad r)))"

text \<open>\<open>DecodeString\<close> skips line breaks anywhere in the text.\<close>

definition b64_decode :: "bool \<Rightarrow> string \<Rightarrow> bytes option" where
  "b64_decode pad s = b64_decode_quanta pad (filter (\<lambda>c. c \<noteq> CHR 0x0A \<and> c \<noteq> CHR 0x0D) s)"

lemma b64_char_cases: "(n::nat) < 64 \<Longrightarrow> n \<in> {0..<26} \<or> n \<in> {26..<52} \<or> n \<in> {52..<62} \<or> n = 62 \<or> n = 63"
  by auto

lemma b64_val_char: "n < 64 \<Longrightarrow> b64_val (b64_char n) = Some n"
  using b64_char_cases [of n] by (auto simp: b64_val_def b64_char_def Let_def)

lemma b64_char_plain: "n < 64 \<Longrightarrow> b64_char n \<noteq> CHR ''='' \<and> b64_char n \<noteq> CHR 0x0A \<and> b64_char n \<noteq> CHR 0x0D"
  using b64_val_char [of n] by (auto simp: b64_val_def)

lemma byte_lt: "unat (w :: byte) < 256"
  using unsigned_less [of w] by simp

lemma of_nat_unat_byte: "of_nat (unat w) = (w :: byte)"
  by simp

lemma b64_bounds:
  "unat (a :: byte) div 4 < 64" "unat (a :: byte) mod 4 * 16 + unat (b :: byte) div 16 < 64"
  "unat (b :: byte) mod 16 * 4 + unat (c :: byte) div 64 < 64" "unat (c :: byte) mod 64 < 64"
  "unat (a :: byte) mod 4 * 16 < 64" "unat (b :: byte) mod 16 * 4 < 64"
  using byte_lt [of a] byte_lt [of b] byte_lt [of c] by auto

lemmas b64_facts = b64_bounds b64_val_char b64_char_plain

lemma sextet_join: "q < k \<Longrightarrow> (m * k + q) div k = m" "q < k \<Longrightarrow> (m * k + q) mod k = (q :: nat)"
  by simp_all

lemma b64_regroup:
  fixes x y z :: nat
  assumes "y < 256" "z < 256"
  shows "x div 4 * 4 + (x mod 4 * 16 + y div 16) div 16 = x"
    "(x mod 4 * 16 + y div 16) mod 16 * 16 + (y mod 16 * 4 + z div 64) div 4 = y"
    "(y mod 16 * 4 + z div 64) mod 4 * 64 + z mod 64 = z"
proof -
  have y: "y div 16 < 16" and z: "z div 64 < 4" using assms by simp_all
  show "x div 4 * 4 + (x mod 4 * 16 + y div 16) div 16 = x"
    unfolding sextet_join(1) [OF y] by simp
  show "(x mod 4 * 16 + y div 16) mod 16 * 16 + (y mod 16 * 4 + z div 64) div 4 = y"
    unfolding sextet_join(2) [OF y] sextet_join(1) [OF z] by simp
  show "(y mod 16 * 4 + z div 64) mod 4 * 64 + z mod 64 = z"
    unfolding sextet_join(2) [OF z] by simp
qed

lemmas b64_regroup_bytes = b64_regroup [OF byte_lt byte_lt]

lemma b64_four_encode:
  "b64_four (b64_char (unat a div 4)) (b64_char (unat a mod 4 * 16 + unat b div 16))
     (b64_char (unat b mod 16 * 4 + unat c div 64)) (b64_char (unat c mod 64)) = Some [a, b, c]"
  unfolding b64_four_def b64_val_char [OF b64_bounds(1)] b64_val_char [OF b64_bounds(2)]
    b64_val_char [OF b64_bounds(3)] b64_val_char [OF b64_bounds(4)]
  by (simp only: b64_regroup_bytes prod.case option.case of_nat_unat_byte)

lemma b64_three_encode:
  "b64_three (b64_char (unat a div 4)) (b64_char (unat a mod 4 * 16 + unat b div 16)) (b64_char (unat b mod 16 * 4))
   = Some [a, b]"
  using b64_regroup_bytes(2) [of "unat a" b 0]
  unfolding b64_three_def b64_val_char [OF b64_bounds(1)] b64_val_char [OF b64_bounds(2)]
    b64_val_char [OF b64_bounds(6)]
  by (simp only: b64_regroup_bytes prod.case option.case of_nat_unat_byte unsigned_0 div_0 add_0_right)

lemma b64_two_encode: "b64_two (b64_char (unat a div 4)) (b64_char (unat a mod 4 * 16)) = Some [a]"
  using b64_regroup_bytes(1) [of "unat a" 0]
  unfolding b64_two_def b64_val_char [OF b64_bounds(1)] b64_val_char [OF b64_bounds(5)]
  by (simp only: prod.case option.case of_nat_unat_byte unsigned_0 div_0 add_0_right)

lemma b64_quanta_encode: "b64_decode_quanta pad (b64_encode pad bs) = Some bs"
  by (induction pad bs rule: b64_encode.induct)
     (simp_all add: b64_two_encode b64_three_encode b64_four_encode b64_facts)

lemma b64_encode_no_breaks: "filter (\<lambda>c. c \<noteq> CHR 0x0A \<and> c \<noteq> CHR 0x0D) (b64_encode pad bs) = b64_encode pad bs"
  by (induction pad bs rule: b64_encode.induct) (simp_all add: b64_facts)

lemma b64_decode_encode [simp]: "b64_decode pad (b64_encode pad bs) = Some bs"
  by (simp add: b64_decode_def b64_encode_no_breaks b64_quanta_encode)

lemma length_b64: "length (b64_encode pad bs) \<le> 4 * (length bs + 1)"
  by (induction pad bs rule: b64_encode.induct) simp_all

section \<open>Struct fields\<close>

definition jstruct :: "json \<Rightarrow> (string \<times> json) list option" where
  "jstruct v = (case v of JObj fs \<Rightarrow> Some fs | JNull \<Rightarrow> Some [] | _ \<Rightarrow> None)"

fun jfield :: "(json \<Rightarrow> 'a option) \<Rightarrow> string \<Rightarrow> 'a option \<Rightarrow> (string \<times> json) list \<Rightarrow> 'a option" where
  "jfield conv name acc [] = acc"
| "jfield conv name acc ((k, v) # fs) =
     jfield conv name
       (if EqualFold k name \<and> v \<noteq> JNull then (case acc of None \<Rightarrow> None | Some _ \<Rightarrow> conv v) else acc) fs"

definition j_string :: "json \<Rightarrow> string option" where
  "j_string v = (case v of JStr s \<Rightarrow> Some s | _ \<Rightarrow> None)"

definition j_bool :: "json \<Rightarrow> bool option" where
  "j_bool v = (case v of JBool b \<Rightarrow> Some b | _ \<Rightarrow> None)"

definition j_int :: "json \<Rightarrow> int option" where
  "j_int v = (case v of JInt i \<Rightarrow> if int64 i then Some i else None | _ \<Rightarrow> None)"

definition j_word :: "json \<Rightarrow> 'a::len word option" where
  "j_word v = (case v of JInt i \<Rightarrow> if 0 \<le> i \<and> i < 2 ^ LENGTH('a) then Some (word_of_int i) else None | _ \<Rightarrow> None)"

fun j_all :: "(json \<Rightarrow> 'a option) \<Rightarrow> json list \<Rightarrow> 'a list option" where
  "j_all conv [] = Some []"
| "j_all conv (v # vs) =
     (case conv v of None \<Rightarrow> None | Some x \<Rightarrow> map_option (\<lambda>xs. x # xs) (j_all conv vs))"

definition j_list :: "(json \<Rightarrow> 'a option) \<Rightarrow> json \<Rightarrow> 'a list option" where
  "j_list conv v = (case v of JArr vs \<Rightarrow> j_all conv vs | _ \<Rightarrow> None)"

definition j_bytes :: "json \<Rightarrow> bytes option" where
  "j_bytes v = (case v of JStr s \<Rightarrow> b64_decode True s | JArr vs \<Rightarrow> j_all j_word vs | _ \<Rightarrow> None)"

definition bytes_j :: "bytes \<Rightarrow> json" where
  "bytes_j b = JStr (b64_encode True b)"

definition word_j :: "'a::len word \<Rightarrow> json" where
  "word_j w = JInt (uint w)"

definition strings_j :: "string list \<Rightarrow> json" where
  "strings_j xs = JArr (map JStr xs)"

text \<open>A field tagged \<open>omitempty\<close> is left out when it holds its zero value.\<close>

definition omit_if :: "bool \<Rightarrow> string \<Rightarrow> json \<Rightarrow> (string \<times> json) list" where
  "omit_if b k v = (if b then [] else [(k, v)])"

lemma j_conv [simp]:
  "j_string (JStr s) = Some s" "j_bool (JBool b) = Some b" "int64 i \<Longrightarrow> j_int (JInt i) = Some i"
  "j_bytes (bytes_j bs) = Some bs"
  by (simp_all add: j_string_def j_bool_def j_int_def j_bytes_def bytes_j_def)

lemma j_word_word [simp]: "j_word (word_j w) = Some w"
  by (simp add: j_word_def word_j_def)

lemma j_all_map: "(\<And>x. x \<in> set xs \<Longrightarrow> conv (f x) = Some x) \<Longrightarrow> j_all conv (map f xs) = Some xs"
  by (induction xs) auto

lemma j_list_strings [simp]: "j_list j_string (strings_j xs) = Some xs"
  by (simp add: j_list_def strings_j_def j_all_map)

lemma not_null [simp]: "bytes_j b \<noteq> JNull" "word_j w \<noteq> JNull" "strings_j xs \<noteq> JNull"
  by (simp_all add: bytes_j_def word_j_def strings_j_def)

lemma b64_char_ascii: "(of_char (b64_char n) :: nat) < 128"
  by (auto simp: b64_char_def)

lemma b64_encode_ascii: "list_all (\<lambda>c. (of_char c :: nat) < 128) (b64_encode pad bs)"
  by (induction pad bs rule: b64_encode.induct) (auto simp: b64_char_ascii)

lemma valid_b64 [simp]: "valid_utf8 (b64_encode pad bs)"
  by (rule valid_utf8_ascii) (rule b64_encode_ascii)

lemma printable_conv [simp]:
  "printable (bytes_j b)" "printable (word_j w)" "printable (strings_j xs) = list_all valid_utf8 xs"
  by (simp_all add: bytes_j_def word_j_def strings_j_def list_all_iff)

lemma EqualFold_refl [simp]: "EqualFold s s"
  by (simp add: EqualFold_def)

lemma length_word_u32: "length (Itoa (uint (w :: u32))) \<le> 10"
proof -
  have "unat w < 2 ^ 32" using unsigned_less [of w] by simp
  then have "unat w < 10 ^ Suc 9" by simp
  from length_show_nat [OF this] show ?thesis by (simp add: Itoa_def flip: unat_eq_nat_uint)
qed

lemma length_word_u8: "length (Itoa (uint (w :: byte))) \<le> 3"
proof -
  have "unat w < 10 ^ Suc 2" using byte_lt [of w] by simp
  from length_show_nat [OF this] show ?thesis by (simp add: Itoa_def flip: unat_eq_nat_uint)
qed

text \<open>Fields that may be left out, one at a time.\<close>

lemma jfield_append: "jfield conv k acc (xs @ ys) = jfield conv k (jfield conv k acc xs) ys"
  by (induction conv k acc xs rule: jfield.induct) simp_all

lemma jfield_other: "\<not> EqualFold k' k \<Longrightarrow> jfield conv k acc (omit_if b k' v) = acc"
  by (simp add: omit_if_def)

lemma jfield_omit:
  "v \<noteq> JNull \<Longrightarrow> conv v = Some x \<Longrightarrow> (b \<Longrightarrow> x = d) \<Longrightarrow> jfield conv k (Some d) (omit_if b k v) = Some x"
  by (simp add: omit_if_def)

lemmas jfield_rules = jfield_append jfield_other jfield_omit

lemmas fold_names = EqualFold_def ToLower_def lower_char_def

end
