(* ===== verification/BigEndian.thy ===== *)
theory BigEndian
  imports Prelude
begin

text \<open>
  \<open>encoding/binary\<close> in big-endian order, as the frame header (\<open>src/internal/protocol/frame.go\<close>), the
  SOCKS requests and the SHA-256 padding use it.
\<close>

unbundle bit_operations_syntax

text \<open>\<open>binary.BigEndian\<close>: the most significant byte first.\<close>

fun PutUint :: "nat \<Rightarrow> 'a::len word \<Rightarrow> bytes" where
  "PutUint 0 v = []"
| "PutUint (Suc n) v = ucast (drop_bit (8 * n) v) # PutUint n v"

fun Uint :: "bytes \<Rightarrow> 'a::len word" where
  "Uint [] = 0"
| "Uint (b # bs) = push_bit (8 * length bs) (ucast b) OR Uint bs"

lemma length_PutUint [simp]: "length (PutUint n v) = n"
  by (induction n) auto

lemma bit_Uint_PutUint:
  "bit (Uint (PutUint n v) :: 'a::len word) i \<longleftrightarrow> i < 8 * n \<and> bit (v :: 'a word) i"
proof (induction n)
  case (Suc n)
  then show ?case
    by (auto simp: bit_or_iff bit_push_bit_iff bit_ucast_iff bit_drop_bit_eq dest: bit_imp_le_length)
qed simp

lemma Uint_PutUint: "LENGTH('a) \<le> 8 * n \<Longrightarrow> Uint (PutUint n v) = (v :: 'a::len word)"
  by (rule bit_word_eqI) (auto simp: bit_Uint_PutUint)

lemma bit_Uint_high: "8 * length bs \<le> i \<Longrightarrow> \<not> bit (Uint bs :: 'a::len word) i"
proof (induction bs)
  case (Cons b bs)
  then show ?case
    by (auto simp: bit_or_iff bit_push_bit_iff bit_ucast_iff dest: bit_imp_le_length)
qed simp

lemma PutUint_OR_high:
  "8 * n \<le> k \<Longrightarrow> PutUint n (push_bit k x OR y :: 'a::len word) = PutUint n y"
proof (induction n)
  case (Suc n)
  have "(ucast (drop_bit (8 * n) (push_bit k x OR y)) :: byte) = ucast (drop_bit (8 * n) y)"
    using Suc.prems by (intro bit_word_eqI) (auto simp: bit_ucast_iff bit_drop_bit_eq bit_or_iff bit_push_bit_iff)
  with Suc show ?case by simp
qed simp

lemma PutUint_Uint: "8 * length bs \<le> LENGTH('a) \<Longrightarrow> PutUint (length bs) (Uint bs :: 'a::len word) = bs"
proof (induction bs)
  case (Cons b bs)
  have "(ucast (drop_bit (8 * length bs) (push_bit (8 * length bs) (ucast b) OR Uint bs :: 'a word)) :: byte) = b"
    using Cons.prems
    by (intro bit_word_eqI)
       (auto simp: bit_ucast_iff bit_drop_bit_eq bit_or_iff bit_push_bit_iff bit_Uint_high)
  with Cons show ?case by (simp add: PutUint_OR_high)
qed simp

end
