(* ===== verification/Frame.thy ===== *)
theory Frame
  imports Codec BigEndian
begin

unbundle bit_operations_syntax

text \<open>
  \<open>src/internal/protocol\<close>: the frame format (\<open>ReadFrame\<close>, \<open>WriteFrame\<close>, \<open>Writer\<close>), the
  messages that travel as JSON payloads with their field tags, and \<open>DecodeOpen\<close>. The codec is
  an instance of the interface \<open>framing\<close>, from which follow that frames written one after the
  other are read back in order and that no frame's bytes begin another frame.
\<close>

section \<open>Constants and data\<close>

definition Version :: int where "Version = 2"
definition MaxFrameSize :: nat where "MaxFrameSize = 2 ^ 20"
definition MaxDataSize :: nat where "MaxDataSize = 64 * 2 ^ 10"
definition headerSize :: nat where "headerSize = 13"
definition ProtocolTCP :: string where "ProtocolTCP = ''tcp''"
definition ProtocolQUIC :: string where "ProtocolQUIC = ''quic''"
definition ProtocolTLS :: string where "ProtocolTLS = ''tls''"
definition ALPN :: string where "ALPN = ''lnproxy/2''"

text \<open>\<open>FrameType\<close> is a byte: a peer may send values that are none of the constants.\<close>

type_synonym FrameType = byte

definition FrameChallenge :: FrameType where "FrameChallenge = 1"
definition FrameAuthResponse :: FrameType where "FrameAuthResponse = 2"
definition FrameAuthResult :: FrameType where "FrameAuthResult = 3"
definition FrameRegister :: FrameType where "FrameRegister = 4"
definition FrameHeartbeat :: FrameType where "FrameHeartbeat = 5"
definition FrameCatalog :: FrameType where "FrameCatalog = 6"
definition FrameOpen :: FrameType where "FrameOpen = 7"
definition FrameOpenAck :: FrameType where "FrameOpenAck = 8"
definition FrameData :: FrameType where "FrameData = 9"
definition FrameClose :: FrameType where "FrameClose = 10"
definition FrameError :: FrameType where "FrameError = 11"
definition FrameStreamReady :: FrameType where "FrameStreamReady = 12"

lemmas frame_types = FrameChallenge_def FrameAuthResponse_def FrameAuthResult_def FrameRegister_def
  FrameHeartbeat_def FrameCatalog_def FrameOpen_def FrameOpenAck_def FrameData_def FrameClose_def
  FrameError_def FrameStreamReady_def

record Frame =
  Type :: FrameType
  ID :: u64
  Payload :: bytes

record OpenRequest =
  or_RequestID :: u64
  or_ExitID :: string
  or_Destination :: string
  or_Port :: u16
  or_Protocol :: string
  or_ClientSelected :: bool

record Ack =
  ack_OK :: bool
  ack_Error :: string
  ack_ExitID :: string
  ack_Message :: string

record AuthResponse =
  resp_Version :: int
  resp_Role :: string
  resp_Response :: bytes
  resp_SessionID :: string

record AuthResult =
  res_OK :: bool
  res_Error :: string
  res_Version :: int

record ExitRegistration =
  xr_ID :: string
  xr_Name :: string
  xr_Capacity :: int
  xr_Features :: "string list"

record Heartbeat =
  hb_ExitID :: string
  hb_Active :: int
  hb_Capacity :: int
  hb_TimestampMS :: int

record ErrorMessage =
  em_Message :: string

record ExitInfo =
  ei_ID :: string
  ei_Name :: string
  ei_Type :: string
  ei_Health :: string
  ei_LatencyMS :: int
  ei_ActiveConnections :: int
  ei_Capacity :: int
  ei_Features :: "string list"
  ei_HeartbeatTime :: int

section \<open>Reading and writing frames\<close>

definition size_error :: "nat \<Rightarrow> error" where
  "size_error n = Msg (''frame size '' @ show_nat n @ '' exceeds limit'')"

definition ReadFrame :: "conn \<Rightarrow> Frame res \<times> conn" where
  "ReadFrame c =
     (case ReadFull headerSize c of
        (Inl e, c1) \<Rightarrow> (Inl e, c1)
      | (Inr header, c1) \<Rightarrow>
          let size = (Uint (take 4 (drop 9 header)) :: u32) in
          if unat size > MaxFrameSize then (Inl (size_error (unat size)), c1)
          else
            (case ReadFull (unat size) c1 of
               (Inl e, c2) \<Rightarrow> (Inl e, c2)
             | (Inr payload, c2) \<Rightarrow>
                 (Inr \<lparr>Type = hd header, ID = Uint (take 8 (drop 1 header)), Payload = payload\<rparr>, c2)))"

definition frame_header :: "Frame \<Rightarrow> bytes" where
  "frame_header f = Type f # PutUint 8 (ID f) @ PutUint 4 (of_nat (length (Payload f)) :: u32)"

definition WriteFrame :: "Frame \<Rightarrow> conn \<Rightarrow> error option \<times> conn" where
  "WriteFrame f c =
     (if length (Payload f) > MaxFrameSize then (Some (size_error (length (Payload f))), c)
      else
        (case io_Write (frame_header f) c of
           (Some e, c1) \<Rightarrow> (Some e, c1)
         | (None, c1) \<Rightarrow> if length (Payload f) = 0 then (None, c1) else io_Write (Payload f) c1))"

text \<open>
  \<open>Writer.Write\<close> holds the writer's mutex for the whole of \<open>WriteFrame\<close>: concurrent writers
  take effect one after the other, each with its whole frame.
\<close>

definition Writer_Write :: "Frame \<Rightarrow> conn \<Rightarrow> error option \<times> conn" where
  "Writer_Write f c = WriteFrame f c"

text \<open>
  Marshalling these structs cannot fail (they hold strings, numbers, booleans and slices only),
  so the error branch of \<open>WriteJSON\<close> is not taken.
\<close>

definition Writer_WriteJSON :: "FrameType \<Rightarrow> u64 \<Rightarrow> json \<Rightarrow> conn \<Rightarrow> error option \<times> conn" where
  "Writer_WriteJSON t i v c = Writer_Write \<lparr>Type = t, ID = i, Payload = Marshal v\<rparr> c"

section \<open>Messages as JSON\<close>

definition json_error :: error where
  "json_error = Msg ''json''"

definition OpenRequest_json :: "OpenRequest \<Rightarrow> json" where
  "OpenRequest_json r = JObj
     ([(''request_id'', word_j (or_RequestID r))]
      @ omit_if (or_ExitID r = []) ''exit_id'' (JStr (or_ExitID r))
      @ [(''destination_host'', JStr (or_Destination r)), (''destination_port'', word_j (or_Port r)),
         (''protocol'', JStr (or_Protocol r))]
      @ omit_if (\<not> or_ClientSelected r) ''client_selected'' (JBool (or_ClientSelected r)))"

definition json_OpenRequest :: "json \<Rightarrow> OpenRequest option" where
  "json_OpenRequest v =
     (case jstruct v of
        None \<Rightarrow> None
      | Some fs \<Rightarrow>
          (case (jfield j_word ''request_id'' (Some 0) fs, jfield j_string ''exit_id'' (Some []) fs,
                 jfield j_string ''destination_host'' (Some []) fs, jfield j_word ''destination_port'' (Some 0) fs,
                 jfield j_string ''protocol'' (Some []) fs, jfield j_bool ''client_selected'' (Some False) fs) of
             (Some i, Some x, Some d, Some p, Some t, Some s) \<Rightarrow>
               Some \<lparr>or_RequestID = i, or_ExitID = x, or_Destination = d, or_Port = p, or_Protocol = t,
                      or_ClientSelected = s\<rparr>
           | _ \<Rightarrow> None))"

definition Ack_json :: "Ack \<Rightarrow> json" where
  "Ack_json a = JObj
     ([(''ok'', JBool (ack_OK a))]
      @ omit_if (ack_Error a = []) ''error'' (JStr (ack_Error a))
      @ omit_if (ack_ExitID a = []) ''exit_id'' (JStr (ack_ExitID a))
      @ omit_if (ack_Message a = []) ''message'' (JStr (ack_Message a)))"

definition json_Ack :: "json \<Rightarrow> Ack option" where
  "json_Ack v =
     (case jstruct v of
        None \<Rightarrow> None
      | Some fs \<Rightarrow>
          (case (jfield j_bool ''ok'' (Some False) fs, jfield j_string ''error'' (Some []) fs,
                 jfield j_string ''exit_id'' (Some []) fs, jfield j_string ''message'' (Some []) fs) of
             (Some a, Some e, Some x, Some m) \<Rightarrow>
               Some \<lparr>ack_OK = a, ack_Error = e, ack_ExitID = x, ack_Message = m\<rparr>
           | _ \<Rightarrow> None))"

definition ErrorMessage_json :: "ErrorMessage \<Rightarrow> json" where
  "ErrorMessage_json m = JObj [(''message'', JStr (em_Message m))]"

definition json_ErrorMessage :: "json \<Rightarrow> ErrorMessage option" where
  "json_ErrorMessage v =
     (case jstruct v of
        None \<Rightarrow> None
      | Some fs \<Rightarrow> map_option (\<lambda>m. \<lparr>em_Message = m\<rparr>) (jfield j_string ''message'' (Some []) fs))"

text \<open>\<open>DecodeJSON[T](frame)\<close>: the payload parsed and put into the struct.\<close>

definition DecodeJSON :: "(json \<Rightarrow> 'a option) \<Rightarrow> Frame \<Rightarrow> 'a res" where
  "DecodeJSON conv f =
     (case Unmarshal (Payload f) of
        None \<Rightarrow> Inl json_error
      | Some v \<Rightarrow> (case conv v of None \<Rightarrow> Inl json_error | Some x \<Rightarrow> Inr x))"

definition DecodeOpen :: "Frame \<Rightarrow> OpenRequest res" where
  "DecodeOpen f =
     (case DecodeJSON json_OpenRequest f of
        Inl e \<Rightarrow> Inl e
      | Inr r0 \<Rightarrow>
          let r1 = (if or_RequestID r0 = 0 then r0\<lparr>or_RequestID := ID f\<rparr> else r0);
              r2 = (if or_Protocol r1 = [] then r1\<lparr>or_Protocol := ProtocolTCP\<rparr> else r1)
          in if or_Destination r2 = [] \<or> or_Port r2 = 0
             then Inl (Msg ''destination and port are required'')
             else if or_Protocol r2 \<noteq> ProtocolTCP
             then Inl (Msg (''unsupported protocol '' @ quoted (or_Protocol r2)))
             else Inr r2)"

section \<open>The codec\<close>

text \<open>The bytes of a frame on the wire: what a \<open>WriteFrame\<close> that succeeds appends.\<close>

definition frame_bytes :: "Frame \<Rightarrow> bytes" where
  "frame_bytes f = frame_header f @ Payload f"

definition frame_ok :: "Frame \<Rightarrow> bool" where
  "frame_ok f \<longleftrightarrow> length (Payload f) \<le> MaxFrameSize"

lemma length_frame_header [simp]: "length (frame_header f) = 13"
  by (simp add: frame_header_def)

lemma frame_bytes_nonempty [simp]: "frame_bytes f \<noteq> []"
  by (simp add: frame_bytes_def frame_header_def)

lemma frame_ok_size:
  assumes "frame_ok f"
  shows "unat (of_nat (length (Payload f)) :: u32) = length (Payload f)"
    and "unat (of_nat (length (Payload f)) :: u32) \<le> MaxFrameSize"
proof -
  from assms have "length (Payload f) < 2 ^ 32"
    by (simp add: frame_ok_def MaxFrameSize_def)
  then show "unat (of_nat (length (Payload f)) :: u32) = length (Payload f)"
    by (simp add: unat_of_nat)
  with assms show "unat (of_nat (length (Payload f)) :: u32) \<le> MaxFrameSize"
    by (simp add: frame_ok_def)
qed

lemma header_fields:
  "hd (frame_header f) = Type f"
  "Uint (take 8 (drop 1 (frame_header f))) = ID f"
  "Uint (take 4 (drop 9 (frame_header f))) = (of_nat (length (Payload f)) :: u32)"
proof -
  have d1: "take 8 (drop 1 (frame_header f)) = PutUint 8 (ID f)"
    by (simp add: frame_header_def)
  have d9: "take 4 (drop 9 (frame_header f)) = PutUint 4 (of_nat (length (Payload f)) :: u32)"
    by (simp add: frame_header_def)
  show "hd (frame_header f) = Type f" by (simp add: frame_header_def)
  show "Uint (take 8 (drop 1 (frame_header f))) = ID f"
    unfolding d1 by (rule Uint_PutUint) simp
  show "Uint (take 4 (drop 9 (frame_header f))) = (of_nat (length (Payload f)) :: u32)"
    unfolding d9 by (rule Uint_PutUint) simp
qed

lemma ReadFrame_frame_bytes [frame_simps]:
  assumes "frame_ok f" and "rbuf c = frame_bytes f @ rest"
  shows "ReadFrame c = (Inr f, c\<lparr>rbuf := rest\<rparr>)"
proof -
  have h: "ReadFull headerSize c = (Inr (frame_header f), c\<lparr>rbuf := Payload f @ rest\<rparr>)"
    using assms(2) by (intro ReadFull_enough) (simp_all add: headerSize_def frame_bytes_def)
  have p: "ReadFull (length (Payload f)) (c\<lparr>rbuf := Payload f @ rest\<rparr>) = (Inr (Payload f), c\<lparr>rbuf := rest\<rparr>)"
    by (subst ReadFull_enough) simp_all
  show ?thesis
    unfolding ReadFrame_def h prod.case sum.case Let_def header_fields
    using frame_ok_size [OF assms(1)] p by (simp del: of_nat_numeral)
qed

lemma header_of_bytes:
  assumes "length h = 13" and "length p = unat (Uint (take 4 (drop 9 h)) :: u32)"
  shows "frame_header \<lparr>Type = hd h, ID = Uint (take 8 (drop 1 h)), Payload = p\<rparr> = h"
proof -
  have "PutUint 8 (Uint (take 8 (drop 1 h)) :: u64) = take 8 (drop 1 h)"
    using PutUint_Uint [where 'a = 64, of "take 8 (drop 1 h)"] assms(1) by simp
  moreover have "PutUint 4 (of_nat (length p) :: u32) = take 4 (drop 9 h)"
    using PutUint_Uint [where 'a = 32, of "take 4 (drop 9 h)"] assms by simp
  moreover have "h = hd h # take 8 (drop 1 h) @ take 4 (drop 9 h)"
  proof -
    have "h = hd h # tl h" using assms(1) by (cases h) auto
    moreover have "tl h = take 8 (tl h) @ drop 8 (tl h)" by simp
    moreover have "take 4 (drop 9 h) = drop 8 (tl h)"
      using assms(1) by (cases h) auto
    ultimately show ?thesis by (metis One_nat_def drop_0 drop_Suc)
  qed
  ultimately show ?thesis by (simp add: frame_header_def)
qed

lemma ReadFrame_sound:
  assumes "ReadFrame c = (Inr f, c')"
  shows "rbuf c = frame_bytes f @ rbuf c' \<and> frame_ok f \<and> c' = c\<lparr>rbuf := rbuf c'\<rparr>"
proof -
  obtain h c1 where h: "ReadFull headerSize c = (Inr h, c1)"
    and sz: "unat (Uint (take 4 (drop 9 h)) :: u32) \<le> MaxFrameSize"
    and "\<exists>p. ReadFull (unat (Uint (take 4 (drop 9 h)) :: u32)) c1 = (Inr p, c')
             \<and> f = \<lparr>Type = hd h, ID = Uint (take 8 (drop 1 h)), Payload = p\<rparr>"
    using assms by (auto simp: ReadFrame_def Let_def split: prod.splits sum.splits if_splits)
  then obtain p where p: "ReadFull (unat (Uint (take 4 (drop 9 h)) :: u32)) c1 = (Inr p, c')"
    and f: "f = \<lparr>Type = hd h, ID = Uint (take 8 (drop 1 h)), Payload = p\<rparr>"
    by blast
  from ReadFull_InrD [OF h] have hb: "rbuf c = h @ rbuf c1" "length h = 13" "c1 = c\<lparr>rbuf := rbuf c1\<rparr>"
    by (simp_all add: headerSize_def)
  from ReadFull_InrD [OF p] have pb: "rbuf c1 = p @ rbuf c'"
    "length p = unat (Uint (take 4 (drop 9 h)) :: u32)" "c' = c1\<lparr>rbuf := rbuf c'\<rparr>"
    by simp_all
  have "frame_header f = h" unfolding f by (rule header_of_bytes [OF hb(2) pb(2)])
  then have "rbuf c = frame_bytes f @ rbuf c'"
    using hb(1) pb(1) f by (simp add: frame_bytes_def)
  moreover have "frame_ok f" using sz pb(2) f by (simp add: frame_ok_def)
  moreover have "c' = c\<lparr>rbuf := rbuf c'\<rparr>"
    by (subst pb(3), subst hb(3)) simp
  ultimately show ?thesis by blast
qed

lemma WriteFrame_NoneD:
  assumes "WriteFrame f c = (None, c')"
  shows "wout c' = wout c @ frame_bytes f \<and> frame_ok f"
proof -
  from assms have ok: "frame_ok f"
    by (auto simp: WriteFrame_def frame_ok_def split: if_splits)
  obtain c1 where h: "io_Write (frame_header f) c = (None, c1)"
    and p: "(if length (Payload f) = 0 then (None, c1) else io_Write (Payload f) c1) = (None, c')"
    using assms by (auto simp: WriteFrame_def split: if_splits prod.splits option.splits)
  have "wout c1 = wout c @ frame_header f" by (rule io_Write_NoneD [OF h])
  moreover have "wout c' = wout c1 @ Payload f"
    using p io_Write_NoneD [of "Payload f" c1 c'] by (auto split: if_splits)
  ultimately show ?thesis using ok by (simp add: frame_bytes_def)
qed

lemma WriteFrame_ok [frame_simps]:
  assumes "frame_ok f" and "wres c = []"
  shows "WriteFrame f c = (None, c\<lparr>wout := wout c @ frame_bytes f\<rparr>)"
  using assms by (auto simp: WriteFrame_def frame_ok_def frame_bytes_def io_Write_ok)

lemma WriteFrame_reader [simp]:
  "rbuf (snd (WriteFrame f c)) = rbuf c" "rend (snd (WriteFrame f c)) = rend c"
proof -
  obtain r c1 where h: "io_Write (frame_header f) c = (r, c1)" by (cases "io_Write (frame_header f) c")
  with io_Write_reader [of "frame_header f" c] have "rbuf c1 = rbuf c" "rend c1 = rend c" by auto
  then show "rbuf (snd (WriteFrame f c)) = rbuf c" "rend (snd (WriteFrame f c)) = rend c"
    by (auto simp: WriteFrame_def h split: option.splits)
qed

section \<open>The interface of a framing\<close>

text \<open>
  What the session layer needs of the codec: an encoded frame followed by anything decodes to
  that frame and the rest, and decoding takes no byte that is not of the frame.
\<close>

locale framing =
  fixes enc :: "'f \<Rightarrow> bytes"
    and dec :: "bytes \<Rightarrow> ('f \<times> bytes) option"
    and ok :: "'f \<Rightarrow> bool"
  assumes dec_enc: "ok f \<Longrightarrow> dec (enc f @ r) = Some (f, r)"
    and dec_sound: "dec b = Some (f, r) \<Longrightarrow> b = enc f @ r \<and> ok f"
begin

fun dec_many :: "nat \<Rightarrow> bytes \<Rightarrow> 'f list \<times> bytes" where
  "dec_many 0 b = ([], b)"
| "dec_many (Suc n) b =
     (case dec b of None \<Rightarrow> ([], b) | Some (f, r) \<Rightarrow> (case dec_many n r of (fs, r') \<Rightarrow> (f # fs, r')))"

lemma dec_many_concat: "list_all ok fs \<Longrightarrow> dec_many (length fs) (concat (map enc fs) @ r) = (fs, r)"
  by (induction fs) (simp_all add: dec_enc)

lemma dec_many_sound: "dec_many n b = (fs, r) \<Longrightarrow> b = concat (map enc fs) @ r \<and> list_all ok fs"
proof (induction n arbitrary: b fs)
  case (Suc n)
  then show ?case by (fastforce split: option.splits prod.splits dest: dec_sound)
qed simp

lemma enc_unique:
  assumes "ok f" "ok g" "enc f @ r = enc g @ s"
  shows "f = g \<and> r = s"
proof -
  have "Some (f, r) = Some (g, s)"
    using dec_enc [OF assms(1), of r] dec_enc [OF assms(2), of s] unfolding assms(3) by (rule trans [OF sym])
  then show ?thesis by blast
qed

lemma concat_unique:
  assumes "list_all ok fs" "list_all ok gs" "length fs = length gs"
    and "concat (map enc fs) @ r = concat (map enc gs) @ s"
  shows "fs = gs \<and> r = s"
proof -
  have "(fs, r) = (gs, s)"
    using dec_many_concat [OF assms(1), of r] dec_many_concat [OF assms(2), of s]
    unfolding assms(3,4) by (rule trans [OF sym])
  then show ?thesis by blast
qed

lemma strict_prefix_fails:
  assumes "ok f" "enc f = b @ x" "x \<noteq> []"
  shows "dec b = None"
proof (rule ccontr)
  assume "dec b \<noteq> None"
  then obtain g r where "dec b = Some (g, r)" by auto
  then have g: "b = enc g @ r" "ok g" using dec_sound by auto
  then have "enc f @ [] = enc g @ (r @ x)" using assms(2) by simp
  then have "[] = r @ x" using enc_unique [OF assms(1) g(2)] by blast
  with assms(3) show False by simp
qed

end

text \<open>Decoding one frame from bytes that are all there will ever be.\<close>

definition conn_of :: "bytes \<Rightarrow> conn" where
  "conn_of b = \<lparr>rbuf = b, rend = EOF, wout = [], wres = []\<rparr>"

definition frame_of_bytes :: "bytes \<Rightarrow> (Frame \<times> bytes) option" where
  "frame_of_bytes b =
     (case ReadFrame (conn_of b) of (Inr f, c) \<Rightarrow> Some (f, rbuf c) | (Inl _, _) \<Rightarrow> None)"

lemma frame_of_bytes_enc: "frame_ok f \<Longrightarrow> frame_of_bytes (frame_bytes f @ r) = Some (f, r)"
  by (simp add: frame_of_bytes_def conn_of_def ReadFrame_frame_bytes)

lemma frame_of_bytes_sound: "frame_of_bytes b = Some (f, r) \<Longrightarrow> b = frame_bytes f @ r \<and> frame_ok f"
proof -
  assume "frame_of_bytes b = Some (f, r)"
  then obtain c where c: "ReadFrame (conn_of b) = (Inr f, c)" "r = rbuf c"
    by (auto simp: frame_of_bytes_def split: prod.splits sum.splits)
  from ReadFrame_sound [OF c(1)] c(2) show ?thesis by (simp add: conn_of_def)
qed

interpretation wire: framing frame_bytes frame_of_bytes frame_ok
  by unfold_locales (auto simp: frame_of_bytes_enc dest: frame_of_bytes_sound)

section \<open>Messages survive the wire\<close>

lemma OpenRequest_roundtrip: "json_OpenRequest (OpenRequest_json r) = Some r"
  by (cases r) (simp add: json_OpenRequest_def OpenRequest_json_def jstruct_def omit_if_def fold_names)

lemma Ack_roundtrip: "json_Ack (Ack_json a) = Some a"
  by (cases a) (simp add: json_Ack_def Ack_json_def jstruct_def omit_if_def fold_names)

lemma ErrorMessage_roundtrip: "json_ErrorMessage (ErrorMessage_json m) = Some m"
  by (cases m) (simp add: json_ErrorMessage_def ErrorMessage_json_def jstruct_def)

text \<open>
  The strings of a message are text (valid UTF-8): \<open>json.Marshal\<close> replaces what is not.
\<close>

definition open_text :: "OpenRequest \<Rightarrow> bool" where
  "open_text r \<longleftrightarrow> valid_utf8 (or_ExitID r) \<and> valid_utf8 (or_Destination r) \<and> valid_utf8 (or_Protocol r)"

definition ack_text :: "Ack \<Rightarrow> bool" where
  "ack_text a \<longleftrightarrow> valid_utf8 (ack_Error a) \<and> valid_utf8 (ack_ExitID a) \<and> valid_utf8 (ack_Message a)"

lemma printable_messages [simp]:
  "open_text r \<Longrightarrow> printable (OpenRequest_json r)" "ack_text a \<Longrightarrow> printable (Ack_json a)"
  "valid_utf8 (em_Message m) \<Longrightarrow> printable (ErrorMessage_json m)"
  by (simp_all add: OpenRequest_json_def Ack_json_def ErrorMessage_json_def omit_if_def open_text_def ack_text_def)

lemma DecodeJSON_Marshal [frame_simps]:
  "printable v \<Longrightarrow> conv v = Some x \<Longrightarrow> Payload f = Marshal v \<Longrightarrow> DecodeJSON conv f = Inr x"
  by (simp add: DecodeJSON_def Unmarshal_Marshal)

section \<open>Properties\<close>

text \<open>
  C18 (round trip). Whatever frame a \<open>WriteFrame\<close> that reports success has put on the wire, a
  \<open>ReadFrame\<close> whose input starts with those bytes returns that very frame and leaves exactly
  the bytes that follow it.
\<close>

theorem frame_roundtrip:
  assumes "WriteFrame f w = (None, w')" and "wout w' = wout w @ b" and "rbuf c = b @ rest"
  shows "ReadFrame c = (Inr f, c\<lparr>rbuf := rest\<rparr>)"
  using WriteFrame_NoneD [OF assms(1)] assms(2,3) by (simp add: ReadFrame_frame_bytes)

theorem frame_roundtrip_witness:
  "ReadFrame (conn_of (frame_bytes \<lparr>Type = FrameData, ID = 42, Payload = [1, 2, 3]\<rparr> @ [7]))
   = (Inr \<lparr>Type = FrameData, ID = 42, Payload = [1, 2, 3]\<rparr>, conn_of [7])"
proof -
  let ?f = "\<lparr>Type = FrameData, ID = 42, Payload = [1, 2, 3]\<rparr> :: Frame"
  let ?c = "conn_of (frame_bytes ?f @ [7])"
  have w: "WriteFrame ?f (conn_of []) = (None, conn_of []\<lparr>wout := frame_bytes ?f\<rparr>)"
    using WriteFrame_ok [of ?f "conn_of []"] by (simp add: frame_ok_def MaxFrameSize_def conn_of_def)
  show ?thesis
    using frame_roundtrip [OF w, of "frame_bytes ?f" ?c "[7]"] by (simp add: conn_of_def)
qed

text \<open>
  C0 (refusal before allocation). When the length field of a header names more than 1 MiB,
  \<open>ReadFrame\<close> fails having consumed the 13 header bytes only, whatever follows them; and
  \<open>WriteFrame\<close> refuses such a frame before it writes a single byte.
\<close>

theorem oversized_frame_refused:
  assumes "length h = headerSize" and "MaxFrameSize < unat (Uint (take 4 (drop 9 h)) :: u32)"
    and "rbuf c = h @ rest" and "MaxFrameSize < length (Payload f)"
  shows "ReadFrame c = (Inl (size_error (unat (Uint (take 4 (drop 9 h)) :: u32))), c\<lparr>rbuf := rest\<rparr>)
    \<and> WriteFrame f c = (Some (size_error (length (Payload f))), c)"
proof -
  have "ReadFull headerSize c = (Inr h, c\<lparr>rbuf := rest\<rparr>)"
    by (rule ReadFull_enough [OF assms(1,3)])
  with assms show ?thesis by (simp add: ReadFrame_def WriteFrame_def)
qed

theorem oversized_frame_refused_witness:
  "ReadFrame (conn_of [9, 0, 0, 0, 0, 0, 0, 0, 1, 255, 255, 255, 255, 7])
   = (Inl (size_error 4294967295), conn_of [7])"
proof -
  let ?h = "[9, 0, 0, 0, 0, 0, 0, 0, 1, 255, 255, 255, 255] :: bytes"
  let ?f = "\<lparr>Type = FrameData, ID = 1, Payload = replicate (Suc MaxFrameSize) 0\<rparr> :: Frame"
  have "take 4 (drop 9 ?h) = [255, 255, 255, 255]" by simp
  then have u: "(Uint (take 4 (drop 9 ?h)) :: u32) = 4294967295" by simp
  show ?thesis
    using oversized_frame_refused [of ?h "conn_of (?h @ [7])" "[7]" ?f]
    unfolding u by (simp add: headerSize_def MaxFrameSize_def conn_of_def)
qed

text \<open>
  C36 (truncation). A connection that ends inside a frame never yields a frame: \<open>ReadFrame\<close>
  fails for every strict prefix of a frame's bytes. It reports \<open>io.ErrUnexpectedEOF\<close>, except
  when the cut falls between frames or exactly between a header and its payload: there it
  reports the plain \<open>io.EOF\<close> of a connection that ended cleanly.
\<close>

theorem truncated_frame_error:
  assumes "frame_ok f" and "frame_bytes f = rbuf c @ x" and "x \<noteq> []"
  shows "ReadFrame c = (Inl (if rend c = EOF \<and> rbuf c \<noteq> [] \<and> length (rbuf c) \<noteq> headerSize
      then UnexpectedEOF else rend c), c\<lparr>rbuf := []\<rparr>)"
proof (cases "length (rbuf c) < headerSize")
  case True
  then show ?thesis by (simp add: ReadFrame_def ReadFull_short)
next
  case False
  then have len: "13 \<le> length (rbuf c)" by (simp add: headerSize_def)
  have "frame_header f = take 13 (frame_bytes f)" by (simp add: frame_bytes_def)
  then have "frame_header f = take 13 (rbuf c)" using assms(2) len by simp
  then have b: "rbuf c = frame_header f @ drop 13 (rbuf c)" by (metis append_take_drop_id)
  have "length (frame_bytes f) = 13 + length (Payload f)" by (simp add: frame_bytes_def)
  moreover have "length (frame_bytes f) = length (rbuf c) + length x" using assms(2) by simp
  ultimately have short: "length (drop 13 (rbuf c)) < length (Payload f)"
    using assms(3) len by (cases x) auto
  have h: "ReadFull headerSize c = (Inr (frame_header f), c\<lparr>rbuf := drop 13 (rbuf c)\<rparr>)"
    using b by (intro ReadFull_enough) (simp_all add: headerSize_def)
  have p: "ReadFull (length (Payload f)) (c\<lparr>rbuf := drop 13 (rbuf c)\<rparr>) =
     (Inl (if drop 13 (rbuf c) \<noteq> [] \<and> rend c = EOF then UnexpectedEOF else rend c), c\<lparr>rbuf := []\<rparr>)"
    using short by (subst ReadFull_short) simp_all
  have e: "drop 13 (rbuf c) = [] \<longleftrightarrow> length (rbuf c) = headerSize" "rbuf c \<noteq> []"
    using len by (auto simp: headerSize_def)
  show ?thesis
    unfolding ReadFrame_def h prod.case sum.case Let_def header_fields
    using frame_ok_size [OF assms(1)] p e by (simp del: of_nat_numeral drop_eq_Nil)
qed

theorem truncated_frame_error_witness:
  "fst (ReadFrame (conn_of (frame_header \<lparr>Type = FrameData, ID = 42, Payload = [1, 2, 3]\<rparr>))) = Inl EOF"
proof -
  let ?f = "\<lparr>Type = FrameData, ID = 42, Payload = [1, 2, 3]\<rparr> :: Frame"
  show ?thesis
    using truncated_frame_error [of ?f "conn_of (frame_header ?f)" "[1, 2, 3]"]
    by (simp add: frame_ok_def MaxFrameSize_def frame_bytes_def conn_of_def headerSize_def)
qed

text \<open>
  C19 (unique decoding). Two sequences of the same number of frames that have the same bytes on
  the wire are the same frames, with the same bytes after them: a reader that starts at a frame
  boundary can never read the sender's frames as different ones.
\<close>

theorem wire_unambiguous:
  assumes "list_all frame_ok fs" and "list_all frame_ok gs" and "length fs = length gs"
    and "concat (map frame_bytes fs) @ r = concat (map frame_bytes gs) @ s"
  shows "fs = gs \<and> r = s"
  by (rule wire.concat_unique [OF assms])

theorem wire_unambiguous_witness:
  "\<exists>r. concat (map frame_bytes [\<lparr>Type = FrameClose, ID = 1, Payload = []\<rparr>]) @ [9]
     = concat (map frame_bytes [\<lparr>Type = FrameClose, ID = 1, Payload = []\<rparr>]) @ r \<and> r = [9]"
  using wire_unambiguous [of "[\<lparr>Type = FrameClose, ID = 1, Payload = []\<rparr>]"
      "[\<lparr>Type = FrameClose, ID = 1, Payload = []\<rparr>]" "[9]" "[9]"]
  by (simp add: frame_ok_def)

text \<open>
  C16 (open requests). Decoding the open request a peer has encoded gives the request back,
  with the frame's ID where the request named none and \<open>tcp\<close> where it named no protocol; a
  request without destination or port, or for another protocol, is refused with that reason.
\<close>

theorem DecodeOpen_encoded:
  assumes "open_text r"
  shows "DecodeOpen \<lparr>Type = t, ID = i, Payload = Marshal (OpenRequest_json r)\<rparr> =
     (if or_Destination r = [] \<or> or_Port r = 0 then Inl (Msg ''destination and port are required'')
      else if or_Protocol r \<noteq> [] \<and> or_Protocol r \<noteq> ProtocolTCP
      then Inl (Msg (''unsupported protocol '' @ quoted (or_Protocol r)))
      else Inr (r\<lparr>or_RequestID := (if or_RequestID r = 0 then i else or_RequestID r),
                  or_Protocol := ProtocolTCP\<rparr>))"
proof -
  have "DecodeJSON json_OpenRequest \<lparr>Type = t, ID = i, Payload = Marshal (OpenRequest_json r)\<rparr> = Inr r"
    by (rule DecodeJSON_Marshal) (simp_all add: OpenRequest_roundtrip assms)
  then show ?thesis by (cases r) (auto simp: DecodeOpen_def Let_def ProtocolTCP_def)
qed

theorem DecodeOpen_encoded_witness:
  "DecodeOpen \<lparr>Type = FrameOpen, ID = 5, Payload = Marshal (OpenRequest_json
      \<lparr>or_RequestID = 0, or_ExitID = [], or_Destination = ''h'', or_Port = 80, or_Protocol = ''udp'',
       or_ClientSelected = False\<rparr>)\<rparr> = Inl (Msg ''unsupported protocol \"udp\"'')"
  by (subst DecodeOpen_encoded) (simp_all add: open_text_def ProtocolTCP_def quoted_def)

end
