(* ===== verification/Session.thy ===== *)
theory Session
  imports Frame
begin

text \<open>
  \<open>src/internal/session/session.go\<close>: the multiplexed session. Streams live in a heap
  (\<open>ss_heap\<close>, a stream's address is its index) because the session's map, the incoming queue,
  the handlers and the callers of \<open>Open\<close> share them. Every operation that holds the mutexes for
  one critical section is one function from session to session; what Go's \<open>select\<close> may choose
  between is a list of outcomes (an empty list is a call that blocks). The read loop has a
  program counter, so that the other goroutines may run between its lookup of a stream and the
  delivery of the data.
\<close>

section \<open>Streams\<close>

record stream =
  st_id :: u64
  st_request :: OpenRequest
  st_remoteExit :: string
  st_ack :: "Ack list"
  st_reads :: "bytes list"
  st_readsClosed :: bool
  st_readBuf :: bytes
  st_readErr :: "error option"
  st_writeErr :: "error option"
  st_closed :: bool
  st_remoteEOF :: bool
  st_localEOF :: bool
  st_done :: bool
  st_closeOnce :: bool

definition zero_request :: OpenRequest where
  "zero_request = \<lparr>or_RequestID = 0, or_ExitID = [], or_Destination = [], or_Port = 0,
     or_Protocol = [], or_ClientSelected = False\<rparr>"

definition newStream :: "u64 \<Rightarrow> stream" where
  "newStream i = \<lparr>st_id = i, st_request = zero_request, st_remoteExit = [], st_ack = [], st_reads = [],
     st_readsClosed = False, st_readBuf = [], st_readErr = None, st_writeErr = None, st_closed = False,
     st_remoteEOF = False, st_localEOF = False, st_done = False, st_closeOnce = False\<rparr>"

text \<open>\<open>Stream.Err\<close>.\<close>

definition Stream_Err :: "stream \<Rightarrow> error option" where
  "Stream_Err st = (case st_readErr st of Some e \<Rightarrow> Some e | None \<Rightarrow> st_writeErr st)"

text \<open>The critical section of \<open>forceClose\<close> together with the close of \<open>done\<close>.\<close>

definition close_stream :: "error \<Rightarrow> stream \<Rightarrow> stream" where
  "close_stream e st = st\<lparr>st_closeOnce := True, st_closed := True,
     st_writeErr := (case st_writeErr st of None \<Rightarrow> Some e | Some x \<Rightarrow> Some x),
     st_readErr := (case st_readErr st of None \<Rightarrow> Some e | Some x \<Rightarrow> Some x),
     st_remoteEOF := True, st_readsClosed := True, st_done := True\<rparr>"

text \<open>\<open>remoteClose\<close>: the peer will send no more data.\<close>

definition Stream_remoteClose :: "stream \<Rightarrow> stream" where
  "Stream_remoteClose st =
     (if st_remoteEOF st then st else st\<lparr>st_remoteEOF := True, st_readsClosed := True\<rparr>)"

text \<open>
  \<open>deliver\<close>: a send on the channel \<open>reads\<close> (capacity \<open>cap\<close>) or the receipt from \<open>done\<close>,
  whichever is ready. A send on a closed channel is ready, and panics.
\<close>

datatype delivery = Delivered stream | Refused error | DeliverPanic

definition Stream_deliver :: "nat \<Rightarrow> bytes \<Rightarrow> stream \<Rightarrow> delivery list" where
  "Stream_deliver cap data st =
     (if data = [] then [Delivered st]
      else (if st_readsClosed st then [DeliverPanic]
            else if length (st_reads st) < cap then [Delivered (st\<lparr>st_reads := st_reads st @ [data]\<rparr>)]
            else [])
           @ (if st_done st then [Refused ErrClosed] else []))"

text \<open>
  \<open>Read(p)\<close> with \<open>len(p) = n\<close>. The loop refills \<open>readBuf\<close> from \<open>reads\<close>; the function
  \<open>read_fill\<close> lists what one pass through the \<open>select\<close> can lead to.
\<close>

datatype read_result = ReadBytes bytes | ReadFail error

definition read_take :: "nat \<Rightarrow> stream \<Rightarrow> read_result \<times> stream" where
  "read_take n st = (ReadBytes (take n (st_readBuf st)), st\<lparr>st_readBuf := drop n (st_readBuf st)\<rparr>)"

fun read_fill :: "nat \<Rightarrow> bytes list \<Rightarrow> stream \<Rightarrow> (read_result \<times> stream) list" where
  "read_fill n reads st =
     (case st_readErr st of
        Some e \<Rightarrow> [(ReadFail e, st)]
      | None \<Rightarrow>
          (case reads of
             d # ds \<Rightarrow>
               if d = [] then read_fill n ds (st\<lparr>st_reads := ds\<rparr>)
               else [read_take n (st\<lparr>st_reads := ds, st_readBuf := d\<rparr>)]
           | [] \<Rightarrow> if st_readsClosed st then [(ReadFail EOF, st)] else [])
          @ (if st_done st then [(ReadFail ErrClosed, st)] else []))"

declare read_fill.simps [simp del]

definition Stream_Read :: "nat \<Rightarrow> stream \<Rightarrow> (read_result \<times> stream) list" where
  "Stream_Read n st =
     (if st_readBuf st \<noteq> [] then [read_take n st] else read_fill n (st_reads st) st)"

section \<open>Sessions\<close>

datatype read_pc = RIdle | RDeliver nat bytes | RStopped | RPanicked

record session =
  ss_IdleTimeout :: int
  ss_BufferSize :: nat
  ss_conn :: "conn option"
  ss_handler :: bool
  ss_control :: bool
  ss_heap :: "stream list"
  ss_streams :: "(u64, nat) gomap"
  ss_incoming :: "nat list"
  ss_waiting :: "nat list"
  ss_handled :: "nat list"
  ss_ctl :: "Frame list"
  ss_closed :: bool
  ss_err :: "error option"
  ss_done :: bool
  ss_nextID :: u64
  ss_rpc :: read_pc
  ss_dispatching :: bool

definition minute :: int where "minute = 60 * 10 ^ 9"

definition incoming_cap :: nat where "incoming_cap = 64"

definition New :: "int \<Rightarrow> int \<Rightarrow> session" where
  "New idle buf = \<lparr>ss_IdleTimeout = (if idle \<le> 0 then 5 * minute else idle),
     ss_BufferSize = (if buf \<le> 0 then 32 else nat buf), ss_conn = None, ss_handler = False,
     ss_control = False, ss_heap = [], ss_streams = [], ss_incoming = [], ss_waiting = [],
     ss_handled = [], ss_ctl = [], ss_closed = False, ss_err = None, ss_done = False, ss_nextID = 0,
     ss_rpc = RStopped, ss_dispatching = False\<rparr>"

text \<open>
  \<open>Start\<close>: \<open>dial\<close> is the result of the dial function (\<open>None\<close> when no function is given). The read
  loop and the dispatch loop start when the connection is in place.
\<close>

definition Start :: "conn res option \<Rightarrow> bool \<Rightarrow> session \<Rightarrow> error option \<times> session" where
  "Start dial handler s =
     (case dial of
        None \<Rightarrow> (Some (Msg ''dial function is required''), s)
      | Some (Inl e) \<Rightarrow> (Some e, s)
      | Some (Inr c) \<Rightarrow>
          if ss_closed s then (Some ErrClosed, s)
          else (None, s\<lparr>ss_conn := Some c, ss_handler := handler, ss_rpc := RIdle, ss_dispatching := True\<rparr>))"

definition SetControlHandler :: "bool \<Rightarrow> session \<Rightarrow> session" where
  "SetControlHandler h s = s\<lparr>ss_control := h\<rparr>"

abbreviation deref :: "session \<Rightarrow> nat \<Rightarrow> stream" where
  "deref s r \<equiv> ss_heap s ! r"

definition upd :: "nat \<Rightarrow> (stream \<Rightarrow> stream) \<Rightarrow> session \<Rightarrow> session" where
  "upd r f s = s\<lparr>ss_heap := (ss_heap s)[r := f (deref s r)]\<rparr>"

text \<open>A new object on the heap and its address.\<close>

definition alloc :: "stream \<Rightarrow> session \<Rightarrow> nat \<times> session" where
  "alloc st s = (length (ss_heap s), s\<lparr>ss_heap := ss_heap s @ [st]\<rparr>)"

definition lookup :: "u64 \<Rightarrow> session \<Rightarrow> nat option" where
  "lookup i s = gm_get (ss_streams s) i"

text \<open>The critical section of \<open>removeStream\<close>: only the entry that still is this stream goes.\<close>

definition unregister :: "nat \<Rightarrow> session \<Rightarrow> session" where
  "unregister r s =
     (let i = st_id (deref s r) in
      if gm_get (ss_streams s) i = Some r then s\<lparr>ss_streams := gm_del i (ss_streams s)\<rparr> else s)"

definition forceClose :: "nat \<Rightarrow> error \<Rightarrow> session \<Rightarrow> session" where
  "forceClose r e s =
     (if st_closeOnce (deref s r) then s else unregister r (upd r (close_stream e) s))"

definition removeStream :: "nat \<Rightarrow> error option \<Rightarrow> session \<Rightarrow> session" where
  "removeStream r e s =
     (case e of None \<Rightarrow> unregister r s | Some x \<Rightarrow> forceClose r x (unregister r s))"

definition shutdown :: "error \<Rightarrow> session \<Rightarrow> session" where
  "shutdown e s =
     (if ss_closed s then s
      else fold (\<lambda>r. forceClose r e) (map snd (ss_streams s))
             (s\<lparr>ss_closed := True, ss_err := Some e, ss_done := True\<rparr>))"

definition writeFrame :: "Frame \<Rightarrow> session \<Rightarrow> error option \<times> session" where
  "writeFrame f s =
     (if ss_done s then (Some ErrClosed, s)
      else if ss_closed s then (Some ErrClosed, s)
      else case ss_conn s of
        None \<Rightarrow> (Some ErrClosed, s)
      | Some c \<Rightarrow> (case Writer_Write f c of (r, c') \<Rightarrow> (r, s\<lparr>ss_conn := Some c'\<rparr>)))"

definition writeFrameJSON :: "FrameType \<Rightarrow> u64 \<Rightarrow> json \<Rightarrow> session \<Rightarrow> error option \<times> session" where
  "writeFrameJSON t i v s =
     (if ss_done s then (Some ErrClosed, s)
      else if ss_closed s then (Some ErrClosed, s)
      else case ss_conn s of
        None \<Rightarrow> (Some ErrClosed, s)
      | Some c \<Rightarrow> (case Writer_WriteJSON t i v c of (r, c') \<Rightarrow> (r, s\<lparr>ss_conn := Some c'\<rparr>)))"

definition writeMessage :: "u64 \<Rightarrow> string \<Rightarrow> session \<Rightarrow> error option \<times> session" where
  "writeMessage i m s = writeFrameJSON FrameError i (ErrorMessage_json \<lparr>em_Message = m\<rparr>) s"

section \<open>Operations on a stream\<close>

definition Stream_Accept :: "nat \<Rightarrow> session \<Rightarrow> error option \<times> session" where
  "Stream_Accept r s =
     (if st_done (deref s r) then (Some ErrClosed, s)
      else
        (case writeFrameJSON FrameOpenAck (st_id (deref s r))
                (Ack_json \<lparr>ack_OK = True, ack_Error = [], ack_ExitID = st_remoteExit (deref s r), ack_Message = []\<rparr>) s of
           (Some e, s') \<Rightarrow> (Some e, forceClose r e s')
         | (None, s') \<Rightarrow> (None, s')))"

definition Stream_Reject :: "nat \<Rightarrow> string \<Rightarrow> session \<Rightarrow> error option \<times> session" where
  "Stream_Reject r m s =
     (case writeFrameJSON FrameOpenAck (st_id (deref s r))
             (Ack_json \<lparr>ack_OK = False, ack_Error = m, ack_ExitID = [], ack_Message = []\<rparr>) s of
        (e, s') \<Rightarrow> (e, forceClose r (Msg m) s'))"

text \<open>The loop of \<open>Write\<close>: chunks of at most \<open>MaxDataSize\<close>, the count of bytes written, the error.\<close>

function write_chunks :: "nat \<Rightarrow> bytes \<Rightarrow> session \<Rightarrow> nat \<times> error option \<times> session" where
  "write_chunks r p s =
     (if p = [] then (0, None, s)
      else
        (case writeFrame \<lparr>Type = FrameData, ID = st_id (deref s r), Payload = take MaxDataSize p\<rparr> s of
           (Some e, s') \<Rightarrow> (0, Some e, forceClose r e s')
         | (None, s') \<Rightarrow>
             (case write_chunks r (drop MaxDataSize p) s' of
                (n, e, s'') \<Rightarrow> (length (take MaxDataSize p) + n, e, s''))))"
  by pat_completeness auto
termination
  by (relation "measure (\<lambda>(r, p, s). length p)") (auto simp: MaxDataSize_def)

declare write_chunks.simps [simp del]

definition Stream_Write :: "nat \<Rightarrow> bytes \<Rightarrow> session \<Rightarrow> nat \<times> error option \<times> session" where
  "Stream_Write r p s =
     (if p = [] then (0, None, s)
      else case st_writeErr (deref s r) of
        Some e \<Rightarrow> (0, Some e, s)
      | None \<Rightarrow> if st_closed (deref s r) then (0, Some ErrClosed, s) else write_chunks r p s)"

definition Stream_CloseWrite :: "nat \<Rightarrow> session \<Rightarrow> error option \<times> session" where
  "Stream_CloseWrite r s =
     (if st_closed (deref s r) \<or> st_localEOF (deref s r) then (None, s)
      else writeFrame \<lparr>Type = FrameClose, ID = st_id (deref s r), Payload = []\<rparr>
             (upd r (\<lambda>st. st\<lparr>st_localEOF := True\<rparr>) s))"

definition Stream_Close :: "nat \<Rightarrow> session \<Rightarrow> error option \<times> session" where
  "Stream_Close r s = Stream_CloseWrite r s"

text \<open>\<open>finishClose\<close>, which no code of the repository calls.\<close>

definition finishClose :: "nat \<Rightarrow> session \<Rightarrow> session" where
  "finishClose r s =
     (if st_closeOnce (deref s r) then s
      else removeStream r None (upd r (\<lambda>st. st\<lparr>st_closeOnce := True, st_closed := True, st_done := True\<rparr>) s))"

section \<open>Opening a stream\<close>

text \<open>
  \<open>Open\<close> up to its \<open>select\<close>: the address of the stream whose acknowledgement is awaited, or the
  error. The ID is the request's own where it has one.
\<close>

definition Open_request :: "OpenRequest \<Rightarrow> u64 \<Rightarrow> OpenRequest" where
  "Open_request req requestID =
     (let req1 = (if or_Protocol req = [] then req\<lparr>or_Protocol := ProtocolTCP\<rparr> else req)
      in if or_RequestID req1 = 0 then req1\<lparr>or_RequestID := requestID\<rparr> else req1)"

definition Open_send :: "OpenRequest \<Rightarrow> session \<Rightarrow> nat res \<times> session" where
  "Open_send req s =
     (let s1 = s\<lparr>ss_nextID := ss_nextID s + 1\<rparr>;
          q = Open_request req (ss_nextID s1);
          i = or_RequestID q
      in case alloc (newStream i) s1 of
        (r, s2) \<Rightarrow>
          if ss_closed s2 then (Inl ErrClosed, s2)
          else case ss_conn s2 of
            None \<Rightarrow> (Inl ErrClosed, s2)
          | Some c \<Rightarrow>
              let s3 = s2\<lparr>ss_streams := gm_set i r (ss_streams s2)\<rparr> in
              (case Writer_WriteJSON FrameOpen i (OpenRequest_json q) c of
                 (Some e, c') \<Rightarrow>
                   (Inl e, forceClose r e (removeStream r None (s3\<lparr>ss_conn := Some c'\<rparr>)))
               | (None, c') \<Rightarrow> (Inr r, s3\<lparr>ss_conn := Some c'\<rparr>)))"

datatype open_event = AckArrived | StreamDone | CtxDone error | SessionDone

text \<open>
  The \<open>select\<close> of \<open>Open\<close>: the list is empty when the chosen case is not ready. A context may be
  done at any time.
\<close>

definition Open_select :: "open_event \<Rightarrow> nat \<Rightarrow> session \<Rightarrow> (nat res \<times> session) list" where
  "Open_select ev r s =
     (case ev of
        AckArrived \<Rightarrow>
          (case st_ack (deref s r) of
             [] \<Rightarrow> []
           | a # as \<Rightarrow>
               let s1 = upd r (\<lambda>st. st\<lparr>st_ack := as\<rparr>) s in
               if \<not> ack_OK a then
                 let m = (if ack_Error a = [] then ''exit rejected connection'' else ack_Error a) in
                 [(Inl (Msg m), forceClose r (Msg m) (removeStream r None s1))]
               else [(Inr r, upd r (\<lambda>st. st\<lparr>st_remoteExit := ack_ExitID a\<rparr>) s1)])
      | StreamDone \<Rightarrow>
          if st_done (deref s r) then
            [(Inl (case Stream_Err (deref s r) of
                     None \<Rightarrow> Msg ''stream closed before acknowledgement'' | Some e \<Rightarrow> e),
              removeStream r None s)]
          else []
      | CtxDone e \<Rightarrow> [(Inl e, forceClose r e (removeStream r None s))]
      | SessionDone \<Rightarrow>
          if ss_done s then [(Inl (case ss_err s of None \<Rightarrow> ErrClosed | Some e \<Rightarrow> e), s)] else [])"

section \<open>Dispatch\<close>

definition dispatch :: "nat \<Rightarrow> session \<Rightarrow> session" where
  "dispatch r s =
     (if length (ss_incoming s) < incoming_cap then s\<lparr>ss_incoming := ss_incoming s @ [r]\<rparr>
      else s\<lparr>ss_waiting := ss_waiting s @ [r]\<rparr>)"

text \<open>The goroutine a full queue makes \<open>dispatch\<close> start, for the waiting stream at position \<open>k\<close>.\<close>

definition dispatch_waiting :: "nat \<Rightarrow> session \<Rightarrow> session list" where
  "dispatch_waiting k s =
     (if k < length (ss_waiting s) then
        let r = ss_waiting s ! k;
            s1 = s\<lparr>ss_waiting := take k (ss_waiting s) @ drop (Suc k) (ss_waiting s)\<rparr>
        in (if length (ss_incoming s) < incoming_cap then [s1\<lparr>ss_incoming := ss_incoming s @ [r]\<rparr>] else [])
           @ (if ss_done s then [forceClose r ErrClosed s1] else [])
      else [])"

text \<open>One turn of \<open>dispatchLoop\<close>.\<close>

definition dispatchLoop_step :: "session \<Rightarrow> session list" where
  "dispatchLoop_step s =
     (if \<not> ss_dispatching s then []
      else (case ss_incoming s of
              [] \<Rightarrow> []
            | r # rs \<Rightarrow>
                [s\<lparr>ss_incoming := rs, ss_handled := (if ss_handler s then ss_handled s @ [r] else ss_handled s)\<rparr>])
           @ (if ss_done s then [s\<lparr>ss_dispatching := False\<rparr>] else []))"

text \<open>\<open>Accept(ctx)\<close> of the session: the next incoming stream, or the end of session or context.\<close>

definition Session_Accept :: "error option \<Rightarrow> session \<Rightarrow> (nat res \<times> session) list" where
  "Session_Accept ctx s =
     (case ss_incoming s of [] \<Rightarrow> [] | r # rs \<Rightarrow> [(Inr r, s\<lparr>ss_incoming := rs\<rparr>)])
     @ (if ss_done s then [(Inl ErrClosed, s)] else [])
     @ (case ctx of None \<Rightarrow> [] | Some e \<Rightarrow> [(Inl e, s)])"

section \<open>The read loop\<close>

definition read_end :: "error \<Rightarrow> session \<Rightarrow> session" where
  "read_end e s =
     (if errors_Is e EOF \<or> errors_Is e ErrClosed then (shutdown ErrClosed s)\<lparr>ss_rpc := RStopped\<rparr>
      else (shutdown e s)\<lparr>ss_rpc := RStopped\<rparr>)"

definition handle_open :: "Frame \<Rightarrow> session \<Rightarrow> session" where
  "handle_open f s =
     (case DecodeOpen f of
        Inl e \<Rightarrow> snd (writeMessage (ID f) (''invalid open request: '' @ error_text e) s)
      | Inr req \<Rightarrow>
          (case alloc ((newStream (or_RequestID req))\<lparr>st_request := req\<rparr>) s of
             (r, s1) \<Rightarrow>
               if ss_closed s1 then forceClose r ErrClosed s1
               else dispatch r (s1\<lparr>ss_streams := gm_set (or_RequestID req) r (ss_streams s1)\<rparr>)))"

definition handle_ack :: "Frame \<Rightarrow> session \<Rightarrow> session" where
  "handle_ack f s =
     (case DecodeJSON json_Ack f of
        Inl e \<Rightarrow> (shutdown (Wrapped ''decode open acknowledgement: '' e) s)\<lparr>ss_rpc := RStopped\<rparr>
      | Inr a \<Rightarrow>
          (case lookup (ID f) s of
             None \<Rightarrow> s
           | Some r \<Rightarrow>
               if length (st_ack (deref s r)) < 1 then upd r (\<lambda>st. st\<lparr>st_ack := st_ack st @ [a]\<rparr>) s else s))"

definition handle_data :: "Frame \<Rightarrow> session \<Rightarrow> session" where
  "handle_data f s =
     (case lookup (ID f) s of
        None \<Rightarrow> snd (writeFrame \<lparr>Type = FrameClose, ID = ID f, Payload = []\<rparr> s)
      | Some r \<Rightarrow> s\<lparr>ss_rpc := RDeliver r (Payload f)\<rparr>)"

definition handle_close :: "Frame \<Rightarrow> session \<Rightarrow> session" where
  "handle_close f s = (case lookup (ID f) s of None \<Rightarrow> s | Some r \<Rightarrow> upd r Stream_remoteClose s)"

definition handle_error :: "Frame \<Rightarrow> session \<Rightarrow> session" where
  "handle_error f s =
     (let m = (case DecodeJSON json_ErrorMessage f of Inr m \<Rightarrow> em_Message m | Inl _ \<Rightarrow> []) in
      case lookup (ID f) s of None \<Rightarrow> s | Some r \<Rightarrow> forceClose r (Msg m) s)"

definition handle_control :: "Frame \<Rightarrow> session \<Rightarrow> session" where
  "handle_control f s =
     (if \<not> ss_control s
      then (shutdown (Msg (''unexpected control frame '' @ show_nat (unat (Type f)))) s)\<lparr>ss_rpc := RStopped\<rparr>
      else s\<lparr>ss_ctl := ss_ctl s @ [f]\<rparr>)"

definition handle_frame :: "Frame \<Rightarrow> session \<Rightarrow> session" where
  "handle_frame f s =
     (if Type f = FrameOpen then handle_open f s
      else if Type f = FrameOpenAck then handle_ack f s
      else if Type f = FrameData then handle_data f s
      else if Type f = FrameClose then handle_close f s
      else if Type f = FrameError then handle_error f s
      else handle_control f s)"

definition deliver_outcome :: "nat \<Rightarrow> delivery \<Rightarrow> session \<Rightarrow> session" where
  "deliver_outcome r d s =
     (case d of
        Delivered st \<Rightarrow> (upd r (\<lambda>_. st) s)\<lparr>ss_rpc := RIdle\<rparr>
      | Refused e \<Rightarrow> (forceClose r e s)\<lparr>ss_rpc := RIdle\<rparr>
      | DeliverPanic \<Rightarrow> s\<lparr>ss_rpc := RPanicked\<rparr>)"

definition readLoop_step :: "session \<Rightarrow> session list" where
  "readLoop_step s =
     (case ss_rpc s of
        RIdle \<Rightarrow>
          (case ss_conn s of
             None \<Rightarrow> []
           | Some c \<Rightarrow>
               (case ReadFrame c of
                  (Inl e, c') \<Rightarrow> [read_end e (s\<lparr>ss_conn := Some c'\<rparr>)]
                | (Inr f, c') \<Rightarrow> [handle_frame f (s\<lparr>ss_conn := Some c'\<rparr>)]))
      | RDeliver r data \<Rightarrow>
          map (\<lambda>d. deliver_outcome r d s) (Stream_deliver (ss_BufferSize s) data (deref s r))
      | RStopped \<Rightarrow> []
      | RPanicked \<Rightarrow> [])"

section \<open>Closing the session\<close>

definition conn_Close :: "conn \<Rightarrow> conn" where
  "conn_Close c = c\<lparr>rbuf := [], rend := ErrClosed\<rparr>"

text \<open>\<open>Close\<close>, given the error \<open>conn.Close\<close> returns.\<close>

definition Session_Close :: "error option \<Rightarrow> session \<Rightarrow> error option \<times> session" where
  "Session_Close ce s =
     (let s1 = shutdown ErrClosed s in
      case ss_conn s1 of
        None \<Rightarrow> (None, s1)
      | Some c \<Rightarrow>
          (case ce of
             None \<Rightarrow> None
           | Some e \<Rightarrow> if errors_Is e ErrClosed then None else Some e,
           s1\<lparr>ss_conn := Some (conn_Close c)\<rparr>))"

end
