(* ===== verification/SessionInv.thy ===== *)
theory SessionInv
  imports Session
begin

text \<open>
  The invariant of a session and its streams, and that every operation of the session layer
  keeps it, whatever the interleaving: the step relation \<open>sess_step\<close> has one rule per operation
  a goroutine may run next, and \<open>sess\<close> instantiates the transition-system interface with it.
\<close>

section \<open>The invariant\<close>

definition stream_ok :: "nat \<Rightarrow> stream \<Rightarrow> bool" where
  "stream_ok cap st \<longleftrightarrow>
     st_closed st = st_closeOnce st \<and> st_done st = st_closeOnce st \<and>
     (st_closeOnce st \<longrightarrow> st_readErr st \<noteq> None \<and> st_writeErr st \<noteq> None \<and> st_remoteEOF st) \<and>
     (\<not> st_closeOnce st \<longrightarrow> st_readErr st = None \<and> st_writeErr st = None) \<and>
     st_readsClosed st = st_remoteEOF st \<and>
     length (st_reads st) \<le> cap \<and> [] \<notin> set (st_reads st) \<and> length (st_ack st) \<le> 1"

definition live_refs :: "session \<Rightarrow> nat set" where
  "live_refs s = set (ss_incoming s) \<union> set (ss_waiting s) \<union> set (ss_handled s)
     \<union> (case ss_rpc s of RDeliver r _ \<Rightarrow> {r} | _ \<Rightarrow> {})"

definition core_ok :: "session \<Rightarrow> bool" where
  "core_ok s \<longleftrightarrow>
     list_all (stream_ok (ss_BufferSize s)) (ss_heap s) \<and>
     gm_ok (ss_streams s) \<and>
     (\<forall>(i, r) \<in> set (ss_streams s).
        r < length (ss_heap s) \<and> st_id (deref s r) = i \<and> \<not> st_closeOnce (deref s r)) \<and>
     (\<forall>r \<in> live_refs s. r < length (ss_heap s)) \<and>
     length (ss_incoming s) \<le> incoming_cap \<and> 0 < ss_BufferSize s"

definition flags_ok :: "session \<Rightarrow> bool" where
  "flags_ok s \<longleftrightarrow> ss_done s = ss_closed s \<and> (ss_err s \<noteq> None) = ss_closed s
     \<and> (ss_closed s \<longrightarrow> ss_streams s = [])"

definition sess_ok :: "session \<Rightarrow> bool" where
  "sess_ok s \<longleftrightarrow> core_ok s \<and> flags_ok s"

lemma core_okD:
  assumes "core_ok s"
  shows core_heap: "list_all (stream_ok (ss_BufferSize s)) (ss_heap s)"
    and core_map: "gm_ok (ss_streams s)"
    and core_entry: "(i, r) \<in> set (ss_streams s) \<Longrightarrow>
      r < length (ss_heap s) \<and> st_id (deref s r) = i \<and> \<not> st_closeOnce (deref s r)"
    and core_refs: "r \<in> live_refs s \<Longrightarrow> r < length (ss_heap s)"
    and core_incoming: "length (ss_incoming s) \<le> incoming_cap"
    and core_buf: "0 < ss_BufferSize s"
    and core_stream: "r < length (ss_heap s) \<Longrightarrow> stream_ok (ss_BufferSize s) (deref s r)"
  using assms by (auto simp: core_ok_def list_all_length)

lemma lookup_ok:
  assumes "core_ok s" "lookup i s = Some r"
  shows "r < length (ss_heap s)" "st_id (deref s r) = i" "\<not> st_closeOnce (deref s r)"
  using core_entry [OF assms(1), of i r] assms(2) by (auto simp: lookup_def dest: gm_get_in)

section \<open>What the operations leave alone\<close>

lemma upd_sel [stream_simps]:
  "ss_streams (upd r f s) = ss_streams s" "ss_incoming (upd r f s) = ss_incoming s"
  "ss_waiting (upd r f s) = ss_waiting s" "ss_handled (upd r f s) = ss_handled s"
  "ss_rpc (upd r f s) = ss_rpc s" "ss_closed (upd r f s) = ss_closed s" "ss_done (upd r f s) = ss_done s"
  "ss_err (upd r f s) = ss_err s" "ss_BufferSize (upd r f s) = ss_BufferSize s"
  "ss_conn (upd r f s) = ss_conn s" "ss_nextID (upd r f s) = ss_nextID s"
  "length (ss_heap (upd r f s)) = length (ss_heap s)" "ss_ctl (upd r f s) = ss_ctl s"
  "ss_control (upd r f s) = ss_control s" "ss_heap (upd r f s) = (ss_heap s)[r := f (deref s r)]"
  by (simp_all add: upd_def)

lemma unregister_sel [stream_simps]:
  "ss_heap (unregister r s) = ss_heap s" "ss_incoming (unregister r s) = ss_incoming s"
  "ss_waiting (unregister r s) = ss_waiting s" "ss_handled (unregister r s) = ss_handled s"
  "ss_rpc (unregister r s) = ss_rpc s" "ss_closed (unregister r s) = ss_closed s"
  "ss_done (unregister r s) = ss_done s" "ss_err (unregister r s) = ss_err s"
  "ss_BufferSize (unregister r s) = ss_BufferSize s" "ss_conn (unregister r s) = ss_conn s"
  "ss_nextID (unregister r s) = ss_nextID s" "ss_ctl (unregister r s) = ss_ctl s"
  "ss_control (unregister r s) = ss_control s"
  by (simp_all add: unregister_def Let_def)

lemma forceClose_sel [stream_simps]:
  "ss_incoming (forceClose r e s) = ss_incoming s" "ss_waiting (forceClose r e s) = ss_waiting s"
  "ss_handled (forceClose r e s) = ss_handled s" "ss_rpc (forceClose r e s) = ss_rpc s"
  "ss_closed (forceClose r e s) = ss_closed s" "ss_done (forceClose r e s) = ss_done s"
  "ss_err (forceClose r e s) = ss_err s" "ss_BufferSize (forceClose r e s) = ss_BufferSize s"
  "ss_conn (forceClose r e s) = ss_conn s" "ss_nextID (forceClose r e s) = ss_nextID s"
  "length (ss_heap (forceClose r e s)) = length (ss_heap s)" "ss_ctl (forceClose r e s) = ss_ctl s"
  "ss_control (forceClose r e s) = ss_control s"
  by (simp_all add: forceClose_def stream_simps)

lemma forceClose_heap:
  "ss_heap (forceClose r e s) =
     (if st_closeOnce (deref s r) then ss_heap s else (ss_heap s)[r := close_stream e (deref s r)])"
  by (simp add: forceClose_def stream_simps)

lemma live_refs_cong [stream_simps]:
  "live_refs (upd r f s) = live_refs s" "live_refs (unregister r s) = live_refs s"
  "live_refs (forceClose r e s) = live_refs s"
  by (simp_all add: live_refs_def stream_simps)

lemma close_stream_ok: "stream_ok cap st \<Longrightarrow> stream_ok cap (close_stream e st)"
  by (auto simp: stream_ok_def close_stream_def split: option.splits)

lemma close_stream_sel [simp]:
  "st_id (close_stream e st) = st_id st" "st_closeOnce (close_stream e st)" "st_done (close_stream e st)"
  by (simp_all add: close_stream_def)

section \<open>Preservation: one lemma per operation\<close>

lemma core_upd:
  assumes "core_ok s" and "r < length (ss_heap s)"
    and "stream_ok (ss_BufferSize s) (f (deref s r))" and "st_id (f (deref s r)) = st_id (deref s r)"
    and "st_closeOnce (f (deref s r)) = st_closeOnce (deref s r)"
  shows "core_ok (upd r f s)"
proof -
  have heap: "list_all (stream_ok (ss_BufferSize s)) (ss_heap (upd r f s))"
    using core_heap [OF assms(1)] assms(3) by (simp add: stream_simps list_all_update)
  have entry: "r' < length (ss_heap s) \<and> st_id (deref (upd r f s) r') = i \<and> \<not> st_closeOnce (deref (upd r f s) r')"
    if "(i, r') \<in> set (ss_streams s)" for i r'
    using core_entry [OF assms(1) that] assms(2,4,5) by (cases "r' = r") (auto simp: stream_simps)
  from heap entry show ?thesis
    using core_map [OF assms(1)] core_refs [OF assms(1)] core_incoming [OF assms(1)] core_buf [OF assms(1)]
    unfolding core_ok_def by (auto simp only: stream_simps length_list_update)
qed

lemma core_unregister: "core_ok s \<Longrightarrow> core_ok (unregister r s)"
  unfolding unregister_def Let_def
  by (auto simp: core_ok_def live_refs_def gm_del_def)

lemma forceClose_streams:
  assumes "core_ok s" and "r < length (ss_heap s)"
  shows "ss_streams (forceClose r e s) = filter (\<lambda>x. snd x \<noteq> r) (ss_streams s)"
proof (cases "st_closeOnce (deref s r)")
  case True
  then have "\<forall>x \<in> set (ss_streams s). snd x \<noteq> r"
    using core_entry [OF assms(1)] by auto
  then have "filter (\<lambda>x. snd x \<noteq> r) (ss_streams s) = ss_streams s"
    by (simp add: filter_id_conv)
  with True show ?thesis by (simp add: forceClose_def)
next
  case False
  let ?i = "st_id (deref s r)"
  have key: "fst x = ?i \<longleftrightarrow> snd x = r" if "x \<in> set (ss_streams s)" "gm_get (ss_streams s) ?i = Some r" for x
  proof
    assume "fst x = ?i"
    then show "snd x = r"
      using that gm_in_get [OF core_map [OF assms(1)], of ?i "snd x"] by (cases x) auto
  next
    assume "snd x = r"
    then show "fst x = ?i" using that core_entry [OF assms(1), of "fst x" r] by (cases x) auto
  qed
  have none: "snd x \<noteq> r" if "x \<in> set (ss_streams s)" "gm_get (ss_streams s) ?i \<noteq> Some r" for x
  proof
    assume "snd x = r"
    then have "fst x = ?i" using that core_entry [OF assms(1), of "fst x" r] by (cases x) auto
    then show False
      using that gm_in_get [OF core_map [OF assms(1)], of ?i r] \<open>snd x = r\<close> by (cases x) auto
  qed
  from False assms(2) show ?thesis
    by (auto simp: forceClose_def unregister_def Let_def stream_simps gm_del_def
        intro!: filter_cong sym [OF filter_True] dest: key none)
qed

lemma core_forceClose:
  assumes "core_ok s" and "r < length (ss_heap s)"
  shows "core_ok (forceClose r e s)"
proof -
  have st: "stream_ok (ss_BufferSize s) (deref s r)" by (rule core_stream [OF assms])
  have heap: "list_all (stream_ok (ss_BufferSize s)) (ss_heap (forceClose r e s))"
    using core_heap [OF assms(1)] close_stream_ok [OF st]
    by (simp add: forceClose_heap list_all_update)
  have entry: "i' < length (ss_heap s) \<and> st_id (deref (forceClose r e s) i') = k
      \<and> \<not> st_closeOnce (deref (forceClose r e s) i')"
    if "(k, i') \<in> set (ss_streams (forceClose r e s))" for k i'
    using that core_entry [OF assms(1), of k i'] unfolding forceClose_streams [OF assms]
    by (auto simp: forceClose_heap)
  have "gm_ok (ss_streams (forceClose r e s))"
    unfolding forceClose_streams [OF assms] by (simp add: core_map [OF assms(1)])
  with heap entry show ?thesis
    using core_refs [OF assms(1)] core_incoming [OF assms(1)] core_buf [OF assms(1)]
    unfolding core_ok_def by (auto simp: stream_simps)
qed

lemma fold_forceClose:
  assumes "core_ok s" and "\<forall>r \<in> set rs. r < length (ss_heap s)"
  shows "core_ok (fold (\<lambda>r. forceClose r e) rs s)
    \<and> ss_streams (fold (\<lambda>r. forceClose r e) rs s) = filter (\<lambda>x. snd x \<notin> set rs) (ss_streams s)
    \<and> ss_closed (fold (\<lambda>r. forceClose r e) rs s) = ss_closed s
    \<and> ss_done (fold (\<lambda>r. forceClose r e) rs s) = ss_done s
    \<and> ss_err (fold (\<lambda>r. forceClose r e) rs s) = ss_err s
    \<and> ss_conn (fold (\<lambda>r. forceClose r e) rs s) = ss_conn s
    \<and> ss_rpc (fold (\<lambda>r. forceClose r e) rs s) = ss_rpc s
    \<and> length (ss_heap (fold (\<lambda>r. forceClose r e) rs s)) = length (ss_heap s)"
  using assms
proof (induction rs arbitrary: s)
  case (Cons r rs)
  have c: "core_ok (forceClose r e s)" using Cons.prems by (intro core_forceClose) auto
  have "\<forall>r' \<in> set rs. r' < length (ss_heap (forceClose r e s))"
    using Cons.prems by (auto simp: stream_simps)
  from Cons.IH [OF c this] show ?case
    using Cons.prems by (simp add: stream_simps forceClose_streams conj_commute)
qed simp

lemma core_closed_flags: "core_ok s \<Longrightarrow> core_ok (s\<lparr>ss_closed := b, ss_err := e, ss_done := d\<rparr>)"
  by (auto simp: core_ok_def live_refs_def)

lemma shutdown_spec:
  assumes "core_ok s" and "\<not> ss_closed s"
  shows "core_ok (shutdown e s)" "ss_streams (shutdown e s) = []" "ss_closed (shutdown e s)"
    "ss_done (shutdown e s)" "ss_err (shutdown e s) = Some e" "ss_conn (shutdown e s) = ss_conn s"
    "ss_rpc (shutdown e s) = ss_rpc s" "length (ss_heap (shutdown e s)) = length (ss_heap s)"
proof -
  let ?t = "s\<lparr>ss_closed := True, ss_err := Some e, ss_done := True\<rparr>"
  let ?rs = "map snd (ss_streams s)"
  have c: "core_ok ?t" by (rule core_closed_flags [OF assms(1)])
  have b: "\<forall>r \<in> set ?rs. r < length (ss_heap ?t)"
    using core_entry [OF assms(1)] by auto
  note f = fold_forceClose [OF c b, of e]
  have "filter (\<lambda>x. snd x \<notin> set ?rs) (ss_streams ?t) = []"
    by (auto simp: filter_empty_conv)
  with f assms(2) show "core_ok (shutdown e s)" "ss_streams (shutdown e s) = []" "ss_closed (shutdown e s)"
    "ss_done (shutdown e s)" "ss_err (shutdown e s) = Some e" "ss_conn (shutdown e s) = ss_conn s"
    "ss_rpc (shutdown e s) = ss_rpc s" "length (ss_heap (shutdown e s)) = length (ss_heap s)"
    by (auto simp: shutdown_def)
qed

lemma sess_shutdown: "sess_ok s \<Longrightarrow> sess_ok (shutdown e s)"
  using shutdown_spec [of s e]
  by (cases "ss_closed s") (auto simp: sess_ok_def flags_ok_def, simp_all add: shutdown_def)

lemma flags_forceClose:
  "core_ok s \<Longrightarrow> flags_ok s \<Longrightarrow> r < length (ss_heap s) \<Longrightarrow> flags_ok (forceClose r e s)"
  by (auto simp: flags_ok_def stream_simps forceClose_streams)

lemma sess_forceClose: "sess_ok s \<Longrightarrow> r < length (ss_heap s) \<Longrightarrow> sess_ok (forceClose r e s)"
  by (simp add: sess_ok_def core_forceClose flags_forceClose)

lemma sess_unregister: "sess_ok s \<Longrightarrow> sess_ok (unregister r s)"
  using core_unregister [of s r]
  by (auto simp: sess_ok_def flags_ok_def stream_simps) (auto simp: unregister_def Let_def gm_del_def split: if_splits)

lemma sess_upd:
  assumes "sess_ok s" and "r < length (ss_heap s)"
    and "stream_ok (ss_BufferSize s) (f (deref s r))" and "st_id (f (deref s r)) = st_id (deref s r)"
    and "st_closeOnce (f (deref s r)) = st_closeOnce (deref s r)"
  shows "sess_ok (upd r f s)"
  using assms core_upd [of s r f] by (auto simp: sess_ok_def flags_ok_def stream_simps)

text \<open>Fields that carry no obligation.\<close>

lemma sess_free [simp]:
  "sess_ok (s\<lparr>ss_conn := c\<rparr>) = sess_ok s" "sess_ok (s\<lparr>ss_nextID := n\<rparr>) = sess_ok s"
  "sess_ok (s\<lparr>ss_control := b\<rparr>) = sess_ok s" "sess_ok (s\<lparr>ss_ctl := fs\<rparr>) = sess_ok s"
  "sess_ok (s\<lparr>ss_dispatching := b\<rparr>) = sess_ok s"
  by (simp_all add: sess_ok_def core_ok_def flags_ok_def live_refs_def)

lemma sess_rpc:
  assumes "sess_ok s" and "\<And>r d. pc = RDeliver r d \<Longrightarrow> r < length (ss_heap s)"
  shows "sess_ok (s\<lparr>ss_rpc := pc\<rparr>)"
  using assms unfolding sess_ok_def core_ok_def flags_ok_def live_refs_def
  by (auto split: read_pc.splits)

lemma newStream_ok: "stream_ok cap (newStream i)" "stream_ok cap ((newStream i)\<lparr>st_request := q\<rparr>)"
  by (simp_all add: newStream_def stream_ok_def)

lemma newStream_sel [simp]:
  "st_id (newStream i) = i" "\<not> st_closeOnce (newStream i)" "\<not> st_done (newStream i)" "st_ack (newStream i) = []"
  by (simp_all add: newStream_def)

lemma sess_alloc:
  assumes "sess_ok s" and "stream_ok (ss_BufferSize s) st" and "alloc st s = (r, s')"
  shows "sess_ok s'" "r = length (ss_heap s)" "ss_heap s' = ss_heap s @ [st]" "deref s' r = st"
    "ss_streams s' = ss_streams s" "ss_closed s' = ss_closed s" "ss_conn s' = ss_conn s"
    "ss_BufferSize s' = ss_BufferSize s"
proof -
  have s': "s' = s\<lparr>ss_heap := ss_heap s @ [st]\<rparr>" and r: "r = length (ss_heap s)"
    using assms(3) by (auto simp: alloc_def)
  have c: "core_ok s" using assms(1) by (simp add: sess_ok_def)
  have entry: "r' < Suc (length (ss_heap s)) \<and> st_id ((ss_heap s @ [st]) ! r') = i \<and> \<not> st_closeOnce ((ss_heap s @ [st]) ! r')"
    if "(i, r') \<in> set (ss_streams s)" for i r'
    using core_entry [OF c that] by (simp add: nth_append)
  have refs: "r' < Suc (length (ss_heap s))" if "r' \<in> live_refs s" for r'
    using core_refs [OF c that] by simp
  have lr: "live_refs s' = live_refs s" by (simp add: s' live_refs_def)
  have "core_ok s'"
    using core_heap [OF c] core_map [OF c] core_incoming [OF c] core_buf [OF c] assms(2) entry refs
    unfolding core_ok_def lr by (auto simp: s')
  then show "sess_ok s'" using assms(1) by (simp add: sess_ok_def flags_ok_def s')
  show "r = length (ss_heap s)" "ss_heap s' = ss_heap s @ [st]" "deref s' r = st"
    "ss_streams s' = ss_streams s" "ss_closed s' = ss_closed s" "ss_conn s' = ss_conn s"
    "ss_BufferSize s' = ss_BufferSize s"
    by (simp_all add: s' r)
qed

lemma sess_register:
  assumes "sess_ok s" "r < length (ss_heap s)" "st_id (deref s r) = i" "\<not> st_closeOnce (deref s r)" "\<not> ss_closed s"
  shows "sess_ok (s\<lparr>ss_streams := gm_set i r (ss_streams s)\<rparr>)"
proof -
  have c: "core_ok s" using assms(1) by (simp add: sess_ok_def)
  have entry: "r' < length (ss_heap s) \<and> st_id (deref s r') = k \<and> \<not> st_closeOnce (deref s r')"
    if "(k, r') \<in> set (gm_set i r (ss_streams s))" for k r'
    using gm_set_in [OF that] core_entry [OF c, of k r'] assms(2-4) by auto
  have "core_ok (s\<lparr>ss_streams := gm_set i r (ss_streams s)\<rparr>)"
    using core_heap [OF c] core_map [OF c] core_incoming [OF c] core_buf [OF c] core_refs [OF c] entry
    unfolding core_ok_def live_refs_def by auto
  then show ?thesis using assms(1,5) by (simp add: sess_ok_def flags_ok_def)
qed

lemma writeFrame_frame:
  assumes "writeFrame f s = (x, s')" shows "\<exists>c. s' = s\<lparr>ss_conn := c\<rparr>"
proof -
  have "\<exists>c. s = s\<lparr>ss_conn := c\<rparr>" by (rule exI [of _ "ss_conn s"]) simp
  then show ?thesis
    using assms by (auto simp: writeFrame_def split: if_splits option.splits prod.splits)
qed

lemma writeFrameJSON_frame:
  assumes "writeFrameJSON t i v s = (x, s')" shows "\<exists>c. s' = s\<lparr>ss_conn := c\<rparr>"
proof -
  have "\<exists>c. s = s\<lparr>ss_conn := c\<rparr>" by (rule exI [of _ "ss_conn s"]) simp
  then show ?thesis
    using assms by (auto simp: writeFrameJSON_def split: if_splits option.splits prod.splits)
qed

lemma sess_writeFrame: "sess_ok s \<Longrightarrow> writeFrame f s = (x, s') \<Longrightarrow> sess_ok s' \<and> ss_heap s' = ss_heap s"
  using writeFrame_frame [of f s x s'] by auto

lemma sess_writeFrameJSON:
  "sess_ok s \<Longrightarrow> writeFrameJSON t i v s = (x, s') \<Longrightarrow> sess_ok s' \<and> ss_heap s' = ss_heap s"
  using writeFrameJSON_frame [of t i v s x s'] by auto

lemma sess_Accept:
  assumes "sess_ok s" "r < length (ss_heap s)" "Stream_Accept r s = (x, s')" shows "sess_ok s'"
proof (cases "st_done (deref s r)")
  case False
  let ?a = "Ack_json \<lparr>ack_OK = True, ack_Error = [], ack_ExitID = st_remoteExit (deref s r), ack_Message = []\<rparr>"
  obtain y t where w: "writeFrameJSON FrameOpenAck (st_id (deref s r)) ?a s = (y, t)" by fastforce
  note t = sess_writeFrameJSON [OF assms(1) w]
  with False assms(2,3) w show ?thesis
    by (cases y) (auto simp: Stream_Accept_def intro: sess_forceClose)
qed (use assms in \<open>simp add: Stream_Accept_def\<close>)

lemma sess_Reject:
  assumes "sess_ok s" "r < length (ss_heap s)" "Stream_Reject r m s = (x, s')" shows "sess_ok s'"
proof -
  let ?a = "Ack_json \<lparr>ack_OK = False, ack_Error = m, ack_ExitID = [], ack_Message = []\<rparr>"
  obtain y t where w: "writeFrameJSON FrameOpenAck (st_id (deref s r)) ?a s = (y, t)" by fastforce
  note t = sess_writeFrameJSON [OF assms(1) w]
  with assms(2,3) w show ?thesis
    by (auto simp: Stream_Reject_def intro: sess_forceClose)
qed

lemma write_chunks_Nil [simp]: "write_chunks r [] s = (0, None, s)"
  by (simp add: write_chunks.simps)

lemma sess_write_chunks:
  "sess_ok s \<Longrightarrow> r < length (ss_heap s) \<Longrightarrow> write_chunks r p s = (n, x, s') \<Longrightarrow> sess_ok s'"
proof (induction r p s arbitrary: n x s' rule: write_chunks.induct)
  case (1 r p s)
  show ?case
  proof (cases "p = []")
    case True
    with 1 show ?thesis by simp
  next
    case False
    obtain y t where w: "writeFrame \<lparr>Type = FrameData, ID = st_id (deref s r), Payload = take MaxDataSize p\<rparr> s = (y, t)"
      by fastforce
    have t: "sess_ok t" "ss_heap t = ss_heap s" using sess_writeFrame [OF 1(2) w] by auto
    show ?thesis
    proof (cases y)
      case None
      obtain m z u where u: "write_chunks r (drop MaxDataSize p) t = (m, z, u)" by (cases "write_chunks r (drop MaxDataSize p) t")
      have "sess_ok u"
        using 1(1) [OF False w [symmetric] None t(1) _ u] 1(3) t(2) by simp
      then show ?thesis
        using 1(4) False None by (simp add: write_chunks.simps [of r p s] w u)
    next
      case (Some e)
      then show ?thesis
        using 1(3,4) False t sess_forceClose [OF t(1)] by (auto simp: write_chunks.simps [of r p s] w)
    qed
  qed
qed

lemma sess_Write:
  assumes "sess_ok s" "r < length (ss_heap s)" "Stream_Write r p s = (n, x, s')" shows "sess_ok s'"
  using assms sess_write_chunks [OF assms(1,2), of p n x s']
  by (auto simp: Stream_Write_def split: if_splits option.splits)

lemma sess_CloseWrite:
  assumes "sess_ok s" "r < length (ss_heap s)" "Stream_CloseWrite r s = (x, s')" shows "sess_ok s'"
proof (cases "st_closed (deref s r) \<or> st_localEOF (deref s r)")
  case False
  have "stream_ok (ss_BufferSize s) (deref s r)"
    using assms by (simp add: core_stream sess_ok_def)
  then have "sess_ok (upd r (\<lambda>st. st\<lparr>st_localEOF := True\<rparr>) s)"
    using assms by (intro sess_upd) (auto simp: stream_ok_def)
  with False assms(3) show ?thesis
    by (auto simp: Stream_CloseWrite_def dest: sess_writeFrame)
qed (use assms in \<open>auto simp: Stream_CloseWrite_def\<close>)

lemma read_fill_ok:
  assumes "stream_ok cap st" "(x, st') \<in> set (read_fill n (st_reads st) st)"
  shows "stream_ok cap st' \<and> st_id st' = st_id st \<and> st_closeOnce st' = st_closeOnce st"
  using assms by (auto simp: read_fill.simps [of n "st_reads st" st] read_take_def stream_ok_def
      split: option.splits list.splits if_splits)

lemma Stream_Read_ok:
  assumes "stream_ok cap st" "(x, st') \<in> set (Stream_Read n st)"
  shows "stream_ok cap st' \<and> st_id st' = st_id st \<and> st_closeOnce st' = st_closeOnce st"
  using assms read_fill_ok [OF assms(1), of x st' n]
  by (auto simp: Stream_Read_def read_take_def stream_ok_def split: if_splits)

lemma sess_Read:
  assumes "sess_ok s" "r < length (ss_heap s)" "(x, st') \<in> set (Stream_Read n (deref s r))"
  shows "sess_ok (upd r (\<lambda>_. st') s)"
  using assms Stream_Read_ok [OF _ assms(3), of "ss_BufferSize s"]
  by (intro sess_upd) (auto simp: sess_ok_def core_stream)

text \<open>Opening.\<close>

lemma sess_removeStream: "sess_ok s \<Longrightarrow> r < length (ss_heap s) \<Longrightarrow> sess_ok (removeStream r e s)"
  by (auto simp: removeStream_def sess_unregister stream_simps intro!: sess_forceClose split: option.splits)

lemma removeStream_heap [stream_simps]: "length (ss_heap (removeStream r e s)) = length (ss_heap s)"
  by (simp add: removeStream_def stream_simps split: option.splits)

lemma sess_Open_send:
  assumes "sess_ok s" and "Open_send req s = (x, s')" shows "sess_ok s'"
proof -
  let ?s1 = "s\<lparr>ss_nextID := ss_nextID s + 1\<rparr>"
  define q i where "q = Open_request req (ss_nextID ?s1)" and "i = or_RequestID q"
  obtain r s2 where al: "alloc (newStream i) ?s1 = (r, s2)" by fastforce
  have s1: "sess_ok ?s1" using assms(1) by simp
  note a = sess_alloc [OF s1 newStream_ok(1) al]
  have op: "Open_send req s =
     (if ss_closed s2 then (Inl ErrClosed, s2)
      else case ss_conn s2 of
        None \<Rightarrow> (Inl ErrClosed, s2)
      | Some c \<Rightarrow>
          let s3 = s2\<lparr>ss_streams := gm_set i r (ss_streams s2)\<rparr> in
          (case Writer_WriteJSON FrameOpen i (OpenRequest_json q) c of
             (Some e, c') \<Rightarrow> (Inl e, forceClose r e (removeStream r None (s3\<lparr>ss_conn := Some c'\<rparr>)))
           | (None, c') \<Rightarrow> (Inr r, s3\<lparr>ss_conn := Some c'\<rparr>)))"
    using al by (simp only: Open_send_def Let_def q_def [symmetric] i_def [symmetric] prod.case)
  show ?thesis
  proof (cases "ss_closed s2 \<or> ss_conn s2 = None")
    case True
    then show ?thesis using assms(2) a(1) unfolding op by (cases "ss_closed s2") auto
  next
    case False
    then obtain c where c: "ss_conn s2 = Some c" and nc: "\<not> ss_closed s2" by auto
    let ?s3 = "s2\<lparr>ss_streams := gm_set i r (ss_streams s2)\<rparr>"
    have rl: "r < length (ss_heap s2)" using a(2,3) by simp
    have s3: "sess_ok ?s3" by (rule sess_register) (use a nc rl in simp_all)
    obtain y c' where w: "Writer_WriteJSON FrameOpen i (OpenRequest_json q) c = (y, c')" by fastforce
    have rm: "sess_ok (removeStream r None (?s3\<lparr>ss_conn := Some c'\<rparr>))"
      by (rule sess_removeStream) (use s3 rl in simp_all)
    have "sess_ok (forceClose r e (removeStream r None (?s3\<lparr>ss_conn := Some c'\<rparr>)))" for e
      by (rule sess_forceClose [OF rm]) (use rl in \<open>simp add: stream_simps\<close>)
    with s3 assms(2) c nc w show ?thesis unfolding op by (cases y) auto
  qed
qed

lemma sess_Open_select:
  assumes "sess_ok s" and r: "r < length (ss_heap s)" and "(x, s') \<in> set (Open_select ev r s)"
  shows "sess_ok s'"
proof (cases ev)
  case AckArrived
  then obtain a as where a: "st_ack (deref s r) = a # as"
    using assms(3) by (cases "st_ack (deref s r)") (auto simp: Open_select_def)
  have st: "stream_ok (ss_BufferSize s) (deref s r)" using assms by (simp add: sess_ok_def core_stream)
  let ?s1 = "upd r (\<lambda>st. st\<lparr>st_ack := as\<rparr>) s"
  have s1: "sess_ok ?s1"
    using assms st a by (intro sess_upd) (auto simp: stream_ok_def)
  have r1: "r < length (ss_heap ?s1)" using r by (simp add: stream_simps)
  have d1: "stream_ok (ss_BufferSize ?s1) (deref ?s1 r)" using s1 r1 by (simp add: sess_ok_def core_stream)
  have "sess_ok (upd r (\<lambda>st. st\<lparr>st_remoteExit := ack_ExitID a\<rparr>) ?s1)"
    by (rule sess_upd [OF s1 r1]) (use d1 in \<open>auto simp: stream_ok_def\<close>)
  moreover have "sess_ok (forceClose r e (removeStream r None ?s1))" for e
    by (rule sess_forceClose [OF sess_removeStream [OF s1 r1]]) (use r1 in \<open>simp add: stream_simps\<close>)
  ultimately show ?thesis
    using assms(3) AckArrived a by (auto simp: Open_select_def Let_def split: if_splits)
next
  case StreamDone
  then show ?thesis
    using assms sess_removeStream [OF assms(1) r] by (auto simp: Open_select_def split: if_splits)
next
  case (CtxDone e)
  have "sess_ok (forceClose r e (removeStream r None s))"
    by (rule sess_forceClose [OF sess_removeStream [OF assms(1) r]]) (use r in \<open>simp add: stream_simps\<close>)
  with CtxDone assms(3) show ?thesis by (simp add: Open_select_def)
next
  case SessionDone
  with assms show ?thesis by (auto simp: Open_select_def split: if_splits)
qed

text \<open>Dispatch.\<close>

lemma sess_queues:
  assumes "sess_ok s" and "set q1 \<union> set q2 \<union> set q3 \<subseteq> {r. r < length (ss_heap s)}"
    and "length q1 \<le> incoming_cap"
  shows "sess_ok (s\<lparr>ss_incoming := q1, ss_waiting := q2, ss_handled := q3\<rparr>)"
  using assms unfolding sess_ok_def core_ok_def flags_ok_def live_refs_def by auto

lemma sess_queue_refs:
  assumes "sess_ok s"
  shows "set (ss_incoming s) \<union> set (ss_waiting s) \<union> set (ss_handled s) \<subseteq> {r. r < length (ss_heap s)}"
    and "length (ss_incoming s) \<le> incoming_cap"
  using assms by (auto simp: sess_ok_def core_ok_def live_refs_def)

lemma sess_dispatch: "sess_ok s \<Longrightarrow> r < length (ss_heap s) \<Longrightarrow> sess_ok (dispatch r s)"
  using sess_queues [of s "ss_incoming s @ [r]" "ss_waiting s" "ss_handled s"]
    sess_queues [of s "ss_incoming s" "ss_waiting s @ [r]" "ss_handled s"] sess_queue_refs [of s]
  by (auto simp: dispatch_def)

lemma sess_dispatch_waiting:
  assumes "sess_ok s" "s' \<in> set (dispatch_waiting k s)" shows "sess_ok s'"
proof -
  let ?w = "take k (ss_waiting s) @ drop (Suc k) (ss_waiting s)"
  let ?r = "ss_waiting s ! k"
  have k: "k < length (ss_waiting s)" using assms(2) by (auto simp: dispatch_waiting_def split: if_splits)
  have w: "set ?w \<subseteq> set (ss_waiting s)" by (auto dest: in_set_takeD in_set_dropD)
  have r: "?r < length (ss_heap s)" using sess_queue_refs(1) [OF assms(1)] k by (auto simp: subset_iff)
  have s1: "sess_ok (s\<lparr>ss_waiting := ?w\<rparr>)"
    using sess_queues [OF assms(1), of "ss_incoming s" ?w "ss_handled s"] sess_queue_refs [OF assms(1)] w
    by auto
  have eq: "s\<lparr>ss_waiting := ?w, ss_incoming := ss_incoming s @ [?r]\<rparr>
    = s\<lparr>ss_incoming := ss_incoming s @ [?r], ss_waiting := ?w, ss_handled := ss_handled s\<rparr>"
    by simp
  have "length (ss_incoming s) < incoming_cap \<Longrightarrow> sess_ok (s\<lparr>ss_waiting := ?w, ss_incoming := ss_incoming s @ [?r]\<rparr>)"
    unfolding eq by (rule sess_queues [OF assms(1)]) (use sess_queue_refs [OF assms(1)] w r in auto)
  with assms(2) k s1 r show ?thesis
    by (auto simp: dispatch_waiting_def Let_def intro: sess_forceClose split: if_splits)
qed

lemma sess_dispatchLoop:
  assumes "sess_ok s" "s' \<in> set (dispatchLoop_step s)" shows "sess_ok s'"
proof (cases "ss_incoming s")
  case Nil
  with assms show ?thesis by (auto simp: dispatchLoop_step_def split: if_splits)
next
  case (Cons r rs)
  note q = sess_queue_refs [OF assms(1)]
  have "sess_ok (s\<lparr>ss_incoming := rs, ss_waiting := ss_waiting s, ss_handled := h\<rparr>)"
    if "set h \<subseteq> insert r (set (ss_handled s))" for h
    by (rule sess_queues [OF assms(1)]) (use q Cons that in auto)
  from this [of "ss_handled s"] this [of "ss_handled s @ [r]"] Cons assms show ?thesis
    by (auto simp: dispatchLoop_step_def split: if_splits)
qed

text \<open>The read loop.\<close>

lemma sess_stop: "sess_ok s \<Longrightarrow> sess_ok (s\<lparr>ss_rpc := RStopped\<rparr>)"
  by (rule sess_rpc) auto

lemma sess_handle_open: "sess_ok s \<Longrightarrow> sess_ok (handle_open f s)"
proof (cases "DecodeOpen f")
  case (Inl e)
  assume "sess_ok s"
  moreover obtain x t where "writeMessage (ID f) (''invalid open request: '' @ error_text e) s = (x, t)" by fastforce
  ultimately show ?thesis
    using Inl sess_writeFrameJSON by (fastforce simp: handle_open_def writeMessage_def)
next
  case (Inr q)
  assume s: "sess_ok s"
  obtain r s1 where al: "alloc ((newStream (or_RequestID q))\<lparr>st_request := q\<rparr>) s = (r, s1)" by fastforce
  note a = sess_alloc [OF s newStream_ok(2) al]
  have r: "r < length (ss_heap s1)" using a(2,3) by simp
  have "sess_ok (s1\<lparr>ss_streams := gm_set (or_RequestID q) r (ss_streams s1)\<rparr>)" if "\<not> ss_closed s1"
    by (rule sess_register) (use a r that in simp_all)
  then show ?thesis
    using Inr al r a(1) by (auto simp: handle_open_def intro!: sess_forceClose sess_dispatch)
qed

lemma lookup_stream:
  assumes "sess_ok s" "lookup i s = Some r"
  shows "r < length (ss_heap s)" "stream_ok (ss_BufferSize s) (deref s r)"
  using assms lookup_ok [of s i r] by (auto simp: sess_ok_def core_stream)

lemma sess_handle_ack: "sess_ok s \<Longrightarrow> sess_ok (handle_ack f s)"
  using lookup_stream [of s "ID f"]
  by (auto simp: handle_ack_def stream_ok_def intro!: sess_stop sess_shutdown sess_upd split: sum.splits option.splits)

lemma sess_handle_data: "sess_ok s \<Longrightarrow> sess_ok (handle_data f s)"
  using lookup_stream [of s "ID f"] sess_writeFrame [of s]
  by (auto simp: handle_data_def intro!: sess_rpc split: option.splits) (metis prod.collapse)

lemma remoteClose_sel [simp]:
  "st_id (Stream_remoteClose st) = st_id st" "st_closeOnce (Stream_remoteClose st) = st_closeOnce st"
  by (simp_all add: Stream_remoteClose_def)

lemma remoteClose_ok: "stream_ok cap st \<Longrightarrow> stream_ok cap (Stream_remoteClose st)"
  by (auto simp: stream_ok_def Stream_remoteClose_def)

lemma sess_handle_close: "sess_ok s \<Longrightarrow> sess_ok (handle_close f s)"
  using lookup_stream [of s "ID f"] remoteClose_ok
  by (auto simp: handle_close_def intro!: sess_upd split: option.splits)

lemma sess_handle_error: "sess_ok s \<Longrightarrow> sess_ok (handle_error f s)"
  using lookup_stream [of s "ID f"]
  by (auto simp: handle_error_def Let_def intro!: sess_forceClose split: option.splits)

lemma sess_handle_control: "sess_ok s \<Longrightarrow> sess_ok (handle_control f s)"
  by (auto simp: handle_control_def intro!: sess_stop sess_shutdown)

lemma sess_handle_frame: "sess_ok s \<Longrightarrow> sess_ok (handle_frame f s)"
  by (simp add: handle_frame_def sess_handle_open sess_handle_ack sess_handle_data sess_handle_close
      sess_handle_error sess_handle_control)

lemma deliver_ok:
  assumes "stream_ok cap st" "Delivered st' \<in> set (Stream_deliver cap d st)"
  shows "stream_ok cap st' \<and> st_id st' = st_id st \<and> st_closeOnce st' = st_closeOnce st"
  using assms by (auto simp: Stream_deliver_def stream_ok_def split: if_splits)

lemma sess_deliver:
  assumes "sess_ok s" "r < length (ss_heap s)" "d \<in> set (Stream_deliver (ss_BufferSize s) data (deref s r))"
  shows "sess_ok (deliver_outcome r d s)"
proof (cases d)
  case (Delivered st')
  have "stream_ok (ss_BufferSize s) (deref s r)" using assms by (simp add: sess_ok_def core_stream)
  from deliver_ok [OF this] Delivered assms show ?thesis
    by (auto simp: deliver_outcome_def intro!: sess_rpc sess_upd)
qed (use assms in \<open>auto simp: deliver_outcome_def intro!: sess_rpc sess_forceClose\<close>)

lemma sess_readLoop:
  assumes "sess_ok s" "s' \<in> set (readLoop_step s)" shows "sess_ok s'"
proof (cases "ss_rpc s")
  case RIdle
  then obtain c where c: "ss_conn s = Some c"
    using assms(2) by (cases "ss_conn s") (auto simp: readLoop_step_def)
  obtain x c' where x: "ReadFrame c = (x, c')" by fastforce
  have "sess_ok (s\<lparr>ss_conn := Some c'\<rparr>)" using assms(1) by simp
  then have "sess_ok (read_end e (s\<lparr>ss_conn := Some c'\<rparr>))" "sess_ok (handle_frame f (s\<lparr>ss_conn := Some c'\<rparr>))" for e f
    by (auto simp: read_end_def intro!: sess_handle_frame sess_stop sess_shutdown simp del: sess_free)
  with assms(2) RIdle c x show ?thesis by (cases x) (auto simp: readLoop_step_def)
next
  case (RDeliver r d)
  then have "r < length (ss_heap s)" using assms(1) by (auto simp: sess_ok_def core_ok_def live_refs_def)
  with RDeliver assms show ?thesis by (auto simp: readLoop_step_def intro: sess_deliver)
qed (use assms in \<open>auto simp: readLoop_step_def\<close>)

lemma sess_Close: "sess_ok s \<Longrightarrow> sess_ok (snd (Session_Close ce s))"
  using sess_shutdown [of s ErrClosed] by (auto simp: Session_Close_def Let_def split: option.splits)

lemma sess_New: "sess_ok (New idle buf)"
  by (auto simp: New_def sess_ok_def core_ok_def flags_ok_def live_refs_def)

lemma sess_Start: "sess_ok s \<Longrightarrow> sess_ok (snd (Start d h s))"
  unfolding Start_def sess_ok_def core_ok_def flags_ok_def live_refs_def
  by (auto split: option.splits sum.splits)

end
