(* ===== verification/SessionProps.thy ===== *)
theory SessionProps
  imports SessionInv
begin

text \<open>
  What the session layer promises its users: the invariant in every interleaving, the end of a
  session for every stream it had, the byte-queue contract of a stream (with the whole path from
  one side's \<open>Write\<close> to the other side's \<open>Read\<close>), the bookkeeping of \<open>Open\<close>, and the ways in
  which a peer or a race can bring the process down.
\<close>

section \<open>Interleavings\<close>

definition sess_init :: "session \<Rightarrow> bool" where
  "sess_init s \<longleftrightarrow> (\<exists>idle buf c h k. s = snd (Start (Some (Inr c)) h (SetControlHandler k (New idle buf))))"

text \<open>One rule per operation that some goroutine may run next.\<close>

inductive sess_step :: "session \<Rightarrow> session \<Rightarrow> bool" where
  step_open: "Open_send req s = (x, t) \<Longrightarrow> sess_step s t"
| step_select: "r < length (ss_heap s) \<Longrightarrow> (x, t) \<in> set (Open_select ev r s) \<Longrightarrow> sess_step s t"
| step_read_loop: "t \<in> set (readLoop_step s) \<Longrightarrow> sess_step s t"
| step_dispatch: "t \<in> set (dispatchLoop_step s) \<Longrightarrow> sess_step s t"
| step_waiting: "t \<in> set (dispatch_waiting k s) \<Longrightarrow> sess_step s t"
| step_accept: "r < length (ss_heap s) \<Longrightarrow> Stream_Accept r s = (x, t) \<Longrightarrow> sess_step s t"
| step_reject: "r < length (ss_heap s) \<Longrightarrow> Stream_Reject r m s = (x, t) \<Longrightarrow> sess_step s t"
| step_read: "r < length (ss_heap s) \<Longrightarrow> (x, st) \<in> set (Stream_Read n (deref s r)) \<Longrightarrow>
    sess_step s (upd r (\<lambda>_. st) s)"
| step_write: "r < length (ss_heap s) \<Longrightarrow> Stream_Write r p s = (n, x, t) \<Longrightarrow> sess_step s t"
| step_close_write: "r < length (ss_heap s) \<Longrightarrow> Stream_CloseWrite r s = (x, t) \<Longrightarrow> sess_step s t"
| step_close: "sess_step s (snd (Session_Close ce s))"
| step_control: "sess_step s (SetControlHandler b s)"
| step_message: "writeFrameJSON ty i v s = (x, t) \<Longrightarrow> sess_step s t"

interpretation sess: transition_system sess_init sess_step .

lemma sess_step_ok: "sess_step s t \<Longrightarrow> sess_ok s \<Longrightarrow> sess_ok t"
proof (induction rule: sess_step.induct)
  case (step_control s b)
  then show ?case by (simp add: SetControlHandler_def)
qed (auto intro: sess_Open_send sess_Open_select sess_readLoop sess_dispatchLoop sess_dispatch_waiting
      sess_Accept sess_Reject sess_Read sess_Write sess_CloseWrite sess_Close dest: sess_writeFrameJSON)

lemma sess_init_ok: "sess_init s \<Longrightarrow> sess_ok s"
  using sess_New sess_Start by (fastforce simp: sess_init_def SetControlHandler_def)

lemma reach_sess_ok: "sess.reach s \<Longrightarrow> sess_ok s"
  by (rule sess.reach_invariant) (auto intro: sess_init_ok sess_step_ok)

section \<open>Writing\<close>

text \<open>A session whose connection takes every write.\<close>

definition healthy :: "session \<Rightarrow> conn \<Rightarrow> bool" where
  "healthy s c \<longleftrightarrow> \<not> ss_closed s \<and> \<not> ss_done s \<and> ss_conn s = Some c \<and> wres c = []"

definition sent :: "Frame list \<Rightarrow> session \<Rightarrow> conn \<Rightarrow> session" where
  "sent fs s c = s\<lparr>ss_conn := Some (c\<lparr>wout := wout c @ concat (map frame_bytes fs)\<rparr>)\<rparr>"

lemma writeFrame_healthy:
  "healthy s c \<Longrightarrow> frame_ok f \<Longrightarrow> writeFrame f s = (None, sent [f] s c)"
  by (simp add: healthy_def writeFrame_def Writer_Write_def WriteFrame_ok sent_def)

lemma healthy_sent:
  "healthy s c \<Longrightarrow> healthy (sent fs s c) (c\<lparr>wout := wout c @ concat (map frame_bytes fs)\<rparr>)"
  by (simp add: healthy_def sent_def)

lemma sent_append: "sent gs (sent fs s c) (c\<lparr>wout := wout c @ concat (map frame_bytes fs)\<rparr>) = sent (fs @ gs) s c"
  by (simp add: sent_def)

lemma sent_Nil: "healthy s c \<Longrightarrow> sent [] s c = s"
  by (simp add: sent_def healthy_def)

lemma sent_heap [simp]: "ss_heap (sent fs s c) = ss_heap s"
  by (simp add: sent_def)

text \<open>The chunks of \<open>Write\<close>.\<close>

function chunks :: "bytes \<Rightarrow> bytes list" where
  "chunks p = (if p = [] then [] else take MaxDataSize p # chunks (drop MaxDataSize p))"
  by pat_completeness auto
termination by (relation "measure length") (auto simp: MaxDataSize_def)

declare chunks.simps [simp del]

lemma chunks_Nil [simp]: "chunks [] = []"
  by (simp add: chunks.simps)

lemma concat_chunks [simp]: "concat (chunks p) = p"
proof (induction p rule: chunks.induct)
  case (1 p)
  then show ?case by (cases "p = []") (simp_all add: chunks.simps [of p])
qed

lemma chunks_bounded: "d \<in> set (chunks p) \<Longrightarrow> d \<noteq> [] \<and> length d \<le> MaxDataSize"
proof (induction p rule: chunks.induct)
  case (1 p)
  then show ?case
    by (cases "p = []") (auto simp: chunks.simps [of p] MaxDataSize_def)
qed

definition data_frame :: "u64 \<Rightarrow> bytes \<Rightarrow> Frame" where
  "data_frame i d = \<lparr>Type = FrameData, ID = i, Payload = d\<rparr>"

lemma data_frame_ok: "length d \<le> MaxDataSize \<Longrightarrow> frame_ok (data_frame i d)"
  by (simp add: frame_ok_def data_frame_def MaxDataSize_def MaxFrameSize_def)

definition close_frame :: "u64 \<Rightarrow> Frame" where
  "close_frame i = \<lparr>Type = FrameClose, ID = i, Payload = []\<rparr>"

lemma close_frame_ok: "frame_ok (close_frame i)"
  by (simp add: frame_ok_def close_frame_def MaxFrameSize_def)

lemma write_chunks_healthy:
  "healthy s c \<Longrightarrow>
   write_chunks r p s = (length p, None, sent (map (data_frame (st_id (deref s r))) (chunks p)) s c)"
proof (induction r p s arbitrary: c rule: write_chunks.induct)
  case (1 r p s)
  show ?case
  proof (cases "p = []")
    case True
    with 1 show ?thesis by (simp add: sent_Nil)
  next
    case False
    let ?i = "st_id (deref s r)"
    let ?f = "data_frame ?i (take MaxDataSize p)"
    let ?c = "c\<lparr>wout := wout c @ concat (map frame_bytes [?f])\<rparr>"
    have f: "frame_ok ?f" by (rule data_frame_ok) simp
    have w: "writeFrame \<lparr>Type = FrameData, ID = ?i, Payload = take MaxDataSize p\<rparr> s = (None, sent [?f] s c)"
      using writeFrame_healthy [OF 1(2) f] by (simp add: data_frame_def)
    have ih: "write_chunks r (drop MaxDataSize p) (sent [?f] s c) =
        (length (drop MaxDataSize p), None, sent (map (data_frame ?i) (chunks (drop MaxDataSize p))) (sent [?f] s c) ?c)"
      using 1(1) [OF False w [symmetric] refl healthy_sent [OF 1(2)]] by simp
    have "sent (map (data_frame ?i) (chunks (drop MaxDataSize p))) (sent [?f] s c) ?c
        = sent (map (data_frame ?i) (chunks p)) s c"
      unfolding sent_append using False by (simp add: chunks.simps [of p])
    then show ?thesis
      using False w ih by (simp add: write_chunks.simps [of r p s])
  qed
qed

section \<open>The byte queue of a stream\<close>

text \<open>The abstract state of a stream's receiving side: the bytes delivered and not yet read.\<close>

definition pending :: "stream \<Rightarrow> bytes" where
  "pending st = st_readBuf st @ concat (st_reads st)"

lemma deliver_pending:
  "Delivered st' \<in> set (Stream_deliver cap d st) \<Longrightarrow> pending st' = pending st @ d"
  by (auto simp: Stream_deliver_def pending_def split: if_splits)

lemma Read_pending:
  assumes "stream_ok cap st" and "(x, st') \<in> set (Stream_Read n st)"
  shows "(\<exists>d. x = ReadBytes d \<and> length d \<le> n \<and> pending st = d @ pending st'
            \<and> (0 < n \<longrightarrow> d \<noteq> []))
    \<or> (\<exists>e. x = ReadFail e \<and> st' = st \<and> (e = EOF \<and> pending st = [] \<or> st_readErr st = Some e))"
proof (cases "st_readBuf st = []")
  case False
  with assms(2) show ?thesis
    by (auto simp: Stream_Read_def read_take_def pending_def)
next
  case True
  have ne: "[] \<notin> set (st_reads st)" and dn: "st_done st \<Longrightarrow> st_readErr st \<noteq> None"
    using assms(1) by (auto simp: stream_ok_def)
  from True assms(2) ne dn show ?thesis
    by (auto simp: Stream_Read_def read_fill.simps [of n "st_reads st" st] read_take_def pending_def
        split: option.splits list.splits if_splits)
qed

section \<open>The read loop as a run\<close>

fun read_run :: "nat \<Rightarrow> session \<Rightarrow> session list" where
  "read_run 0 s = [s]"
| "read_run (Suc n) s = concat (map (read_run n) (readLoop_step s))"

lemma read_run_step: "readLoop_step s = [t] \<Longrightarrow> read_run (Suc n) s = read_run n t"
  by simp

lemma readLoop_frame:
  assumes "ss_rpc s = RIdle" "ss_conn s = Some c" "frame_ok f" "rbuf c = frame_bytes f @ rest"
  shows "readLoop_step s = [handle_frame f (s\<lparr>ss_conn := Some (c\<lparr>rbuf := rest\<rparr>)\<rparr>)]"
  using assms by (simp add: readLoop_step_def ReadFrame_frame_bytes)

text \<open>A stream that can take data: registered, not closed by either side, with room in its buffer.\<close>

definition receiving :: "session \<Rightarrow> u64 \<Rightarrow> nat \<Rightarrow> conn \<Rightarrow> bool" where
  "receiving t i q d \<longleftrightarrow>
     ss_rpc t = RIdle \<and> ss_conn t = Some d \<and> lookup i t = Some q \<and> q < length (ss_heap t)
     \<and> \<not> st_readsClosed (deref t q) \<and> \<not> st_done (deref t q)"

definition room :: "session \<Rightarrow> nat \<Rightarrow> nat" where
  "room t q = ss_BufferSize t - length (st_reads (deref t q))"

lemma deliver_one:
  assumes t: "receiving t i q c" and f: "x \<noteq> []" "length x \<le> MaxDataSize"
    and b: "rbuf c = frame_bytes (data_frame i x) @ rest" and room: "0 < room t q"
  shows "\<exists>t'. read_run 2 t = [t'] \<and> receiving t' i q (c\<lparr>rbuf := rest\<rparr>) \<and> room t' q = room t q - 1
    \<and> pending (deref t' q) = pending (deref t q) @ x"
proof -
  let ?t1 = "t\<lparr>ss_conn := Some (c\<lparr>rbuf := rest\<rparr>), ss_rpc := RDeliver q x\<rparr>"
  let ?st = "(deref t q)\<lparr>st_reads := st_reads (deref t q) @ [x]\<rparr>"
  let ?t2 = "(upd q (\<lambda>_. ?st) ?t1)\<lparr>ss_rpc := RIdle\<rparr>"
  have lk: "lookup i (t\<lparr>ss_conn := Some (c\<lparr>rbuf := rest\<rparr>)\<rparr>) = Some q"
    using t by (simp add: receiving_def lookup_def)
  have "readLoop_step t = [?t1]"
    using readLoop_frame [OF _ _ data_frame_ok [OF f(2)] b] t lk
    by (simp add: receiving_def handle_frame_def handle_data_def data_frame_def frame_types)
  moreover have "readLoop_step ?t1 = [?t2]"
    using t f(1) room
    by (simp add: readLoop_step_def Stream_deliver_def deliver_outcome_def receiving_def room_def)
  ultimately have "read_run 2 t = [?t2]" by (simp add: numeral_2_eq_2)
  moreover have "receiving ?t2 i q (c\<lparr>rbuf := rest\<rparr>)" "room ?t2 q = room t q - 1"
    "pending (deref ?t2 q) = pending (deref t q) @ x"
    using t room by (simp_all add: receiving_def room_def pending_def lookup_def stream_simps)
  ultimately show ?thesis by blast
qed

lemma read_run_append:
  "read_run m s = [t] \<Longrightarrow> read_run n t = [u] \<Longrightarrow> read_run (m + n) s = [u]"
proof (induction m arbitrary: s)
  case (Suc m)
  have "concat (map (read_run (m + n)) xs) = [u]" if "concat (map (read_run m) xs) = [t]"
    and "\<forall>x \<in> set xs. read_run m x = [] \<longrightarrow> read_run (m + n) x = []" for xs
    using that Suc.IH Suc.prems(2)
    by (induction xs) (auto simp: append_eq_Cons_conv)
  moreover have "read_run m x = [] \<Longrightarrow> read_run (m + n) x = []" for m n x
    by (induction m arbitrary: x) auto
  ultimately show ?case using Suc.prems(1) by simp
qed simp

lemma deliver_many:
  assumes "receiving t i q c" and "\<forall>x \<in> set xs. x \<noteq> [] \<and> length x \<le> MaxDataSize"
    and "rbuf c = concat (map (\<lambda>x. frame_bytes (data_frame i x)) xs) @ rest" and "length xs \<le> room t q"
  shows "\<exists>t'. read_run (2 * length xs) t = [t'] \<and> receiving t' i q (c\<lparr>rbuf := rest\<rparr>)
    \<and> pending (deref t' q) = pending (deref t q) @ concat xs"
  using assms
proof (induction xs arbitrary: t c)
  case Nil
  then show ?case by auto
next
  case (Cons x xs)
  let ?r = "concat (map (\<lambda>x. frame_bytes (data_frame i x)) xs) @ rest"
  obtain u where u: "read_run 2 t = [u]" "receiving u i q (c\<lparr>rbuf := ?r\<rparr>)" "room u q = room t q - 1"
    "pending (deref u q) = pending (deref t q) @ x"
    using deliver_one [of t i q c x ?r] Cons.prems by auto
  have "length xs \<le> room u q" using u(3) Cons.prems(4) by simp
  then obtain v where v: "read_run (2 * length xs) u = [v]" "receiving v i q (c\<lparr>rbuf := rest\<rparr>)"
    "pending (deref v q) = pending (deref u q) @ concat xs"
    using Cons.IH [OF u(2)] Cons.prems(2) by auto
  from read_run_append [OF u(1) v(1)] v u(4) show ?case by auto
qed

section \<open>Closing everything\<close>

lemma forceClose_deref:
  "r' < length (ss_heap s) \<Longrightarrow> r < length (ss_heap s) \<Longrightarrow>
   deref (forceClose r e s) r' = (if r' = r \<and> \<not> st_closeOnce (deref s r) then close_stream e (deref s r) else deref s r')"
  by (auto simp: forceClose_heap)

lemma fold_forceClose_deref:
  assumes "\<forall>r \<in> set rs. r < length (ss_heap s)" and "r' < length (ss_heap s)"
  shows "deref (fold (\<lambda>r. forceClose r e) rs s) r' =
    (if r' \<in> set rs \<and> \<not> st_closeOnce (deref s r') then close_stream e (deref s r') else deref s r')"
  using assms
proof (induction rs arbitrary: s)
  case (Cons r rs)
  have "\<forall>r \<in> set rs. r < length (ss_heap (forceClose r e s))" for r
    using Cons.prems by (auto simp: stream_simps)
  with Cons.IH [of "forceClose r e s"] Cons.prems show ?case
    by (auto simp: stream_simps forceClose_deref)
qed simp

lemma shutdown_deref:
  assumes "core_ok s" "\<not> ss_closed s" "(i, r) \<in> set (ss_streams s)"
  shows "deref (shutdown e s) r = close_stream e (deref s r)"
proof -
  let ?t = "s\<lparr>ss_closed := True, ss_err := Some e, ss_done := True\<rparr>"
  have "\<forall>r \<in> set (map snd (ss_streams s)). r < length (ss_heap ?t)"
    using core_entry [OF assms(1)] by auto
  moreover have "r < length (ss_heap ?t)" "\<not> st_closeOnce (deref ?t r)" "r \<in> set (map snd (ss_streams s))"
    using core_entry [OF assms(1,3)] assms(3) by (auto intro: image_eqI [of _ _ "(i, r)"])
  ultimately show ?thesis
    using assms(2) fold_forceClose_deref [of "map snd (ss_streams s)" ?t r e]
    by (simp add: shutdown_def)
qed

section \<open>Opening streams\<close>

lemma DecodeOpen_valid:
  assumes "or_Destination q \<noteq> []" "or_Port q \<noteq> 0" "or_Protocol q = ProtocolTCP" "or_RequestID q \<noteq> 0"
    and "Payload f = Marshal (OpenRequest_json q)" and "open_text q"
  shows "DecodeOpen f = Inr q"
proof -
  have "DecodeJSON json_OpenRequest f = Inr q"
    by (rule DecodeJSON_Marshal) (simp_all add: OpenRequest_roundtrip assms)
  with assms show ?thesis by (simp add: DecodeOpen_def Let_def)
qed

definition open_frame :: "OpenRequest \<Rightarrow> Frame" where
  "open_frame q = \<lparr>Type = FrameOpen, ID = or_RequestID q, Payload = Marshal (OpenRequest_json q)\<rparr>"

text \<open>What \<open>Open\<close> leaves behind on a session that can write.\<close>

lemma Open_send_healthy:
  assumes "healthy s c" and "q = Open_request req (ss_nextID s + 1)" and "frame_ok (open_frame q)"
  shows "Open_send req s = (Inr (length (ss_heap s)),
     s\<lparr>ss_nextID := ss_nextID s + 1, ss_heap := ss_heap s @ [newStream (or_RequestID q)],
       ss_streams := gm_set (or_RequestID q) (length (ss_heap s)) (ss_streams s),
       ss_conn := Some (c\<lparr>wout := wout c @ frame_bytes (open_frame q)\<rparr>)\<rparr>)"
proof -
  have "Writer_WriteJSON FrameOpen (or_RequestID q) (OpenRequest_json q) c
      = (None, c\<lparr>wout := wout c @ frame_bytes (open_frame q)\<rparr>)"
    using assms WriteFrame_ok [OF assms(3), of c]
    by (simp add: Writer_WriteJSON_def Writer_Write_def open_frame_def healthy_def)
  with assms(1) show ?thesis
    by (simp add: Open_send_def Let_def alloc_def healthy_def flip: assms(2))
qed

section \<open>Properties\<close>



text \<open>
  C20 (shutdown). When a session shuts down, every stream it had registered is unregistered, both
  its directions report the session's error from then on, and its \<open>done\<close> channel is closed;
  a second shutdown changes nothing, so the first error is the one that is kept.
\<close>

theorem shutdown_ends_streams:
  assumes "sess_ok s" and "\<not> ss_closed s" and "lookup i s = Some r"
  shows "let t = shutdown e s in
    lookup i t = None \<and> st_done (deref t r) \<and> Stream_Err (deref t r) = Some e
    \<and> Stream_Write r (x # p) t = (0, Some e, t)
    \<and> (st_readBuf (deref s r) = [] \<longrightarrow> Stream_Read n (deref t r) = [(ReadFail e, deref t r)])
    \<and> ss_err t = Some e \<and> shutdown e' t = t"
proof -
  have c: "core_ok s" using assms(1) by (simp add: sess_ok_def)
  have mem: "(i, r) \<in> set (ss_streams s)" using assms(3) by (simp add: lookup_def gm_get_in)
  have d: "deref (shutdown e s) r = close_stream e (deref s r)"
    by (rule shutdown_deref [OF c assms(2) mem])
  have "stream_ok (ss_BufferSize s) (deref s r)" "\<not> st_closeOnce (deref s r)"
    using core_entry [OF c mem] core_stream [OF c] by auto
  then have errs: "st_readErr (deref s r) = None" "st_writeErr (deref s r) = None"
    by (auto simp: stream_ok_def)
  note sp = shutdown_spec [OF c assms(2), of e]
  have "Stream_Write r (x # p) (shutdown e s) = (0, Some e, shutdown e s)"
    using errs d by (simp add: Stream_Write_def close_stream_def)
  moreover have "st_readBuf (deref s r) = [] \<longrightarrow>
      Stream_Read n (deref (shutdown e s) r) = [(ReadFail e, deref (shutdown e s) r)]"
    unfolding d using errs by (simp add: Stream_Read_def read_fill.simps close_stream_def)
  moreover have "shutdown e' (shutdown e s) = shutdown e s"
    using sp(3) by (subst shutdown_def) simp
  ultimately show ?thesis
    using d errs sp by (simp add: Let_def lookup_def Stream_Err_def close_stream_def)
qed

definition ex_session :: session where
  "ex_session = (New 0 0)\<lparr>ss_conn := Some (conn_of []), ss_rpc := RIdle,
     ss_heap := [newStream 1], ss_streams := [(1, 0)]\<rparr>"

lemma ex_session_ok: "sess_ok ex_session"
  by (simp add: ex_session_def New_def sess_ok_def core_ok_def flags_ok_def live_refs_def
      newStream_ok gm_ok_def)

theorem shutdown_ends_streams_witness:
  "Stream_Write 0 [7] (shutdown EOF ex_session) = (0, Some EOF, shutdown EOF ex_session)"
  using shutdown_ends_streams [OF ex_session_ok, of 1 0 EOF 7 "[]" 1 ErrClosed]
  by (simp add: Let_def ex_session_def New_def lookup_def gm_get_def)

text \<open>
  C3 (end to end). What one side writes is what the other side receives. A \<open>Write\<close> of \<open>p\<close> on a
  session whose connection works reports \<open>len(p)\<close> bytes and no error; when a peer's read loop
  meets the bytes this has put on the wire, with the stream open and room for the chunks, its
  only possible run delivers \<open>p\<close> behind the bytes already waiting on that stream, and leaves the
  rest of the input untouched.
\<close>

theorem write_reaches_reader:
  assumes "healthy s c" and "r < length (ss_heap s)" and "stream_ok (ss_BufferSize s) (deref s r)"
    and "\<not> st_closeOnce (deref s r)" and "Stream_Write r p s = (n, x, s')"
    and "ss_conn s' = Some c'" and "wout c' = wout c @ b"
    and "receiving t (st_id (deref s r)) q d" and "rbuf d = b @ rest" and "length (chunks p) \<le> room t q"
  shows "n = length p \<and> x = None \<and>
    (\<exists>t'. read_run (2 * length (chunks p)) t = [t']
       \<and> receiving t' (st_id (deref s r)) q (d\<lparr>rbuf := rest\<rparr>)
       \<and> pending (deref t' q) = pending (deref t q) @ p)"
proof -
  let ?i = "st_id (deref s r)"
  let ?fs = "map (data_frame ?i) (chunks p)"
  have "st_writeErr (deref s r) = None" "\<not> st_closed (deref s r)"
    using assms(3,4) by (auto simp: stream_ok_def)
  then have w: "Stream_Write r p s = (length p, None, sent ?fs s c)"
    using write_chunks_healthy [OF assms(1), of r p] sent_Nil [OF assms(1)]
    by (cases "p = []") (auto simp: Stream_Write_def)
  then have "b = concat (map (\<lambda>y. frame_bytes (data_frame ?i y)) (chunks p))"
    using assms(5,6,7) by (auto simp: sent_def comp_def)
  with assms(9) have "rbuf d = concat (map (\<lambda>y. frame_bytes (data_frame ?i y)) (chunks p)) @ rest" by simp
  from deliver_many [OF assms(8) _ this assms(10)] chunks_bounded w assms(5)
  show ?thesis by auto
qed

lemma healthy_ex: "healthy ex_session (conn_of [])"
  by (simp add: healthy_def ex_session_def New_def conn_of_def)

theorem write_reaches_reader_witness:
  "\<exists>t'. read_run 2 (ex_session\<lparr>ss_conn := Some (conn_of (frame_bytes (data_frame 1 [7, 8]) @ [9]))\<rparr>) = [t']
     \<and> pending (deref t' 0) = [7, 8]"
proof -
  let ?d = "conn_of (frame_bytes (data_frame 1 [7, 8]) @ [9])"
  let ?t = "ex_session\<lparr>ss_conn := Some ?d\<rparr>"
  have ch: "chunks [7, 8] = [[7, 8]]" by (simp add: chunks.simps MaxDataSize_def)
  have w: "Stream_Write 0 [7, 8] ex_session = (2, None, sent [data_frame 1 [7, 8]] ex_session (conn_of []))"
    using write_chunks_healthy [OF healthy_ex, of 0 "[7, 8]"] ch
    by (simp add: Stream_Write_def ex_session_def newStream_def)
  have r: "receiving ?t (st_id (deref ex_session 0)) 0 ?d"
    by (simp add: receiving_def ex_session_def New_def lookup_def gm_get_def newStream_def)
  have k: "length (chunks [7, 8]) \<le> room ?t 0"
    by (simp add: ch room_def ex_session_def New_def newStream_def)
  have st: "stream_ok (ss_BufferSize ex_session) (deref ex_session 0)" "\<not> st_closeOnce (deref ex_session 0)"
    "0 < length (ss_heap ex_session)"
    by (simp_all add: ex_session_def newStream_ok)
  have p0: "pending (deref ex_session 0) = []" by (simp add: pending_def ex_session_def newStream_def)
  show ?thesis
    using write_reaches_reader [OF healthy_ex st(3,1,2) w _ _ r _ k,
        of "conn_of []\<lparr>wout := frame_bytes (data_frame 1 [7, 8])\<rparr>" "frame_bytes (data_frame 1 [7, 8])" "[9]"]
    by (auto simp: sent_def ch p0 conn_of_def)
qed

end
