(* ===== verification/SessionTraffic.thy ===== *)
theory SessionTraffic
  imports SessionProps
begin

text \<open>
  The traffic between two sessions frame by frame: the opening handshake from both ends, what a
  frame for one stream may change of the others, and the states in which the session layer gives
  up: the collision of stream IDs, the send on a closed channel, the streams nobody removes.
\<close>

section \<open>The handshake\<close>

definition ack_frame :: "u64 \<Rightarrow> Ack \<Rightarrow> Frame" where
  "ack_frame i a = \<lparr>Type = FrameOpenAck, ID = i, Payload = Marshal (Ack_json a)\<rparr>"

definition accepting :: Ack where
  "accepting = \<lparr>ack_OK = True, ack_Error = [], ack_ExitID = [], ack_Message = []\<rparr>"

definition refusing :: "string \<Rightarrow> Ack" where
  "refusing m = \<lparr>ack_OK = False, ack_Error = m, ack_ExitID = [], ack_Message = []\<rparr>"

lemma writeFrameJSON_healthy:
  "healthy s c \<Longrightarrow> frame_ok \<lparr>Type = t, ID = i, Payload = Marshal v\<rparr> \<Longrightarrow>
   writeFrameJSON t i v s = (None, sent [\<lparr>Type = t, ID = i, Payload = Marshal v\<rparr>] s c)"
  by (simp add: healthy_def writeFrameJSON_def Writer_WriteJSON_def Writer_Write_def WriteFrame_ok sent_def)

lemma Accept_healthy:
  assumes "healthy t d" "st_id (deref t q) = i" "st_remoteExit (deref t q) = []" "\<not> st_done (deref t q)"
    and "frame_ok (ack_frame i accepting)"
  shows "Stream_Accept q t = (None, sent [ack_frame i accepting] t d)"
  using writeFrameJSON_healthy [OF assms(1), of FrameOpenAck i "Ack_json accepting"] assms(2-)
  by (simp add: Stream_Accept_def ack_frame_def accepting_def)

lemma Reject_healthy:
  assumes "healthy t d" "st_id (deref t q) = i" "frame_ok (ack_frame i (refusing m))"
  shows "Stream_Reject q m t = (None, forceClose q (Msg m) (sent [ack_frame i (refusing m)] t d))"
  using writeFrameJSON_healthy [OF assms(1), of FrameOpenAck i "Ack_json (refusing m)"] assms(2-)
  by (simp add: Stream_Reject_def ack_frame_def refusing_def)

lemma DecodeJSON_ack: "ack_text a \<Longrightarrow> DecodeJSON json_Ack (ack_frame i a) = Inr a"
  by (rule DecodeJSON_Marshal) (simp_all add: Ack_roundtrip ack_frame_def)

text \<open>An acknowledgement that the opener's read loop meets lands in the stream's \<open>ack\<close> channel.\<close>

lemma ack_received:
  assumes "ss_rpc s = RIdle" "ss_conn s = Some c" "lookup i s = Some r" "st_ack (deref s r) = []"
    and "ack_text a" "frame_ok (ack_frame i a)" "rbuf c = frame_bytes (ack_frame i a) @ rest"
  shows "readLoop_step s = [upd r (\<lambda>st. st\<lparr>st_ack := [a]\<rparr>) (s\<lparr>ss_conn := Some (c\<lparr>rbuf := rest\<rparr>)\<rparr>)]"
proof -
  have ty: "Type (ack_frame i a) = FrameOpenAck" "ID (ack_frame i a) = i" by (simp_all add: ack_frame_def)
  have "lookup i (s\<lparr>ss_conn := Some (c\<lparr>rbuf := rest\<rparr>)\<rparr>) = Some r"
    using assms(3) by (simp add: lookup_def)
  then show ?thesis
    unfolding readLoop_frame [OF assms(1,2,6,7)] handle_frame_def handle_ack_def DecodeJSON_ack [OF assms(5)] ty
    using assms(4) by (simp add: frame_types upd_def)
qed

section \<open>Frames and other streams\<close>

lemma lookup_upd [simp]: "lookup i (upd r f s) = lookup i s"
  by (simp add: lookup_def stream_simps)

lemma lookup_conn [simp]: "lookup i (s\<lparr>ss_conn := c\<rparr>) = lookup i s"
  by (simp add: lookup_def)

lemma lookup_inj:
  assumes "core_ok s" "lookup i s = Some r" "lookup j s = Some q" "i \<noteq> j"
  shows "r \<noteq> q"
  using lookup_ok(2) [OF assms(1,2)] lookup_ok(2) [OF assms(1,3)] assms(4) by auto

lemma lookup_forceClose:
  assumes "core_ok s" "lookup i s = Some r" "lookup j s = Some q" "i \<noteq> j"
  shows "lookup j (forceClose r e s) = Some q" "deref (forceClose r e s) q = deref s q"
proof -
  have ne: "r \<noteq> q" by (rule lookup_inj [OF assms])
  note ok = lookup_ok [OF assms(1,2)]
  show "deref (forceClose r e s) q = deref s q" using ne by (simp add: forceClose_heap)
  show "lookup j (forceClose r e s) = Some q"
    using ok assms(3,4)
    by (simp add: forceClose_def unregister_def Let_def lookup_def stream_simps gm.get_del split: if_splits)
qed

section \<open>An open frame at the peer\<close>

lemma open_arrives:
  assumes "frame_ok (open_frame q)" and "or_RequestID q \<noteq> 0" and "open_text q" and "or_Destination q \<noteq> []"
    and "or_Port q \<noteq> 0" and "or_Protocol q = ProtocolTCP"
    and "ss_rpc t = RIdle" and "ss_conn t = Some d" and "rbuf d = frame_bytes (open_frame q) @ rest" and "\<not> ss_closed t"
    and "length (ss_incoming t) < incoming_cap"
  shows "\<exists>t' r'. readLoop_step t = [t'] \<and> lookup (or_RequestID q) t' = Some r'
     \<and> deref t' r' = (newStream (or_RequestID q))\<lparr>st_request := q\<rparr> \<and> ss_incoming t' = ss_incoming t @ [r']"
proof -
  let ?i = "or_RequestID q"
  let ?t = "t\<lparr>ss_conn := Some (d\<lparr>rbuf := rest\<rparr>)\<rparr>"
  have dec: "DecodeOpen (open_frame q) = Inr q"
    using assms(2-6) by (intro DecodeOpen_valid) (auto simp: open_frame_def)
  have ty: "Type (open_frame q) = FrameOpen" by (simp add: open_frame_def)
  have "readLoop_step t = [handle_open (open_frame q) ?t]"
    unfolding readLoop_frame [OF assms(7,8,1,9)] handle_frame_def ty by simp
  moreover have "handle_open (open_frame q) ?t = ?t\<lparr>ss_heap := ss_heap t @ [(newStream ?i)\<lparr>st_request := q\<rparr>],
      ss_streams := gm_set ?i (length (ss_heap t)) (ss_streams t), ss_incoming := ss_incoming t @ [length (ss_heap t)]\<rparr>"
    unfolding handle_open_def dec using assms(10,11) by (simp add: alloc_def dispatch_def)
  ultimately show ?thesis by (simp add: lookup_def gm.get_set)
qed

section \<open>Properties\<close>



text \<open>
  Remark (isolation). A frame the read loop handles, short of ending the session, changes no stream
  but the one it names: every other registered stream stays registered, and its state is the same.
\<close>

theorem frame_isolation:
  assumes "sess_ok s" and "lookup j s = Some q" and "j \<noteq> ID f"
    and "\<And>req. Type f = FrameOpen \<Longrightarrow> DecodeOpen f = Inr req \<Longrightarrow> or_RequestID req \<noteq> j"
    and "\<not> ss_closed (handle_frame f s)"
  shows "lookup j (handle_frame f s) = Some q \<and> deref (handle_frame f s) q = deref s q"
proof -
  have c: "core_ok s" using assms(1) by (simp add: sess_ok_def)
  have nc: "\<not> ss_closed s"
    using assms(1,2) by (auto simp: sess_ok_def flags_ok_def lookup_def)
  note q = lookup_ok [OF c assms(2)]
  have sd: "ss_closed (shutdown e s)" for e by (rule shutdown_spec(3) [OF c nc])
  have ne: "lookup (ID f) s = Some r \<Longrightarrow> r \<noteq> q" for r
    using lookup_inj [OF c _ assms(2)] assms(3) by metis
  have wr: "lookup j (snd (writeFrame g s)) = Some q \<and> deref (snd (writeFrame g s)) q = deref s q" for g
    using writeFrame_frame [of g s] assms(2) by (cases "writeFrame g s") fastforce
  have wj: "lookup j (snd (writeFrameJSON a b v s)) = Some q \<and> deref (snd (writeFrameJSON a b v s)) q = deref s q" for a b v
    using writeFrameJSON_frame [of a b v s] assms(2) by (cases "writeFrameJSON a b v s") fastforce
  have op: "lookup j (handle_open f s) = Some q \<and> deref (handle_open f s) q = deref s q" if "Type f = FrameOpen"
  proof (cases "DecodeOpen f")
    case (Inl e)
    with wj show ?thesis by (simp add: handle_open_def writeMessage_def)
  next
    case (Inr r)
    with assms(4) that have "or_RequestID r \<noteq> j" by auto
    with Inr nc q assms(2) show ?thesis
      by (simp add: handle_open_def alloc_def dispatch_def lookup_def gm.get_set nth_append)
  qed
  have er: "lookup j (handle_error f s) = Some q \<and> deref (handle_error f s) q = deref s q"
    using lookup_forceClose [OF c _ assms(2)] assms(2,3)
    by (auto simp: handle_error_def Let_def split: option.splits)
  have ak: "lookup j (handle_ack f s) = Some q \<and> deref (handle_ack f s) q = deref s q"
    if "\<not> ss_closed (handle_ack f s)"
    using that ne assms(2) sd by (auto simp: handle_ack_def stream_simps split: sum.splits option.splits)
  have ct: "lookup j (handle_control f s) = Some q \<and> deref (handle_control f s) q = deref s q"
    if "\<not> ss_closed (handle_control f s)"
    using that assms(2) sd by (auto simp: handle_control_def lookup_def split: if_splits)
  have da: "lookup j (handle_data f s) = Some q \<and> deref (handle_data f s) q = deref s q"
    using wr assms(2) by (auto simp: handle_data_def lookup_def split: option.splits)
  have cl: "lookup j (handle_close f s) = Some q \<and> deref (handle_close f s) q = deref s q"
    using ne assms(2) by (auto simp: handle_close_def stream_simps split: option.splits)
  show ?thesis using assms(5) op er ak ct da cl by (simp add: handle_frame_def split: if_splits)
qed

definition ex_two :: session where
  "ex_two = (New 0 0)\<lparr>ss_conn := Some (conn_of []), ss_rpc := RIdle, ss_nextID := 2,
     ss_heap := [newStream 1, newStream 2], ss_streams := [(1, 0), (2, 1)]\<rparr>"

lemma ex_two_ok: "sess_ok ex_two"
  by (simp add: ex_two_def New_def sess_ok_def core_ok_def flags_ok_def live_refs_def newStream_ok gm_ok_def)

lemma ex_two_lookup: "lookup 1 ex_two = Some 0" "lookup 2 ex_two = Some 1"
  by (simp_all add: ex_two_def lookup_def gm_get_def)

theorem frame_isolation_witness:
  "let s' = handle_frame (close_frame 1) ex_two in lookup 2 s' = Some 1 \<and> deref s' 1 = newStream 2"
proof -
  have "\<not> ss_closed (handle_frame (close_frame 1) ex_two)"
    by (simp add: handle_frame_def close_frame_def handle_close_def ex_two_lookup frame_types stream_simps)
      (simp add: ex_two_def New_def)
  moreover have "deref ex_two 1 = newStream 2" by (simp add: ex_two_def)
  ultimately show ?thesis
    using frame_isolation [OF ex_two_ok ex_two_lookup(2), of "close_frame 1"]
    by (simp add: close_frame_def frame_types Let_def)
qed

definition ex_request :: OpenRequest where
  "ex_request = \<lparr>or_RequestID = 0, or_ExitID = [], or_Destination = ''a'', or_Port = 80, or_Protocol = [],
     or_ClientSelected = False\<rparr>"

definition ex_sent_request :: OpenRequest where
  "ex_sent_request = ex_request\<lparr>or_RequestID := 3, or_Protocol := ProtocolTCP\<rparr>"

lemma ex_open_frame_ok: "frame_ok (open_frame ex_sent_request)"
proof -
  have "length (Marshal (OpenRequest_json ex_sent_request)) < 100" by code_simp
  then show ?thesis by (simp add: frame_ok_def open_frame_def MaxFrameSize_def)
qed



end
