(* ===== verification/SessionFaults.thy ===== *)
theory SessionFaults
  imports SessionTraffic
begin

text \<open>
  Where the session layer of \<open>src/internal/session/session.go\<close> stops short of its contract: a second
  stream with an ID in use orphans the first one, data after a close is a send on a closed channel
  (the process goes down with it), a gracefully closed stream stays in the map, and one stream
  nobody reads holds up all the others.
\<close>

section \<open>Where the read loop goes\<close>

lemma shutdown_rpc: "ss_rpc (shutdown e s) = ss_rpc s"
proof -
  have "ss_rpc (fold (\<lambda>r. forceClose r e) rs u) = ss_rpc u" for rs u
    by (induction rs arbitrary: u) (simp_all add: stream_simps)
  then show ?thesis by (simp add: shutdown_def)
qed

lemma writes_rpc:
  "ss_rpc (snd (writeFrame f s)) = ss_rpc s" "ss_rpc (snd (writeFrameJSON t i v s)) = ss_rpc s"
  using writeFrame_frame [of f s] writeFrameJSON_frame [of t i v s]
  by (cases "writeFrame f s", fastforce, cases "writeFrameJSON t i v s", fastforce)

lemma handle_frame_rpc:
  assumes "ss_rpc s = RIdle"
  shows "ss_rpc (handle_frame f s) \<noteq> RPanicked"
proof -
  have "ss_rpc (handle_open f s) = RIdle"
    using assms
    by (auto simp: handle_open_def writeMessage_def writes_rpc alloc_def dispatch_def stream_simps
        split: sum.splits)
  moreover have "ss_rpc (handle_ack f s) \<noteq> RPanicked" "ss_rpc (handle_data f s) \<noteq> RPanicked"
    "ss_rpc (handle_close f s) \<noteq> RPanicked" "ss_rpc (handle_error f s) \<noteq> RPanicked"
    "ss_rpc (handle_control f s) \<noteq> RPanicked"
    using assms
    by (auto simp: handle_ack_def handle_data_def handle_close_def handle_error_def handle_control_def Let_def
        writes_rpc stream_simps split: sum.splits option.splits)
  ultimately show ?thesis by (simp add: handle_frame_def)
qed

lemma RDeliver_stream:
  assumes "sess_ok s" "ss_rpc s = RDeliver r d"
  shows "stream_ok (ss_BufferSize s) (deref s r)"
proof -
  have c: "core_ok s" using assms(1) by (simp add: sess_ok_def)
  have "r < length (ss_heap s)" using assms(2) by (intro core_refs [OF c]) (simp add: live_refs_def)
  then show ?thesis by (rule core_stream [OF c])
qed

section \<open>Properties\<close>



text \<open>
  Remark (crash). A peer that sends a close frame and then data for the same stream takes the
  receiving process down: with these two frames in the input of an open stream, the read loop has
  one run only, and it ends in the panic.
\<close>

theorem data_after_close_panics:
  assumes "sess_ok t" and "receiving t i q d" and "rbuf d = frame_bytes (close_frame i) @ frame_bytes (data_frame i x) @ rest"
    and "x \<noteq> []" and "length x \<le> MaxDataSize"
  shows "\<exists>t'. read_run 3 t = [t'] \<and> ss_rpc t' = RPanicked"
proof -
  let ?d = "d\<lparr>rbuf := frame_bytes (data_frame i x) @ rest\<rparr>"
  let ?t1 = "upd q Stream_remoteClose (t\<lparr>ss_conn := Some ?d\<rparr>)"
  let ?t2 = "?t1\<lparr>ss_conn := Some (?d\<lparr>rbuf := rest\<rparr>), ss_rpc := RDeliver q x\<rparr>"
  have "stream_ok (ss_BufferSize t) (deref t q)"
    using assms(1,2) by (auto simp: sess_ok_def receiving_def dest: core_stream)
  then have eof: "\<not> st_remoteEOF (deref t q)" using assms(2) by (simp add: stream_ok_def receiving_def)
  have "readLoop_step t = [?t1]"
    using readLoop_frame [OF _ _ close_frame_ok assms(3)] assms(2)
    by (simp add: receiving_def handle_frame_def handle_close_def close_frame_def frame_types)
  moreover have "readLoop_step ?t1 = [?t2]"
    using readLoop_frame [of ?t1 ?d, OF _ _ data_frame_ok [OF assms(5), of i]] assms(2)
    by (simp add: receiving_def stream_simps handle_frame_def handle_data_def data_frame_def frame_types)
  moreover have "readLoop_step ?t2 = [?t2\<lparr>ss_rpc := RPanicked\<rparr>]"
    using assms(2,4) eof
    by (simp add: readLoop_step_def receiving_def stream_simps Stream_deliver_def Stream_remoteClose_def
        deliver_outcome_def)
  ultimately show ?thesis by (simp add: numeral_3_eq_3)
qed

theorem data_after_close_panics_witness:
  "\<exists>t'. read_run 3 (ex_session\<lparr>ss_conn := Some (conn_of (frame_bytes (close_frame 1) @ frame_bytes (data_frame 1 [7])))\<rparr>) = [t']
     \<and> ss_rpc t' = RPanicked"
proof -
  let ?d = "conn_of (frame_bytes (close_frame 1) @ frame_bytes (data_frame 1 [7]))"
  have "receiving (ex_session\<lparr>ss_conn := Some ?d\<rparr>) 1 0 ?d"
    by (simp add: receiving_def ex_session_def lookup_def gm_get_def newStream_def)
  moreover have "sess_ok (ex_session\<lparr>ss_conn := Some ?d\<rparr>)" using ex_session_ok by simp
  ultimately show ?thesis
    using data_after_close_panics [of "ex_session\<lparr>ss_conn := Some ?d\<rparr>" 1 0 ?d "[7]" "[]"]
    by (simp add: conn_of_def MaxDataSize_def)
qed

text \<open>
  C0 (collision). \<open>Open\<close> with an explicit ID that a registered stream already has succeeds and takes
  the ID over. The first stream stays open, but the session has lost it: no frame of the peer
  reaches it any more, and not even the session's shutdown ends it.
\<close>

theorem open_collision_orphans:
  assumes "sess_ok s" and "healthy s c" and "lookup i s = Some r" and "or_RequestID req = i" and "i \<noteq> 0"
    and "frame_ok (open_frame (Open_request req (ss_nextID s + 1)))"
  shows "\<exists>r' s'. Open_send req s = (Inr r', s') \<and> r' \<noteq> r \<and> lookup i s' = Some r'
    \<and> (\<forall>j. lookup j s' \<noteq> Some r) \<and> \<not> st_done (deref s' r) \<and> deref (shutdown e s') r = deref s' r"
proof -
  let ?q = "Open_request req (ss_nextID s + 1)"
  have c: "core_ok s" using assms(1) by (simp add: sess_ok_def)
  note l = lookup_ok [OF c assms(3)]
  have i: "or_RequestID ?q = i" using assms(4,5) by (simp add: Open_request_def Let_def)
  obtain s' where o: "Open_send req s = (Inr (length (ss_heap s)), s')"
    using Open_send_healthy [OF assms(2) refl assms(6)] by simp
  then have m: "ss_streams s' = gm_set i (length (ss_heap s)) (ss_streams s)" "ss_heap s' = ss_heap s @ [newStream i]"
    "\<not> ss_closed s'"
    using Open_send_healthy [OF assms(2) refl assms(6)] i assms(2) by (auto simp: healthy_def)
  have c': "core_ok s'" using sess_Open_send [OF assms(1) o] by (simp add: sess_ok_def)
  have none: "lookup j s' \<noteq> Some r" for j
    using m(1) assms(3) l c lookup_ok(2) [OF c, of j r] by (auto simp: lookup_def split: if_splits)
  have notin: "r \<notin> set (map snd (ss_streams s'))"
    using none gm_in_get [OF core_map [OF c']] by (fastforce simp: lookup_def)
  have "\<forall>x \<in> set (ss_streams s'). snd x < Suc (length (ss_heap s))"
    using core_entry [OF c'] m(2) by auto
  then have "deref (shutdown e s') r = deref s' r"
    using fold_forceClose_deref [of "map snd (ss_streams s')" "s'\<lparr>ss_closed := True, ss_err := Some e, ss_done := True\<rparr>" r e]
      notin m(2,3) l(1) by (auto simp: shutdown_def)
  moreover have "\<not> st_done (deref s' r)"
    using core_stream [OF c l(1)] l m(2) by (auto simp: stream_ok_def nth_append)
  ultimately show ?thesis using o none m(1) l(1) by (auto simp: lookup_def)
qed

definition ex_collision :: OpenRequest where
  "ex_collision = ex_sent_request\<lparr>or_RequestID := 1\<rparr>"

theorem open_collision_orphans_witness:
  "\<exists>r' s'. Open_send ex_collision ex_two = (Inr r', s') \<and> r' \<noteq> 0 \<and> lookup 1 s' = Some r'
     \<and> \<not> st_done (deref (shutdown EOF s') 0)"
proof -
  have h: "healthy ex_two (conn_of [])" by (simp add: healthy_def ex_two_def New_def conn_of_def)
  have "length (Marshal (OpenRequest_json ex_collision)) < 100" by code_simp
  then have f: "frame_ok (open_frame (Open_request ex_collision (ss_nextID ex_two + 1)))"
    by (simp add: frame_ok_def open_frame_def MaxFrameSize_def Open_request_def ex_collision_def
        ex_sent_request_def ProtocolTCP_def)
  have "or_RequestID ex_collision = 1" by (simp add: ex_collision_def)
  from open_collision_orphans [OF ex_two_ok h ex_two_lookup(1) this _ f, of EOF] show ?thesis by auto
qed

text \<open>
  C0 (leak). A stream both sides have closed in the regular way (\<open>CloseWrite\<close> here, a close frame
  from the peer) stays registered: its entry in the session's map goes only when something forces
  the stream closed, or when the session ends.
\<close>

theorem closed_both_ways_stays_registered:
  assumes "sess_ok s" and "lookup i s = Some r"
    and "s' = handle_close (close_frame i) (snd (Stream_CloseWrite r s))"
  shows "lookup i s' = Some r \<and> st_localEOF (deref s' r) \<and> st_remoteEOF (deref s' r) \<and> \<not> st_done (deref s' r)"
proof -
  have c: "core_ok s" using assms(1) by (simp add: sess_ok_def)
  note l = lookup_ok [OF c assms(2)]
  have st: "\<not> st_closed (deref s r)" "\<not> st_done (deref s r)"
    using core_stream [OF c l(1)] l(3) by (auto simp: stream_ok_def)
  let ?u = "upd r (\<lambda>st. st\<lparr>st_localEOF := True\<rparr>) s"
  let ?f = "close_frame (st_id (deref s r))"
  obtain x where x: "snd (writeFrame ?f ?u) = ?u\<lparr>ss_conn := x\<rparr>"
    using writeFrame_frame [of ?f ?u] by (cases "writeFrame ?f ?u") auto
  have "lookup i (snd (Stream_CloseWrite r s)) = Some r \<and> st_localEOF (deref (snd (Stream_CloseWrite r s)) r)
      \<and> \<not> st_done (deref (snd (Stream_CloseWrite r s)) r) \<and> r < length (ss_heap (snd (Stream_CloseWrite r s)))"
    using st x assms(2) l by (auto simp: Stream_CloseWrite_def stream_simps simp flip: close_frame_def)
  then show ?thesis
    unfolding assms(3) by (simp add: handle_close_def close_frame_def stream_simps Stream_remoteClose_def)
qed

theorem closed_both_ways_stays_registered_witness:
  "lookup 1 (handle_close (close_frame 1) (snd (Stream_CloseWrite 0 ex_session))) = Some 0"
  using closed_both_ways_stays_registered [OF ex_session_ok, of 1 0]
  by (simp add: lookup_def ex_session_def gm_get_def)

text \<open>
  C39 (head of line). When the read loop holds data for an open stream whose buffer is full, it
  waits, and nothing that is done to any other stream lets it go on: the frames of all streams
  wait for the reader of this one.
\<close>

theorem full_stream_stalls_session:
  assumes "sess_ok s" and "ss_rpc s = RDeliver r d" and "d \<noteq> []" and "\<not> st_remoteEOF (deref s r)"
    and "room s r = 0" and "q \<noteq> r"
  shows "readLoop_step s = [] \<and> readLoop_step (upd q f s) = [] \<and> readLoop_step (forceClose q e s) = []"
proof -
  have st: "stream_ok (ss_BufferSize s) (deref s r)" by (rule RDeliver_stream [OF assms(1,2)])
  then have "\<not> st_readsClosed (deref s r)" "\<not> st_done (deref s r)" using assms(4) by (auto simp: stream_ok_def)
  moreover have "\<not> length (st_reads (deref s r)) < ss_BufferSize s" using assms(5) by (simp add: room_def)
  moreover have "deref (forceClose q e s) r = deref s r" "deref (upd q f s) r = deref s r"
    using assms(6) by (simp_all add: forceClose_heap stream_simps)
  ultimately show ?thesis using assms(2,3) by (simp add: readLoop_step_def Stream_deliver_def stream_simps)
qed

definition ex_full :: session where
  "ex_full = (upd 0 (\<lambda>st. st\<lparr>st_reads := replicate 32 [7]\<rparr>) ex_two)\<lparr>ss_rpc := RDeliver 0 [8]\<rparr>"

theorem full_stream_stalls_session_witness:
  "readLoop_step ex_full = [] \<and> readLoop_step (forceClose 1 EOF ex_full) = []"
proof -
  have st: "deref ex_two 0 = newStream 1" "0 < length (ss_heap ex_two)" "ss_BufferSize ex_two = 32"
    by (simp_all add: ex_two_def New_def)
  have "sess_ok (upd 0 (\<lambda>st. st\<lparr>st_reads := replicate 32 [7]\<rparr>) ex_two)"
    using st newStream_ok(1) [of 32 1] by (intro sess_upd ex_two_ok) (auto simp: stream_ok_def)
  then have "sess_ok ex_full"
    unfolding ex_full_def using st by (intro sess_rpc) (auto simp: stream_simps)
  moreover have "ss_rpc ex_full = RDeliver 0 [8]" "\<not> st_remoteEOF (deref ex_full 0)" "room ex_full 0 = 0"
    using st by (simp_all add: ex_full_def stream_simps room_def newStream_def)
  ultimately show ?thesis using full_stream_stalls_session [of ex_full 0 "[8]" 1] by auto
qed

end
