(* ===== verification/Messages.thy ===== *)
theory Messages
  imports Frame
begin

text \<open>
  The remaining message structs of \<open>src/internal/protocol/frame.go\<close> and \<open>catalog.go\<close> as JSON in both
  directions, field by field as their tags say: the authentication messages, an exit's
  registration and heartbeat, the catalogue.
\<close>

record Catalog =
  Exits :: "ExitInfo list"

definition AuthResponse_json :: "AuthResponse \<Rightarrow> json" where
  "AuthResponse_json r = JObj
     ([(''version'', JInt (resp_Version r)), (''role'', JStr (resp_Role r)), (''response'', bytes_j (resp_Response r))]
      @ omit_if (resp_SessionID r = []) ''session_id'' (JStr (resp_SessionID r)))"

definition json_AuthResponse :: "json \<Rightarrow> AuthResponse option" where
  "json_AuthResponse v =
     (case jstruct v of
        None \<Rightarrow> None
      | Some fs \<Rightarrow>
          (case (jfield j_int ''version'' (Some 0) fs, jfield j_string ''role'' (Some []) fs,
                 jfield j_bytes ''response'' (Some []) fs, jfield j_string ''session_id'' (Some []) fs) of
             (Some a, Some b, Some c, Some d) \<Rightarrow>
               Some \<lparr>resp_Version = a, resp_Role = b, resp_Response = c, resp_SessionID = d\<rparr>
           | _ \<Rightarrow> None))"

definition AuthResult_json :: "AuthResult \<Rightarrow> json" where
  "AuthResult_json r = JObj
     ([(''ok'', JBool (res_OK r))]
      @ omit_if (res_Error r = []) ''error'' (JStr (res_Error r))
      @ [(''version'', JInt (res_Version r))])"

definition json_AuthResult :: "json \<Rightarrow> AuthResult option" where
  "json_AuthResult v =
     (case jstruct v of
        None \<Rightarrow> None
      | Some fs \<Rightarrow>
          (case (jfield j_bool ''ok'' (Some False) fs, jfield j_string ''error'' (Some []) fs,
                 jfield j_int ''version'' (Some 0) fs) of
             (Some a, Some b, Some c) \<Rightarrow> Some \<lparr>res_OK = a, res_Error = b, res_Version = c\<rparr>
           | _ \<Rightarrow> None))"

definition ExitRegistration_json :: "ExitRegistration \<Rightarrow> json" where
  "ExitRegistration_json r = JObj
     ([(''id'', JStr (xr_ID r)), (''name'', JStr (xr_Name r)), (''capacity'', JInt (xr_Capacity r))]
      @ omit_if (xr_Features r = []) ''features'' (strings_j (xr_Features r)))"

definition json_ExitRegistration :: "json \<Rightarrow> ExitRegistration option" where
  "json_ExitRegistration v =
     (case jstruct v of
        None \<Rightarrow> None
      | Some fs \<Rightarrow>
          (case (jfield j_string ''id'' (Some []) fs, jfield j_string ''name'' (Some []) fs,
                 jfield j_int ''capacity'' (Some 0) fs, jfield (j_list j_string) ''features'' (Some []) fs) of
             (Some a, Some b, Some c, Some d) \<Rightarrow>
               Some \<lparr>xr_ID = a, xr_Name = b, xr_Capacity = c, xr_Features = d\<rparr>
           | _ \<Rightarrow> None))"

definition Heartbeat_json :: "Heartbeat \<Rightarrow> json" where
  "Heartbeat_json h = JObj
     [(''exit_id'', JStr (hb_ExitID h)), (''active'', JInt (hb_Active h)), (''capacity'', JInt (hb_Capacity h)),
      (''timestamp_ms'', JInt (hb_TimestampMS h))]"

definition json_Heartbeat :: "json \<Rightarrow> Heartbeat option" where
  "json_Heartbeat v =
     (case jstruct v of
        None \<Rightarrow> None
      | Some fs \<Rightarrow>
          (case (jfield j_string ''exit_id'' (Some []) fs, jfield j_int ''active'' (Some 0) fs,
                 jfield j_int ''capacity'' (Some 0) fs, jfield j_int ''timestamp_ms'' (Some 0) fs) of
             (Some a, Some b, Some c, Some d) \<Rightarrow>
               Some \<lparr>hb_ExitID = a, hb_Active = b, hb_Capacity = c, hb_TimestampMS = d\<rparr>
           | _ \<Rightarrow> None))"

definition ExitInfo_json :: "ExitInfo \<Rightarrow> json" where
  "ExitInfo_json e = JObj
     ([(''id'', JStr (ei_ID e)), (''name'', JStr (ei_Name e)), (''type'', JStr (ei_Type e)),
       (''health'', JStr (ei_Health e)), (''latency_ms'', JInt (ei_LatencyMS e)),
       (''active_connections'', JInt (ei_ActiveConnections e)), (''capacity'', JInt (ei_Capacity e))]
      @ omit_if (ei_Features e = []) ''features'' (strings_j (ei_Features e))
      @ [(''heartbeat_time'', JInt (ei_HeartbeatTime e))])"

definition json_ExitInfo :: "json \<Rightarrow> ExitInfo option" where
  "json_ExitInfo v =
     (case jstruct v of
        None \<Rightarrow> None
      | Some fs \<Rightarrow>
          (case (jfield j_string ''id'' (Some []) fs, jfield j_string ''name'' (Some []) fs,
                 jfield j_string ''type'' (Some []) fs, jfield j_string ''health'' (Some []) fs,
                 jfield j_int ''latency_ms'' (Some 0) fs, jfield j_int ''active_connections'' (Some 0) fs,
                 jfield j_int ''capacity'' (Some 0) fs, jfield (j_list j_string) ''features'' (Some []) fs,
                 jfield j_int ''heartbeat_time'' (Some 0) fs) of
             (Some a, Some b, Some c, Some d, Some e, Some f, Some g, Some h, Some i) \<Rightarrow>
               Some \<lparr>ei_ID = a, ei_Name = b, ei_Type = c, ei_Health = d, ei_LatencyMS = e,
                 ei_ActiveConnections = f, ei_Capacity = g, ei_Features = h, ei_HeartbeatTime = i\<rparr>
           | _ \<Rightarrow> None))"

definition Catalog_json :: "Catalog \<Rightarrow> json" where
  "Catalog_json c = JObj [(''exits'', JArr (map ExitInfo_json (Exits c)))]"

definition json_Catalog :: "json \<Rightarrow> Catalog option" where
  "json_Catalog v =
     (case jstruct v of
        None \<Rightarrow> None
      | Some fs \<Rightarrow> map_option (\<lambda>xs. \<lparr>Exits = xs\<rparr>) (jfield (j_list json_ExitInfo) ''exits'' (Some []) fs))"

text \<open>The strings of a catalogue entry are text and its numbers fit Go's \<open>int\<close>.\<close>

definition exit_info_ok :: "ExitInfo \<Rightarrow> bool" where
  "exit_info_ok e \<longleftrightarrow> list_all valid_utf8 ([ei_ID e, ei_Name e, ei_Type e, ei_Health e] @ ei_Features e) \<and> int64 (ei_LatencyMS e) \<and> int64 (ei_ActiveConnections e) \<and> int64 (ei_Capacity e)
     \<and> int64 (ei_HeartbeatTime e)"

lemma AuthResponse_roundtrip: "int64 (resp_Version r) \<Longrightarrow> json_AuthResponse (AuthResponse_json r) = Some r"
  by (cases r) (simp add: json_AuthResponse_def AuthResponse_json_def jstruct_def omit_if_def fold_names)

lemma AuthResult_roundtrip: "int64 (res_Version r) \<Longrightarrow> json_AuthResult (AuthResult_json r) = Some r"
  by (cases r) (simp add: json_AuthResult_def AuthResult_json_def jstruct_def omit_if_def fold_names)

lemma ExitRegistration_roundtrip:
  "int64 (xr_Capacity r) \<Longrightarrow> json_ExitRegistration (ExitRegistration_json r) = Some r"
  by (cases r) (simp add: json_ExitRegistration_def ExitRegistration_json_def jstruct_def omit_if_def fold_names)

lemma Heartbeat_roundtrip:
  "int64 (hb_Active h) \<Longrightarrow> int64 (hb_Capacity h) \<Longrightarrow> int64 (hb_TimestampMS h) \<Longrightarrow>
   json_Heartbeat (Heartbeat_json h) = Some h"
  by (cases h) (simp add: json_Heartbeat_def Heartbeat_json_def jstruct_def fold_names)

lemma ExitInfo_roundtrip: "exit_info_ok e \<Longrightarrow> json_ExitInfo (ExitInfo_json e) = Some e"
  by (cases e) (simp add: json_ExitInfo_def ExitInfo_json_def exit_info_ok_def jstruct_def omit_if_def fold_names)

lemma Catalog_roundtrip: "list_all exit_info_ok (Exits c) \<Longrightarrow> json_Catalog (Catalog_json c) = Some c"
proof -
  assume "list_all exit_info_ok (Exits c)"
  then have "j_all json_ExitInfo (map ExitInfo_json (Exits c)) = Some (Exits c)"
    by (intro j_all_map ExitInfo_roundtrip) (auto simp: list_all_iff)
  then show ?thesis by (cases c) (simp add: json_Catalog_def Catalog_json_def jstruct_def j_list_def)
qed

definition registration_ok :: "ExitRegistration \<Rightarrow> bool" where
  "registration_ok r \<longleftrightarrow> list_all valid_utf8 ([xr_ID r, xr_Name r] @ xr_Features r) \<and> int64 (xr_Capacity r)"

definition response_ok :: "AuthResponse \<Rightarrow> bool" where
  "response_ok r \<longleftrightarrow> int64 (resp_Version r) \<and> valid_utf8 (resp_Role r) \<and> valid_utf8 (resp_SessionID r)"

definition heartbeat_ok :: "Heartbeat \<Rightarrow> bool" where
  "heartbeat_ok h \<longleftrightarrow> valid_utf8 (hb_ExitID h) \<and> int64 (hb_Active h) \<and> int64 (hb_Capacity h) \<and> int64 (hb_TimestampMS h)"

lemma printable_more [simp]:
  "response_ok a \<Longrightarrow> printable (AuthResponse_json a)" "valid_utf8 (res_Error b) \<Longrightarrow> printable (AuthResult_json b)"
  "registration_ok c \<Longrightarrow> printable (ExitRegistration_json c)" "heartbeat_ok d \<Longrightarrow> printable (Heartbeat_json d)"
  "exit_info_ok e \<Longrightarrow> printable (ExitInfo_json e)" "list_all exit_info_ok (Exits f) \<Longrightarrow> printable (Catalog_json f)"
proof -
  show e: "exit_info_ok e \<Longrightarrow> printable (ExitInfo_json e)" for e
    by (simp add: ExitInfo_json_def omit_if_def exit_info_ok_def)
  show "list_all exit_info_ok (Exits f) \<Longrightarrow> printable (Catalog_json f)"
    by (simp add: Catalog_json_def list_all_iff e)
qed (simp_all add: AuthResponse_json_def AuthResult_json_def ExitRegistration_json_def Heartbeat_json_def omit_if_def
      response_ok_def registration_ok_def heartbeat_ok_def)

lemma DecodeJSON_messages [frame_simps]:
  "response_ok a \<Longrightarrow> Payload f = Marshal (AuthResponse_json a) \<Longrightarrow> DecodeJSON json_AuthResponse f = Inr a"
  "int64 (res_Version b) \<Longrightarrow> valid_utf8 (res_Error b) \<Longrightarrow> Payload f = Marshal (AuthResult_json b) \<Longrightarrow>
    DecodeJSON json_AuthResult f = Inr b"
  "registration_ok c \<Longrightarrow> Payload f = Marshal (ExitRegistration_json c) \<Longrightarrow> DecodeJSON json_ExitRegistration f = Inr c"
  "list_all exit_info_ok (Exits d) \<Longrightarrow> Payload f = Marshal (Catalog_json d) \<Longrightarrow> DecodeJSON json_Catalog f = Inr d"
  "heartbeat_ok e \<Longrightarrow> Payload f = Marshal (Heartbeat_json e) \<Longrightarrow> DecodeJSON json_Heartbeat f = Inr e"
proof -
  note rt = AuthResponse_roundtrip AuthResult_roundtrip ExitRegistration_roundtrip Catalog_roundtrip Heartbeat_roundtrip
  note ok = response_ok_def registration_ok_def heartbeat_ok_def
  show "response_ok a \<Longrightarrow> Payload f = Marshal (AuthResponse_json a) \<Longrightarrow> DecodeJSON json_AuthResponse f = Inr a"
    by (rule DecodeJSON_Marshal) (simp_all add: rt ok)
  show "int64 (res_Version b) \<Longrightarrow> valid_utf8 (res_Error b) \<Longrightarrow> Payload f = Marshal (AuthResult_json b) \<Longrightarrow>
    DecodeJSON json_AuthResult f = Inr b"
    by (rule DecodeJSON_Marshal) (simp_all add: rt ok)
  show "registration_ok c \<Longrightarrow> Payload f = Marshal (ExitRegistration_json c) \<Longrightarrow> DecodeJSON json_ExitRegistration f = Inr c"
    by (rule DecodeJSON_Marshal) (simp_all add: rt ok)
  show "list_all exit_info_ok (Exits d) \<Longrightarrow> Payload f = Marshal (Catalog_json d) \<Longrightarrow> DecodeJSON json_Catalog f = Inr d"
    by (rule DecodeJSON_Marshal) (simp_all add: rt)
  show "heartbeat_ok e \<Longrightarrow> Payload f = Marshal (Heartbeat_json e) \<Longrightarrow> DecodeJSON json_Heartbeat f = Inr e"
    by (rule DecodeJSON_Marshal) (simp_all add: rt ok)
qed

end
