(* ===== verification/Registry.thy ===== *)
theory Registry
  imports Messages "HOL-Library.List_Lexorder" "HOL-Library.Char_ord"
begin

text \<open>
  \<open>src/internal/node/registry.go\<close>: the catalogue of exits the server keeps. The map's iteration order
  is the order of the association list, so that what \<open>Select\<close> returns can be proved independent of
  it. Times are nanoseconds; the scores and the health thresholds are computed in wrapping 64-bit
  arithmetic.
\<close>

section \<open>State and operations\<close>

definition ErrNoExit :: error where "ErrNoExit = Msg ''no healthy exit is available''"
definition ErrExitUnavailable :: error where "ErrExitUnavailable = Msg ''selected exit is unavailable''"

record exitEntry =
  ee_info :: ExitInfo
  ee_heartbeat :: int
  ee_persistent :: bool

record Registry =
  rg_exits :: "(string, exitEntry) gomap"
  rg_staleFor :: int

definition second :: int where "second = 10 ^ 9"

definition UnixMilli :: "int \<Rightarrow> int" where
  "UnixMilli t = t div 10 ^ 6"

definition NewRegistry :: "int \<Rightarrow> Registry" where
  "NewRegistry staleFor = \<lparr>rg_exits = [], rg_staleFor = (if staleFor \<le> 0 then 45 * second else staleFor)\<rparr>"

definition Registry_add :: "int \<Rightarrow> ExitInfo \<Rightarrow> string \<Rightarrow> bool \<Rightarrow> Registry \<Rightarrow> Registry" where
  "Registry_add now info health persistent r =
     r\<lparr>rg_exits := gm_set (ei_ID info)
         \<lparr>ee_info = info\<lparr>ei_Health := health, ei_HeartbeatTime := UnixMilli now\<rparr>, ee_heartbeat = now,
          ee_persistent = persistent\<rparr> (rg_exits r)\<rparr>"

definition Registry_Add :: "int \<Rightarrow> ExitInfo \<Rightarrow> string \<Rightarrow> Registry \<Rightarrow> Registry" where
  "Registry_Add now info health r = Registry_add now info health False r"

definition Registry_AddPersistent :: "int \<Rightarrow> ExitInfo \<Rightarrow> string \<Rightarrow> Registry \<Rightarrow> Registry" where
  "Registry_AddPersistent now info health r = Registry_add now info health True r"

definition healthFor :: "int \<Rightarrow> int \<Rightarrow> string" where
  "healthFor active capacity =
     (if capacity \<le> 0 \<or> active \<ge> capacity then ''at-capacity''
      else if wrap64 (active * 100) > wrap64 (capacity * 90) then ''degraded''
      else ''healthy'')"

definition beat :: "int \<Rightarrow> Heartbeat \<Rightarrow> exitEntry \<Rightarrow> exitEntry" where
  "beat now h e =
     (let i1 = (ee_info e)\<lparr>ei_ActiveConnections := hb_Active h\<rparr>;
          i2 = (if hb_Capacity h > 0 then i1\<lparr>ei_Capacity := hb_Capacity h\<rparr> else i1);
          i3 = i2\<lparr>ei_HeartbeatTime := UnixMilli now\<rparr>
      in e\<lparr>ee_heartbeat := now, ee_info := i3\<lparr>ei_Health := healthFor (ei_ActiveConnections i3) (ei_Capacity i3)\<rparr>\<rparr>)"

definition Registry_Heartbeat :: "int \<Rightarrow> Heartbeat \<Rightarrow> Registry \<Rightarrow> Registry" where
  "Registry_Heartbeat now h r =
     (case gm_get (rg_exits r) (hb_ExitID h) of
        None \<Rightarrow> r
      | Some e \<Rightarrow> r\<lparr>rg_exits := gm_set (hb_ExitID h) (beat now h e) (rg_exits r)\<rparr>)"

definition Registry_Remove :: "string \<Rightarrow> Registry \<Rightarrow> Registry" where
  "Registry_Remove i r = r\<lparr>rg_exits := gm_del i (rg_exits r)\<rparr>"

definition Registry_Snapshot :: "Registry \<Rightarrow> ExitInfo list" where
  "Registry_Snapshot r = sort_key ei_ID (map (\<lambda>(i, e). ee_info e) (rg_exits r))"

definition stale :: "int \<Rightarrow> Registry \<Rightarrow> exitEntry \<Rightarrow> bool" where
  "stale now r e \<longleftrightarrow> \<not> ee_persistent e \<and> time_Sub now (ee_heartbeat e) > rg_staleFor r"

definition Registry_Expire :: "int \<Rightarrow> Registry \<Rightarrow> ExitInfo list \<times> Registry" where
  "Registry_Expire now r =
     (let r' = r\<lparr>rg_exits := filter (\<lambda>(i, e). \<not> stale now r e) (rg_exits r)\<rparr>
      in (Registry_Snapshot r', r'))"

definition Registry_Get :: "string \<Rightarrow> Registry \<Rightarrow> ExitInfo option" where
  "Registry_Get i r = map_option ee_info (gm_get (rg_exits r) i)"

definition usable :: "ExitInfo \<Rightarrow> bool" where
  "usable i \<longleftrightarrow> ei_Health i = ''healthy'' \<and> ei_ActiveConnections i < ei_Capacity i"

definition score_of :: "ExitInfo \<Rightarrow> int" where
  "score_of i =
     (let available = wrap64 (ei_Capacity i - ei_ActiveConnections i)
      in wrap64 (wrap64 (available * 1000) - ei_LatencyMS i))"

text \<open>The body of the loop over the exits: what is selected so far and its score.\<close>

definition select_step :: "string \<times> exitEntry \<Rightarrow> ExitInfo option \<times> int \<Rightarrow> ExitInfo option \<times> int" where
  "select_step x acc =
     (let info = ee_info (snd x) in
      if \<not> usable info then acc
      else case acc of
        (None, score) \<Rightarrow> (Some info, score_of info)
      | (Some s, score) \<Rightarrow>
          if score_of info > score \<or> (score_of info = score \<and> ei_ID info < ei_ID s)
          then (Some info, score_of info) else acc)"

definition select_any :: "Registry \<Rightarrow> ExitInfo res" where
  "select_any r =
     (case List.find (\<lambda>(i, e). usable (ee_info e)) (rg_exits r) of
        None \<Rightarrow> Inl ErrNoExit | Some (i, e) \<Rightarrow> Inr (ee_info e))"

definition Registry_Select :: "string \<Rightarrow> bool \<Rightarrow> Registry \<Rightarrow> ExitInfo res" where
  "Registry_Select exitID fallback r =
     (if exitID = [] \<or> exitID = ''auto'' then
        (case fst (fold select_step (rg_exits r) (None, -1)) of None \<Rightarrow> Inl ErrNoExit | Some i \<Rightarrow> Inr i)
      else
        (case gm_get (rg_exits r) exitID of
           None \<Rightarrow> if \<not> fallback then Inl ErrExitUnavailable else select_any r
         | Some e \<Rightarrow>
             if \<not> usable (ee_info e) then (if \<not> fallback then Inl ErrExitUnavailable else select_any r)
             else Inr (ee_info e)))"

section \<open>The invariant\<close>

definition reg_ok :: "Registry \<Rightarrow> bool" where
  "reg_ok r \<longleftrightarrow> gm_ok (rg_exits r) \<and> list_all (\<lambda>(i, e). ei_ID (ee_info e) = i) (rg_exits r)"

lemma reg_okD: "reg_ok r \<Longrightarrow> (i, e) \<in> set (rg_exits r) \<Longrightarrow> ei_ID (ee_info e) = i"
  by (auto simp: reg_ok_def list_all_iff)

lemma reg_ok_set:
  "reg_ok r \<Longrightarrow> ei_ID (ee_info e) = i \<Longrightarrow> reg_ok (r\<lparr>rg_exits := gm_set i e (rg_exits r)\<rparr>)"
  unfolding reg_ok_def by (auto simp: list_all_iff dest: gm_set_in)

lemma beat_ID [simp]: "ei_ID (ee_info (beat now h e)) = ei_ID (ee_info e)"
  by (simp add: beat_def Let_def)

inductive reg_step :: "Registry \<Rightarrow> Registry \<Rightarrow> bool" where
  reg_step_add: "reg_step r (Registry_add now info health persistent r)"
| reg_step_beat: "reg_step r (Registry_Heartbeat now h r)"
| reg_step_remove: "reg_step r (Registry_Remove i r)"
| reg_step_expire: "reg_step r (snd (Registry_Expire now r))"

interpretation reg: transition_system "\<lambda>r. \<exists>st. r = NewRegistry st" reg_step .

lemma reg_step_ok: "reg_step r r' \<Longrightarrow> reg_ok r \<Longrightarrow> reg_ok r'"
proof (induction rule: reg_step.induct)
  case (reg_step_add r now info health persistent)
  then show ?case by (simp add: Registry_add_def reg_ok_set)
next
  case (reg_step_beat r now h)
  then show ?case
    by (auto simp: Registry_Heartbeat_def reg_okD dest!: gm_get_in split: option.splits intro!: reg_ok_set)
qed (auto simp: Registry_Remove_def Registry_Expire_def Let_def reg_ok_def list_all_iff gm_del_def)

lemma reach_reg_ok: "reg.reach r \<Longrightarrow> reg_ok r"
proof (rule reg.reach_invariant)
  show "\<exists>st. s = NewRegistry st \<Longrightarrow> reg_ok s" for s by (auto simp: NewRegistry_def reg_ok_def)
qed (auto intro: reg_step_ok)

section \<open>The best exit\<close>

text \<open>\<open>better a b\<close>: \<open>a\<close> is preferred to \<open>b\<close>, by score and then by ID.\<close>

definition better :: "ExitInfo \<Rightarrow> ExitInfo \<Rightarrow> bool" where
  "better a b \<longleftrightarrow> score_of a > score_of b \<or> (score_of a = score_of b \<and> ei_ID a < ei_ID b)"

definition best :: "ExitInfo \<Rightarrow> ExitInfo set \<Rightarrow> bool" where
  "best a X \<longleftrightarrow> a \<in> X \<and> usable a \<and> (\<forall>b \<in> X. usable b \<longrightarrow> \<not> better b a)"

definition infos :: "(string, exitEntry) gomap \<Rightarrow> ExitInfo set" where
  "infos xs = (\<lambda>x. ee_info (snd x)) ` set xs"

lemma better_trans: "better a b \<Longrightarrow> better b c \<Longrightarrow> better a c"
  by (auto simp: better_def)

lemma better_cases: "better a b \<or> better b a \<or> (score_of a = score_of b \<and> ei_ID a = ei_ID b)"
  by (auto simp: better_def)

lemma better_asym: "better a b \<Longrightarrow> \<not> better b a"
  by (auto simp: better_def)

definition select_ok :: "ExitInfo set \<Rightarrow> ExitInfo option \<times> int \<Rightarrow> bool" where
  "select_ok X acc \<longleftrightarrow>
     (case acc of (None, _) \<Rightarrow> (\<forall>b \<in> X. \<not> usable b) | (Some s, score) \<Rightarrow> best s X \<and> score = score_of s)"

lemma select_step_ok:
  assumes "select_ok X acc"
  shows "select_ok (insert (ee_info (snd x)) X) (select_step x acc)"
proof (cases acc)
  case (Pair sel score)
  let ?i = "ee_info (snd x)"
  show ?thesis
  proof (cases sel)
    case None
    with Pair assms show ?thesis
      by (auto simp: select_ok_def select_step_def best_def better_def Let_def)
  next
    case (Some s)
    with Pair assms have s: "best s X" "score = score_of s" by (simp_all add: select_ok_def)
    have step: "select_step x acc =
        (if usable ?i \<and> better ?i s then (Some ?i, score_of ?i) else (Some s, score_of s))"
      using Pair Some s(2) by (auto simp: select_step_def better_def Let_def)
    have "best ?i (insert ?i X)" if i: "usable ?i" "better ?i s"
    proof -
      have "\<not> better b ?i" if "b \<in> X" "usable b" for b
        using that s(1) i better_trans [of b ?i s] unfolding best_def by blast
      with i(1) better_asym [of ?i ?i] show ?thesis unfolding best_def by blast
    qed
    moreover have "\<not> (usable ?i \<and> better ?i s) \<Longrightarrow> best s (insert ?i X)"
      using s(1) by (auto simp: best_def)
    ultimately show ?thesis using step by (simp add: select_ok_def)
  qed
qed

lemma select_fold: "select_ok (infos xs) (fold select_step xs (None, -1))"
proof -
  have "select_ok X acc \<Longrightarrow> select_ok (X \<union> infos xs) (fold select_step xs acc)" for X acc xs
  proof (induction xs arbitrary: X acc)
    case (Cons x xs)
    from Cons.IH [OF select_step_ok [OF Cons.prems, of x]] show ?case
      by (simp add: infos_def insert_commute Un_insert_left)
  qed (simp add: infos_def)
  from this [of "{}" "(None, -1)" xs] show ?thesis by (simp add: select_ok_def)
qed

lemma select_auto:
  assumes "exitID = [] \<or> exitID = ''auto''"
  shows "case Registry_Select exitID fb r of
     Inl e \<Rightarrow> e = ErrNoExit \<and> (\<forall>b \<in> infos (rg_exits r). \<not> usable b) | Inr s \<Rightarrow> best s (infos (rg_exits r))"
  using select_fold [of "rg_exits r"] assms
  by (cases "fold select_step (rg_exits r) (None, -1)")
    (auto simp: Registry_Select_def select_ok_def split: option.splits)

lemma best_unique:
  assumes "reg_ok r" "best a (infos (rg_exits r))" "best b (infos (rg_exits r))"
  shows "a = b"
proof -
  have "\<not> better a b" "\<not> better b a" using assms(2,3) by (auto simp: best_def)
  then have id: "ei_ID a = ei_ID b" using better_cases [of a b] by blast
  obtain i e j f where "(i, e) \<in> set (rg_exits r)" "a = ee_info e" "(j, f) \<in> set (rg_exits r)" "b = ee_info f"
    using assms(2,3) by (auto simp: best_def infos_def)
  then show ?thesis
    using id reg_okD [OF assms(1)] gm_in_get [of "rg_exits r"] assms(1)
    by (metis option.inject reg_ok_def)
qed

section \<open>Properties\<close>

text \<open>
  C32 (catalogue invariant). Whatever the order of registrations, heartbeats, removals and expiries,
  every entry of the registry is filed under the ID it announces, with no ID twice; a snapshot
  lists exactly the registered exits, in ascending order of their IDs.
\<close>

theorem registry_invariant:
  assumes "reg.reach r"
  shows "reg_ok r \<and> sorted (map ei_ID (Registry_Snapshot r)) \<and> distinct (map ei_ID (Registry_Snapshot r))
    \<and> set (Registry_Snapshot r) = infos (rg_exits r)"
proof -
  have ok: "reg_ok r" by (rule reach_reg_ok [OF assms])
  have ids: "map ei_ID (map (\<lambda>(i, e). ee_info e) (rg_exits r)) = map fst (rg_exits r)"
    using reg_okD [OF ok] by (auto simp: comp_def)
  have "distinct (map ei_ID (map (\<lambda>(i, e). ee_info e) (rg_exits r)))"
    unfolding ids using ok by (simp add: reg_ok_def gm_ok_def)
  then have "distinct (map ei_ID (Registry_Snapshot r))"
    unfolding Registry_Snapshot_def distinct_map [of ei_ID] set_sort distinct_sort by blast
  moreover have "set (Registry_Snapshot r) = infos (rg_exits r)"
    by (force simp: Registry_Snapshot_def infos_def)
  ultimately show ?thesis using ok by (simp add: Registry_Snapshot_def)
qed

definition ex_exit :: "string \<Rightarrow> int \<Rightarrow> int \<Rightarrow> ExitInfo" where
  "ex_exit i active latency = \<lparr>ei_ID = i, ei_Name = i, ei_Type = ''exit'', ei_Health = ''healthy'', ei_LatencyMS = latency,
     ei_ActiveConnections = active, ei_Capacity = 10, ei_Features = [], ei_HeartbeatTime = 0\<rparr>"

definition ex_registry :: Registry where
  "ex_registry = Registry_add 0 (ex_exit ''a'' 9 0) ''healthy'' False
     (Registry_add 0 (ex_exit ''b'' 1 20) ''healthy'' False (NewRegistry 0))"

lemma ex_registry_reach: "reg.reach ex_registry"
  unfolding ex_registry_def by (intro reg.reach_step [OF _ reg_step_add] reg.reach_init) blast

theorem registry_invariant_witness:
  "sorted (map ei_ID (Registry_Snapshot ex_registry)) \<and> Registry_Snapshot ex_registry \<noteq> []"
  using registry_invariant [OF ex_registry_reach]
  by (auto simp: infos_def ex_registry_def Registry_add_def NewRegistry_def)

text \<open>
  C33 (selection). Automatic selection returns a usable exit (healthy, with capacity left) that no
  other usable exit beats on score, nor on ID at the same score; it fails exactly when no exit is
  usable. The choice does not depend on the order in which the map is iterated.
\<close>

theorem select_best_any_order:
  assumes "reg_ok r" and "set (rg_exits r') = set (rg_exits r)" and "reg_ok r'" and "exitID = [] \<or> exitID = ''auto''"
  shows "Registry_Select exitID fallback r' = Registry_Select exitID fallback r
    \<and> (case Registry_Select exitID fallback r of
        Inl e \<Rightarrow> e = ErrNoExit \<and> (\<forall>b \<in> infos (rg_exits r). \<not> usable b)
      | Inr s \<Rightarrow> best s (infos (rg_exits r)))"
proof -
  have i: "infos (rg_exits r') = infos (rg_exits r)" using assms(2) by (simp add: infos_def)
  note s = select_auto [OF assms(4), where fb = fallback and r = r]
    and s' = select_auto [OF assms(4), where fb = fallback and r = r']
  have "Registry_Select exitID fallback r' = Registry_Select exitID fallback r"
    using s s' best_unique [OF assms(1)] unfolding i
    by (cases "Registry_Select exitID fallback r"; cases "Registry_Select exitID fallback r'")
      (auto simp: best_def)
  with s show ?thesis by simp
qed

theorem select_best_any_order_witness:
  "Registry_Select ''auto'' False (ex_registry\<lparr>rg_exits := rev (rg_exits ex_registry)\<rparr>) = Registry_Select ''auto'' False ex_registry
   \<and> (\<exists>s. Registry_Select ''auto'' False ex_registry = Inr s)"
proof -
  let ?r = "ex_registry\<lparr>rg_exits := rev (rg_exits ex_registry)\<rparr>"
  have ok: "reg_ok ex_registry" by (rule reach_reg_ok [OF ex_registry_reach])
  then have ok': "reg_ok ?r" by (simp add: reg_ok_def gm_ok_def rev_map [symmetric])
  have "\<exists>b \<in> infos (rg_exits ex_registry). usable b"
    by (simp add: infos_def ex_registry_def Registry_add_def NewRegistry_def usable_def ex_exit_def)
  then show ?thesis
    using select_best_any_order [OF ok _ ok', of "''auto''" False] by (auto split: sum.splits)
qed

text \<open>
  Remark (named exit). Selecting an exit by its ID returns that exit when it is usable; otherwise the
  call fails as unavailable, or, with the fallback allowed, returns some usable exit and fails only
  when there is none.
\<close>

theorem select_named:
  assumes "reg_ok r" and "exitID \<noteq> []" and "exitID \<noteq> ''auto''"
  shows "case Registry_Select exitID fallback r of
      Inr s \<Rightarrow> usable s \<and> s \<in> infos (rg_exits r) \<and> (ei_ID s = exitID \<or> (fallback \<and>
        (\<forall>b \<in> infos (rg_exits r). ei_ID b = exitID \<longrightarrow> \<not> usable b)))
    | Inl e \<Rightarrow> (\<forall>b \<in> infos (rg_exits r). ei_ID b = exitID \<longrightarrow> \<not> usable b) \<and>
        (if fallback then e = ErrNoExit \<and> (\<forall>b \<in> infos (rg_exits r). \<not> usable b) else e = ErrExitUnavailable)"
proof -
  have any: "case select_any r of
      Inr s \<Rightarrow> usable s \<and> s \<in> infos (rg_exits r)
    | Inl e \<Rightarrow> e = ErrNoExit \<and> (\<forall>b \<in> infos (rg_exits r). \<not> usable b)"
    by (auto simp: select_any_def infos_def find_None_iff find_Some_iff in_set_conv_nth split: option.splits)
      (metis (no_types, lifting) nth_mem snd_conv image_eqI)+
  have un: "\<forall>b \<in> infos (rg_exits r). ei_ID b = exitID \<longrightarrow> \<not> usable b"
    if "\<And>e. gm_get (rg_exits r) exitID = Some e \<Longrightarrow> \<not> usable (ee_info e)"
  proof (intro ballI impI)
    fix b assume "b \<in> infos (rg_exits r)" "ei_ID b = exitID"
    then obtain i e where e: "(i, e) \<in> set (rg_exits r)" "b = ee_info e" by (auto simp: infos_def)
    with reg_okD [OF assms(1) e(1)] \<open>ei_ID b = exitID\<close> have "gm_get (rg_exits r) exitID = Some e"
      using assms(1) by (auto simp: reg_ok_def gm_in_get)
    with that e(2) show "\<not> usable b" by blast
  qed
  have found: "ee_info e \<in> infos (rg_exits r) \<and> ei_ID (ee_info e) = exitID" if "gm_get (rg_exits r) exitID = Some e" for e
    using gm_get_in [OF that] reg_okD [OF assms(1)] by (force simp: infos_def)
  show ?thesis
    using assms(2,3) any un found
    by (auto simp: Registry_Select_def split: option.splits sum.splits)
qed

theorem select_named_witness: "\<exists>s. Registry_Select ''b'' False ex_registry = Inr s \<and> ei_ID s = ''b''"
proof -
  have "\<exists>s. Registry_Select ''b'' False ex_registry = Inr s"
    by (simp add: Registry_Select_def ex_registry_def Registry_add_def NewRegistry_def gm_get_def usable_def ex_exit_def)
  then show ?thesis
    using select_named [OF reach_reg_ok [OF ex_registry_reach], of "''b''" False] by auto
qed

text \<open>
  C30 (expiry). \<open>Expire\<close> removes exactly the exits that are not persistent and whose last heartbeat is
  older than the stale time, keeps every other entry as it is, and returns the catalogue of what is
  left. A heartbeat keeps its exit from expiring for the stale time; one for an exit that is not
  registered changes nothing.
\<close>

theorem expiry_exact:
  assumes "reg_ok r" and "Registry_Expire now r = (cat, r')"
  shows "gm_get (rg_exits r') i = (case gm_get (rg_exits r) i of
      None \<Rightarrow> None
    | Some e \<Rightarrow> if \<not> ee_persistent e \<and> time_Sub now (ee_heartbeat e) > rg_staleFor r then None else Some e)
    \<and> set cat = infos (rg_exits r') \<and>
    (gm_get (rg_exits r) (hb_ExitID h) = None \<longrightarrow> Registry_Heartbeat t h r = r) \<and>
    (gm_get (rg_exits r) (hb_ExitID h) \<noteq> None \<and> time_Sub now t \<le> rg_staleFor r \<longrightarrow>
       gm_get (rg_exits (snd (Registry_Expire now (Registry_Heartbeat t h r)))) (hb_ExitID h) \<noteq> None)"
proof -
  have ok: "gm_ok (rg_exits r)" using assms(1) by (simp add: reg_ok_def)
  have ok': "gm_ok (rg_exits (Registry_Heartbeat t h r))"
    using reg_step_ok [OF reg_step_beat assms(1)] by (simp add: reg_ok_def)
  have "set cat = infos (rg_exits r')"
    using assms(2) by (force simp: Registry_Expire_def Registry_Snapshot_def infos_def Let_def)
  then show ?thesis
    using assms(2) gm_get_filter [OF ok] gm_get_filter [OF ok']
    by (auto simp: Registry_Expire_def Let_def stale_def Registry_Heartbeat_def beat_def split: option.splits)
qed

theorem expiry_exact_witness:
  "gm_get (rg_exits (snd (Registry_Expire (60 * second) ex_registry))) ''a'' = None"
proof -
  obtain cat r' where e: "Registry_Expire (60 * second) ex_registry = (cat, r')" by fastforce
  from expiry_exact [OF reach_reg_ok [OF ex_registry_reach] e, of "''a''"] e show ?thesis
    by (auto simp: ex_registry_def Registry_add_def NewRegistry_def gm_get_def ex_exit_def time_Sub_def second_def
        split: if_splits)
qed

text \<open>
  C0 (health). For the loads an exit can have (up to about \<open>9 * 10 ^ 16\<close>, where nothing overflows), it is at
  capacity when it has no connection left, degraded above nine tenths of its capacity, healthy
  otherwise; a usable exit always has a connection left.
\<close>

theorem health_thresholds:
  assumes "0 \<le> active" and "active \<le> 2 ^ 56" and "capacity \<le> 2 ^ 56"
  shows "healthFor active capacity =
    (if active \<ge> capacity then ''at-capacity'' else if 10 * active > 9 * capacity then ''degraded'' else ''healthy'')"
proof -
  have "int64 (active * 100)" "0 < capacity \<Longrightarrow> int64 (capacity * 90)" using assms by (simp_all add: int64_def)
  then show ?thesis using assms by (auto simp: healthFor_def wrap64_id)
qed

theorem health_thresholds_witness: "healthFor 95 100 = ''degraded'' \<and> healthFor 90 100 = ''healthy''"
  using health_thresholds [of 95 100] health_thresholds [of 90 100] by simp

end
