(* ===== verification/Files.thy ===== *)
theory Files
  imports Prelude
begin

text \<open>
  The part of package \<open>os\<close> the repository uses on its files: reading, writing, changing the mode,
  renaming and removing. The state is what every path holds; the outcome of each coming system
  call is given in advance (\<open>None\<close>: it succeeds), so that every error path of the callers is
  reached by some state. The interface \<open>atomic_writer\<close> is what the callers of the temporary-file
  idiom rely on.
\<close>

record fs_file =
  fl_data :: bytes
  fl_mode :: nat

record fs =
  fs_files :: "string \<rightharpoonup> fs_file"
  fs_calls :: "(nat \<times> error) option list"

definition next_call :: "fs \<Rightarrow> (nat \<times> error) option \<times> fs" where
  "next_call s = (case fs_calls s of [] \<Rightarrow> (None, s) | x # xs \<Rightarrow> (x, s\<lparr>fs_calls := xs\<rparr>))"

definition os_MkdirAll :: "string \<Rightarrow> fs \<Rightarrow> error option \<times> fs" where
  "os_MkdirAll p s = (case next_call s of (None, s') \<Rightarrow> (None, s') | (Some (n, e), s') \<Rightarrow> (Some e, s'))"

text \<open>
  \<open>os.WriteFile\<close>: a call that fails leaves the file alone when it could not be opened (\<open>n = 0\<close>), and
  cut to its first \<open>n - 1\<close> bytes otherwise. An existing file keeps its mode.
\<close>

definition os_WriteFile :: "string \<Rightarrow> bytes \<Rightarrow> nat \<Rightarrow> fs \<Rightarrow> error option \<times> fs" where
  "os_WriteFile p d m s =
     (case next_call s of
        (r, s') \<Rightarrow>
          let mode = (case fs_files s p of None \<Rightarrow> m | Some f \<Rightarrow> fl_mode f);
              put = (\<lambda>x. s'\<lparr>fs_files := (fs_files s')(p \<mapsto> \<lparr>fl_data = x, fl_mode = mode\<rparr>)\<rparr>)
          in case r of
               None \<Rightarrow> (None, put d)
             | Some (n, e) \<Rightarrow> (Some e, if n = 0 then s' else put (take (n - 1) d)))"

definition os_Chmod :: "string \<Rightarrow> nat \<Rightarrow> fs \<Rightarrow> error option \<times> fs" where
  "os_Chmod p m s =
     (case next_call s of
        (Some (n, e), s') \<Rightarrow> (Some e, s')
      | (None, s') \<Rightarrow>
          (case fs_files s p of
             None \<Rightarrow> (Some ErrNotExist, s')
           | Some f \<Rightarrow> (None, s'\<lparr>fs_files := (fs_files s')(p \<mapsto> f\<lparr>fl_mode := m\<rparr>)\<rparr>)))"

definition os_Rename :: "string \<Rightarrow> string \<Rightarrow> fs \<Rightarrow> error option \<times> fs" where
  "os_Rename a b s =
     (case next_call s of
        (Some (n, e), s') \<Rightarrow> (Some e, s')
      | (None, s') \<Rightarrow>
          (case fs_files s a of
             None \<Rightarrow> (Some ErrNotExist, s')
           | Some f \<Rightarrow> (None, s'\<lparr>fs_files := (fs_files s')(a := None, b \<mapsto> f)\<rparr>)))"

definition os_Remove :: "string \<Rightarrow> fs \<Rightarrow> error option \<times> fs" where
  "os_Remove p s =
     (case next_call s of
        (Some (n, e), s') \<Rightarrow> (Some e, s')
      | (None, s') \<Rightarrow>
          (case fs_files s p of
             None \<Rightarrow> (Some ErrNotExist, s')
           | Some f \<Rightarrow> (None, s'\<lparr>fs_files := (fs_files s')(p := None)\<rparr>)))"

definition os_ReadFile :: "string \<Rightarrow> fs \<Rightarrow> bytes res \<times> fs" where
  "os_ReadFile p s =
     (case next_call s of
        (Some (n, e), s') \<Rightarrow> (Inl e, s')
      | (None, s') \<Rightarrow> (case fs_files s p of None \<Rightarrow> (Inl ErrNotExist, s') | Some f \<Rightarrow> (Inr (fl_data f), s')))"

lemma next_call_files [simp]: "next_call s = (r, s') \<Longrightarrow> fs_files s' = fs_files s"
  by (auto simp: next_call_def split: list.splits)

section \<open>Replacing a file\<close>

text \<open>
  The idiom of the source: make the directory, write a temporary file beside the target, adjust
  its mode where the caller does so, rename it over the target; a failed step after the write
  removes the temporary file.
\<close>

definition temp_of :: "string \<Rightarrow> string" where
  "temp_of p = p @ ''.tmp''"

definition replace_file :: "string \<Rightarrow> nat option \<Rightarrow> bytes \<Rightarrow> nat \<Rightarrow> fs \<Rightarrow> error option \<times> fs" where
  "replace_file p chmod d m s =
     (case os_MkdirAll p s of
        (Some e, s1) \<Rightarrow> (Some e, s1)
      | (None, s1) \<Rightarrow>
          (case os_WriteFile (temp_of p) d m s1 of
             (Some e, s2) \<Rightarrow> (Some e, s2)
           | (None, s2) \<Rightarrow>
               (case (case chmod of None \<Rightarrow> (None, s2) | Some m' \<Rightarrow> os_Chmod (temp_of p) m' s2) of
                  (Some e, s3) \<Rightarrow> (Some e, snd (os_Remove (temp_of p) s3))
                | (None, s3) \<Rightarrow>
                    (case os_Rename (temp_of p) p s3 of
                       (Some e, s4) \<Rightarrow> (Some e, snd (os_Remove (temp_of p) s4))
                     | (None, s4) \<Rightarrow> (None, s4)))))"

lemma temp_of_neq [simp]: "temp_of p \<noteq> p" "p \<noteq> temp_of p"
  by (simp_all add: temp_of_def)

lemma os_frame:
  "os_MkdirAll p s = (x, s') \<Longrightarrow> fs_files s' = fs_files s"
  "os_WriteFile p d m s = (x, s') \<Longrightarrow> q \<noteq> p \<Longrightarrow> fs_files s' q = fs_files s q"
  "os_Chmod p m s = (x, s') \<Longrightarrow> q \<noteq> p \<Longrightarrow> fs_files s' q = fs_files s q"
  "os_Rename a p s = (x, s') \<Longrightarrow> q \<noteq> p \<Longrightarrow> q \<noteq> a \<Longrightarrow> fs_files s' q = fs_files s q"
  "q \<noteq> p \<Longrightarrow> fs_files (snd (os_Remove p s)) q = fs_files s q"
  by (auto simp: os_MkdirAll_def os_WriteFile_def os_Chmod_def os_Rename_def os_Remove_def Let_def
      split: prod.splits option.splits if_splits)

lemma os_done:
  "os_WriteFile p d m s = (None, s') \<Longrightarrow> \<exists>m'. fs_files s' p = Some \<lparr>fl_data = d, fl_mode = m'\<rparr>"
  "os_Chmod p m s = (None, s') \<Longrightarrow> fs_files s p = Some f \<Longrightarrow> fs_files s' p = Some (f\<lparr>fl_mode := m\<rparr>)"
  "os_Rename a p s = (None, s') \<Longrightarrow> a \<noteq> p \<Longrightarrow> fs_files s' p = fs_files s a \<and> fs_files s' a = None"
  "os_Rename a p s = (Some e, s') \<Longrightarrow> fs_files s' = fs_files s"
  by (auto simp: os_WriteFile_def os_Chmod_def os_Rename_def Let_def split: prod.splits option.splits if_splits)

lemma replace_file_done:
  assumes "replace_file p chmod d m s = (None, s')"
  shows "(\<exists>m'. fs_files s' p = Some \<lparr>fl_data = d, fl_mode = m'\<rparr> \<and> (\<forall>x. chmod = Some x \<longrightarrow> m' = x))
    \<and> fs_files s' (temp_of p) = None"
proof -
  obtain s1 s2 s3 where s: "os_WriteFile (temp_of p) d m s1 = (None, s2)"
    "(case chmod of None \<Rightarrow> (None, s2) | Some m' \<Rightarrow> os_Chmod (temp_of p) m' s2) = (None, s3)"
    "os_Rename (temp_of p) p s3 = (None, s')"
    using assms by (auto simp: replace_file_def split: prod.splits option.splits)
  obtain m' where m: "fs_files s2 (temp_of p) = Some \<lparr>fl_data = d, fl_mode = m'\<rparr>" using os_done(1) [OF s(1)] by blast
  have "\<exists>m'. fs_files s3 (temp_of p) = Some \<lparr>fl_data = d, fl_mode = m'\<rparr> \<and> (\<forall>x. chmod = Some x \<longrightarrow> m' = x)"
    using s(2) m os_done(2) [of "temp_of p" _ s2 s3] by (cases chmod) auto
  with os_done(3) [OF s(3)] show ?thesis by simp
qed

lemma replace_file_others:
  assumes "replace_file p chmod d m s = (x, s')" "q \<noteq> temp_of p" "q \<noteq> p \<or> x \<noteq> None"
  shows "fs_files s' q = fs_files s q"
proof -
  obtain r1 s1 where 1: "os_MkdirAll p s = (r1, s1)" by fastforce
  obtain r2 s2 where 2: "os_WriteFile (temp_of p) d m s1 = (r2, s2)" by fastforce
  obtain r3 s3 where 3: "(case chmod of None \<Rightarrow> (None, s2) | Some m' \<Rightarrow> os_Chmod (temp_of p) m' s2) = (r3, s3)" by fastforce
  obtain r4 s4 where 4: "os_Rename (temp_of p) p s3 = (r4, s4)" by fastforce
  have "fs_files s1 q = fs_files s q" "fs_files s2 q = fs_files s1 q"
    using os_frame(1) [OF 1] os_frame(2) [OF 2 assms(2)] by simp_all
  moreover have "fs_files s3 q = fs_files s2 q"
    using 3 os_frame(3) [OF _ assms(2)] by (cases chmod) auto
  moreover have "q \<noteq> p \<or> r4 \<noteq> None \<Longrightarrow> fs_files s4 q = fs_files s3 q"
    using os_frame(4) [OF 4] os_done(4) [of "temp_of p" p s3 _ s4] 4 assms(2) by (cases r4) auto
  moreover have "s' \<in> {s1, s2, snd (os_Remove (temp_of p) s3)} \<or> (s' = snd (os_Remove (temp_of p) s4) \<and> r4 \<noteq> None)
      \<or> (s' = s4 \<and> x = None)"
    using assms(1) unfolding replace_file_def 1 prod.case 2 3 4 by (auto split: option.splits)
  ultimately show ?thesis using os_frame(5) [OF assms(2)] assms(3) by auto
qed

section \<open>The interface of an atomic writer\<close>

locale atomic_writer =
  fixes path :: string
    and wr :: "bytes \<Rightarrow> fs \<Rightarrow> error option \<times> fs"
  assumes written: "wr d s = (None, s') \<Longrightarrow> map_option fl_data (fs_files s' path) = Some d"
    and unwritten: "wr d s = (Some e, s') \<Longrightarrow> fs_files s' path = fs_files s path"
    and others: "wr d s = (x, s') \<Longrightarrow> q \<noteq> path \<Longrightarrow> q \<noteq> temp_of path \<Longrightarrow> fs_files s' q = fs_files s q"
begin

text \<open>After any sequence of attempts the file holds the last successful one.\<close>

fun attempts :: "bytes list \<Rightarrow> fs \<Rightarrow> bytes option \<Rightarrow> bytes option \<times> fs" where
  "attempts [] s cur = (cur, s)"
| "attempts (d # ds) s cur =
     (case wr d s of (None, s') \<Rightarrow> attempts ds s' (Some d) | (Some e, s') \<Rightarrow> attempts ds s' cur)"

lemma attempts_last:
  "map_option fl_data (fs_files s path) = cur \<Longrightarrow> attempts ds s cur = (l, s') \<Longrightarrow>
   map_option fl_data (fs_files s' path) = l"
proof (induction ds arbitrary: s cur)
  case (Cons d ds)
  obtain r t where r: "wr d s = (r, t)" by (cases "wr d s")
  show ?case
  proof (cases r)
    case None
    with r Cons.IH [of t "Some d"] Cons.prems written [of d s t] show ?thesis by simp
  next
    case (Some e)
    with r Cons.IH [of t cur] Cons.prems unwritten [of d s e t] show ?thesis by simp
  qed
qed simp

text \<open>What is read after an attempt is the new content or the old one, never a part of either.\<close>

lemma all_or_nothing:
  "wr d s = (x, s') \<Longrightarrow>
   map_option fl_data (fs_files s' path) \<in> {Some d, map_option fl_data (fs_files s path)}"
  using written [of d s s'] unwritten [of d s _ s'] by (cases x) auto

end

interpretation replace: atomic_writer p "\<lambda>d. replace_file p chmod d m" for p chmod m
  using replace_file_done replace_file_others by unfold_locales fastforce+

end
