(* ===== verification/Auth.thy ===== *)
theory Auth
  imports Messages Sha256 Files
begin

text \<open>
  \<open>src/internal/auth\<close>: the password verifier and its file, the sources of a passphrase, the
  challenge-response handshake from both sides, and the limiter of failed attempts. The key
  derivation (\<open>argon2.IDKey\<close>) is a parameter of the definitions that use it; what
  \<open>crypto/rand\<close> returns and the clock are arguments.
\<close>

section \<open>Verifiers\<close>

definition defaultMemory :: u32 where "defaultMemory = 64 * 1024"
definition defaultIterations :: u32 where "defaultIterations = 3"
definition defaultParallelism :: byte where "defaultParallelism = 2"
definition keyLength :: nat where "keyLength = 32"
definition saltLength :: nat where "saltLength = 16"

definition ErrInvalidPassword :: error where "ErrInvalidPassword = Msg ''authentication failed''"
definition ErrRateLimited :: error where "ErrRateLimited = Msg ''too many authentication failures''"

record Parameters =
  pa_Memory :: u32
  pa_Iterations :: u32
  pa_Parallelism :: byte

record VerifierFile =
  vff_Version :: int
  vff_Salt :: string
  vff_Hash :: string
  vff_Params :: Parameters

record Verifier =
  vf_Salt :: bytes
  vf_Hash :: bytes
  vf_Params :: Parameters

text \<open>\<open>argon2.IDKey(password, salt, time, memory, threads, keyLen)\<close>.\<close>

type_synonym kdf = "bytes \<Rightarrow> bytes \<Rightarrow> u32 \<Rightarrow> u32 \<Rightarrow> byte \<Rightarrow> nat \<Rightarrow> bytes"

definition DefaultParameters :: Parameters where
  "DefaultParameters = \<lparr>pa_Memory = defaultMemory, pa_Iterations = defaultIterations,
     pa_Parallelism = defaultParallelism\<rparr>"

definition Derive :: "kdf \<Rightarrow> string \<Rightarrow> bytes \<Rightarrow> Parameters \<Rightarrow> bytes" where
  "Derive kdf passphrase salt params =
     (let p = (if pa_Memory params = 0 then DefaultParameters else params) in
      kdf (bytes_of passphrase) salt (pa_Iterations p) (pa_Memory p) (pa_Parallelism p) keyLength)"

text \<open>\<open>rnd\<close> is the outcome of filling the salt from \<open>crypto/rand\<close>.\<close>

definition NewVerifier :: "kdf \<Rightarrow> bytes res \<Rightarrow> string \<Rightarrow> Verifier res" where
  "NewVerifier kdf rnd passphrase =
     (case rnd of
        Inl e \<Rightarrow> Inl e
      | Inr salt \<Rightarrow>
          Inr \<lparr>vf_Salt = salt, vf_Hash = Derive kdf passphrase salt DefaultParameters, vf_Params = DefaultParameters\<rparr>)"

definition Verifier_Verify :: "kdf \<Rightarrow> Verifier \<Rightarrow> string \<Rightarrow> bool" where
  "Verifier_Verify kdf v passphrase \<longleftrightarrow> Derive kdf passphrase (vf_Salt v) (vf_Params v) = vf_Hash v"

definition ChallengeResponse :: "Verifier \<Rightarrow> bytes \<Rightarrow> bytes" where
  "ChallengeResponse v nonce = hmac_sha256 (vf_Hash v) (bytes_of ''lnproxy-auth-v1'' @ nonce)"

definition VerifyChallenge :: "Verifier \<Rightarrow> bytes \<Rightarrow> bytes \<Rightarrow> bool" where
  "VerifyChallenge v nonce response \<longleftrightarrow> ChallengeResponse v nonce = response"

section \<open>The verifier file\<close>

definition Parameters_json :: "Parameters \<Rightarrow> json" where
  "Parameters_json p = JObj [(''memory_kib'', word_j (pa_Memory p)), (''iterations'', word_j (pa_Iterations p)),
     (''parallelism'', word_j (pa_Parallelism p))]"

definition json_Parameters :: "json \<Rightarrow> Parameters option" where
  "json_Parameters v =
     (case jstruct v of
        None \<Rightarrow> None
      | Some fs \<Rightarrow>
          (case (jfield j_word ''memory_kib'' (Some 0) fs, jfield j_word ''iterations'' (Some 0) fs,
                 jfield j_word ''parallelism'' (Some 0) fs) of
             (Some a, Some b, Some c) \<Rightarrow> Some \<lparr>pa_Memory = a, pa_Iterations = b, pa_Parallelism = c\<rparr>
           | _ \<Rightarrow> None))"

definition VerifierFile_json :: "VerifierFile \<Rightarrow> json" where
  "VerifierFile_json f = JObj [(''version'', JInt (vff_Version f)), (''salt'', JStr (vff_Salt f)),
     (''hash'', JStr (vff_Hash f)), (''params'', Parameters_json (vff_Params f))]"

definition zero_params :: Parameters where
  "zero_params = \<lparr>pa_Memory = 0, pa_Iterations = 0, pa_Parallelism = 0\<rparr>"

definition json_VerifierFile :: "json \<Rightarrow> VerifierFile option" where
  "json_VerifierFile v =
     (case jstruct v of
        None \<Rightarrow> None
      | Some fs \<Rightarrow>
          (case (jfield j_int ''version'' (Some 0) fs, jfield j_string ''salt'' (Some []) fs,
                 jfield j_string ''hash'' (Some []) fs, jfield json_Parameters ''params'' (Some zero_params) fs) of
             (Some a, Some b, Some c, Some d) \<Rightarrow>
               Some \<lparr>vff_Version = a, vff_Salt = b, vff_Hash = c, vff_Params = d\<rparr>
           | _ \<Rightarrow> None))"

definition mode_0600 :: nat where "mode_0600 = 6 * 8 * 8"

definition writePrivateFile :: "string \<Rightarrow> bytes \<Rightarrow> fs \<Rightarrow> error option \<times> fs" where
  "writePrivateFile p d = replace_file p (Some mode_0600) d mode_0600"

definition Verifier_Save :: "Verifier \<Rightarrow> string \<Rightarrow> fs \<Rightarrow> error option \<times> fs" where
  "Verifier_Save v path s =
     writePrivateFile path
       (MarshalIndent (VerifierFile_json
          \<lparr>vff_Version = 1, vff_Salt = b64_encode False (vf_Salt v), vff_Hash = b64_encode False (vf_Hash v),
           vff_Params = vf_Params v\<rparr>) @ [10]) s"

definition LoadVerifier :: "string \<Rightarrow> fs \<Rightarrow> Verifier res \<times> fs" where
  "LoadVerifier path s =
     (case os_ReadFile path s of
        (Inl e, s') \<Rightarrow> (Inl e, s')
      | (Inr d, s') \<Rightarrow>
          (case Unmarshal d of
             None \<Rightarrow> (Inl (Wrapped ''parse verifier: '' json_error), s')
           | Some j \<Rightarrow>
               (case json_VerifierFile j of
                  None \<Rightarrow> (Inl (Wrapped ''parse verifier: '' json_error), s')
                | Some f \<Rightarrow>
                    if vff_Version f \<noteq> 1
                    then (Inl (Msg (''unsupported verifier version '' @ Itoa (vff_Version f))), s')
                    else
                      (case b64_decode False (vff_Salt f) of
                         None \<Rightarrow> (Inl (Wrapped ''decode salt: '' (Msg ''base64'')), s')
                       | Some salt \<Rightarrow>
                           (case b64_decode False (vff_Hash f) of
                              None \<Rightarrow> (Inl (Wrapped ''decode hash: '' (Msg ''base64'')), s')
                            | Some hash \<Rightarrow>
                                if length salt < 8 \<or> length hash \<noteq> keyLength
                                then (Inl (Msg ''invalid verifier file''), s')
                                else (Inr \<lparr>vf_Salt = salt, vf_Hash = hash, vf_Params = vff_Params f\<rparr>, s'))))))"

section \<open>Passphrases\<close>

text \<open>
  \<open>PromptPassphrase\<close>: \<open>tty\<close> says whether standard input is a terminal, \<open>first\<close> and \<open>second\<close> are the
  outcomes of the two calls of \<open>term.ReadPassword\<close>.
\<close>

definition PromptPassphrase :: "bool \<Rightarrow> bytes res \<Rightarrow> bytes res \<Rightarrow> bool \<Rightarrow> string res" where
  "PromptPassphrase tty first second confirm =
     (if \<not> tty then Inl (Msg ''standard input is not a terminal; use env: or file: passphrase source'')
      else case first of
        Inl e \<Rightarrow> Inl e
      | Inr a \<Rightarrow>
          if length a = 0 then Inl (Msg ''passphrase cannot be empty'')
          else if \<not> confirm then Inr (string_of a)
          else case second of
            Inl e \<Rightarrow> Inl e
          | Inr b \<Rightarrow> if a \<noteq> b then Inl (Msg ''passphrases do not match'') else Inr (string_of a))"

definition ResolvePassphrase ::
  "(string \<Rightarrow> string option) \<Rightarrow> (string \<Rightarrow> bytes res) \<Rightarrow> string res \<Rightarrow> string \<Rightarrow> string res" where
  "ResolvePassphrase env read prompted source =
     (if source = ''prompt'' then prompted
      else if HasPrefix source ''env:'' then
        let name = TrimPrefix source ''env:'' in
        if name = [] then Inl (Msg ''invalid environment passphrase source'')
        else (case env name of
                None \<Rightarrow> Inl (Msg (''environment variable '' @ name @ '' is not set''))
              | Some value \<Rightarrow>
                  if value = [] then Inl (Msg (''environment variable '' @ name @ '' is not set''))
                  else Inr value)
      else if HasPrefix source ''file:'' then
        let path = TrimPrefix source ''file:'' in
        if path = [] then Inl (Msg ''invalid file passphrase source'')
        else (case read path of
                Inl e \<Rightarrow> Inl e
              | Inr d \<Rightarrow>
                  let value = TrimRight (string_of d) [CHR 0x0D, CHR 0x0A] in
                  if value = [] then Inl (Msg ''passphrase file is empty'') else Inr value)
      else Inl (Msg (''unsupported passphrase source '' @ quoted source)))"

section \<open>The handshake\<close>

definition RoleClient :: string where "RoleClient = ''client''"
definition RoleExit :: string where "RoleExit = ''exit''"

record challengePayload =
  ch_Version :: int
  ch_Nonce :: bytes
  ch_Salt :: bytes
  ch_Iterations :: u32
  ch_Memory :: u32
  ch_Parallelism :: byte

definition challenge_json :: "challengePayload \<Rightarrow> json" where
  "challenge_json c = JObj [(''version'', JInt (ch_Version c)), (''nonce'', bytes_j (ch_Nonce c)),
     (''salt'', bytes_j (ch_Salt c)), (''iterations'', word_j (ch_Iterations c)), (''memory_kib'', word_j (ch_Memory c)),
     (''parallelism'', word_j (ch_Parallelism c))]"

definition json_challenge :: "json \<Rightarrow> challengePayload option" where
  "json_challenge v =
     (case jstruct v of
        None \<Rightarrow> None
      | Some fs \<Rightarrow>
          (case (jfield j_int ''version'' (Some 0) fs, jfield j_bytes ''nonce'' (Some []) fs,
                 jfield j_bytes ''salt'' (Some []) fs, jfield j_word ''iterations'' (Some 0) fs,
                 jfield j_word ''memory_kib'' (Some 0) fs, jfield j_word ''parallelism'' (Some 0) fs) of
             (Some a, Some b, Some c, Some d, Some e, Some f) \<Rightarrow>
               Some \<lparr>ch_Version = a, ch_Nonce = b, ch_Salt = c, ch_Iterations = d, ch_Memory = e, ch_Parallelism = f\<rparr>
           | _ \<Rightarrow> None))"

definition challenge_of :: "Verifier \<Rightarrow> bytes \<Rightarrow> challengePayload" where
  "challenge_of v nonce = \<lparr>ch_Version = Version, ch_Nonce = nonce, ch_Salt = vf_Salt v,
     ch_Iterations = pa_Iterations (vf_Params v), ch_Memory = pa_Memory (vf_Params v),
     ch_Parallelism = pa_Parallelism (vf_Params v)\<rparr>"

text \<open>\<open>rnd\<close> is the outcome of reading the 32 bytes of the nonce.\<close>

definition makeChallenge :: "bytes res \<Rightarrow> Verifier \<Rightarrow> bytes res" where
  "makeChallenge rnd v =
     (case rnd of Inl e \<Rightarrow> Inl e | Inr nonce \<Rightarrow> Inr (Marshal (challenge_json (challenge_of v nonce))))"

definition challenge_ok :: "challengePayload \<Rightarrow> bool" where
  "challenge_ok c \<longleftrightarrow>
     \<not> (ch_Version c \<noteq> Version \<or> length (ch_Nonce c) < 16 \<or> length (ch_Salt c) < 8 \<or>
        ch_Iterations c < 1 \<or> ch_Iterations c > 10 \<or>
        ch_Memory c < 8 * 1024 \<or> ch_Memory c > 1024 * 1024 \<or>
        ch_Parallelism c < 1 \<or> ch_Parallelism c > 16)"

definition decodeChallenge :: "bytes \<Rightarrow> challengePayload res" where
  "decodeChallenge payload =
     (case Unmarshal payload of
        None \<Rightarrow> Inl json_error
      | Some j \<Rightarrow>
          (case json_challenge j of
             None \<Rightarrow> Inl json_error
           | Some c \<Rightarrow> if challenge_ok c then Inr c else Inl (Msg ''invalid authentication challenge'')))"

definition zero_response :: AuthResponse where
  "zero_response = \<lparr>resp_Version = 0, resp_Role = [], resp_Response = [], resp_SessionID = []\<rparr>"

definition auth_result :: "bool \<Rightarrow> AuthResult" where
  "auth_result ok = \<lparr>res_OK = ok, res_Error = (if ok then [] else error_text ErrInvalidPassword), res_Version = Version\<rparr>"

definition wrong_frame :: "string \<Rightarrow> Frame \<Rightarrow> error" where
  "wrong_frame what f = Msg (''expected '' @ what @ '', got frame '' @ show_nat (unat (Type f)))"

definition ServerHandshake :: "bytes res \<Rightarrow> Verifier \<Rightarrow> string \<Rightarrow> conn \<Rightarrow> AuthResponse \<times> error option \<times> conn" where
  "ServerHandshake rnd v roleLimit c =
     (case makeChallenge rnd v of
        Inl e \<Rightarrow> (zero_response, Some e, c)
      | Inr challenge \<Rightarrow>
          (case Writer_Write \<lparr>Type = FrameChallenge, ID = 0, Payload = challenge\<rparr> c of
             (Some e, c1) \<Rightarrow> (zero_response, Some e, c1)
           | (None, c1) \<Rightarrow>
               (case ReadFrame c1 of
                  (Inl e, c2) \<Rightarrow> (zero_response, Some e, c2)
                | (Inr frame, c2) \<Rightarrow>
                    if Type frame \<noteq> FrameAuthResponse then (zero_response, Some (wrong_frame ''auth response'' frame), c2)
                    else
                      (case DecodeJSON json_AuthResponse frame of
                         Inl e \<Rightarrow> (zero_response, Some (Wrapped ''decode auth response: '' e), c2)
                       | Inr response \<Rightarrow>
                           (case decodeChallenge challenge of
                              Inl e \<Rightarrow> (zero_response, Some e, c2)
                            | Inr decoded \<Rightarrow>
                                let ok = (resp_Version response = Version \<and>
                                          VerifyChallenge v (ch_Nonce decoded) (resp_Response response) \<and>
                                          (roleLimit = [] \<or> roleLimit = resp_Role response))
                                in case Writer_WriteJSON FrameAuthResult 0 (AuthResult_json (auth_result ok)) c2 of
                                     (Some e, c3) \<Rightarrow> (response, Some e, c3)
                                   | (None, c3) \<Rightarrow>
                                       (response, if ok then None else Some ErrInvalidPassword, c3))))))"

definition ServerHandshakePassword ::
  "bytes res \<Rightarrow> Verifier \<Rightarrow> string \<Rightarrow> conn \<Rightarrow> AuthResponse \<times> error option \<times> conn" where
  "ServerHandshakePassword rnd v roleLimit c =
     (case makeChallenge rnd v of
        Inl e \<Rightarrow> (zero_response, Some e, c)
      | Inr challenge \<Rightarrow>
          (case Writer_Write \<lparr>Type = FrameChallenge, ID = 0, Payload = challenge\<rparr> c of
             (Some e, c1) \<Rightarrow> (zero_response, Some e, c1)
           | (None, c1) \<Rightarrow>
               (case ReadFrame c1 of
                  (Inl e, c2) \<Rightarrow> (zero_response, Some e, c2)
                | (Inr frame, c2) \<Rightarrow>
                    if Type frame \<noteq> FrameAuthResponse then (zero_response, Some (wrong_frame ''auth response'' frame), c2)
                    else
                      (case DecodeJSON json_AuthResponse frame of
                         Inl e \<Rightarrow> (zero_response, Some e, c2)
                       | Inr response \<Rightarrow>
                           (case decodeChallenge challenge of
                              Inl e \<Rightarrow> (response, Some e, c2)
                            | Inr decoded \<Rightarrow>
                                let ok = (resp_Version response = Version \<and>
                                          (roleLimit = [] \<or> roleLimit = resp_Role response) \<and>
                                          VerifyChallenge v (ch_Nonce decoded) (resp_Response response))
                                in case Writer_WriteJSON FrameAuthResult 0 (AuthResult_json (auth_result ok)) c2 of
                                     (Some e, c3) \<Rightarrow> (response, Some e, c3)
                                   | (None, c3) \<Rightarrow>
                                       (response, if ok then None else Some ErrInvalidPassword, c3))))))"

text \<open>
  The common end of the two client handshakes: the answer to the challenge, then the server's
  verdict. An empty error text in the verdict is replaced, which changes nothing of the outcome.
\<close>

definition client_answer :: "Verifier \<Rightarrow> challengePayload \<Rightarrow> string \<Rightarrow> AuthResponse" where
  "client_answer v challenge role = \<lparr>resp_Version = Version, resp_Role = role,
     resp_Response = ChallengeResponse v (ch_Nonce challenge), resp_SessionID = []\<rparr>"

definition client_finish :: "Verifier \<Rightarrow> challengePayload \<Rightarrow> string \<Rightarrow> conn \<Rightarrow> error option \<times> conn" where
  "client_finish v challenge role c =
     (case Writer_WriteJSON FrameAuthResponse 0 (AuthResponse_json (client_answer v challenge role)) c of
        (Some e, c1) \<Rightarrow> (Some e, c1)
      | (None, c1) \<Rightarrow>
          (case ReadFrame c1 of
             (Inl e, c2) \<Rightarrow> (Some e, c2)
           | (Inr frame, c2) \<Rightarrow>
               if Type frame \<noteq> FrameAuthResult then (Some (wrong_frame ''authentication result'' frame), c2)
               else
                 (case DecodeJSON json_AuthResult frame of
                    Inl e \<Rightarrow> (Some e, c2)
                  | Inr result \<Rightarrow>
                      if res_Version result \<noteq> Version
                      then (Some (Msg (''protocol version mismatch: server uses '' @ Itoa (res_Version result))), c2)
                      else if \<not> res_OK result then (Some ErrInvalidPassword, c2)
                      else (None, c2))))"

definition ClientHandshake :: "Verifier \<Rightarrow> string \<Rightarrow> conn \<Rightarrow> error option \<times> conn" where
  "ClientHandshake v role c =
     (case ReadFrame c of
        (Inl e, c1) \<Rightarrow> (Some e, c1)
      | (Inr frame, c1) \<Rightarrow>
          if Type frame \<noteq> FrameChallenge then (Some (wrong_frame ''challenge'' frame), c1)
          else
            (case decodeChallenge (Payload frame) of
               Inl e \<Rightarrow> (Some e, c1)
             | Inr challenge \<Rightarrow> client_finish v challenge role c1))"

definition challenge_verifier :: "kdf \<Rightarrow> string \<Rightarrow> challengePayload \<Rightarrow> Verifier" where
  "challenge_verifier kdf passphrase challenge =
     (let p = \<lparr>pa_Memory = ch_Memory challenge, pa_Iterations = ch_Iterations challenge,
               pa_Parallelism = ch_Parallelism challenge\<rparr>
      in \<lparr>vf_Salt = ch_Salt challenge, vf_Hash = Derive kdf passphrase (ch_Salt challenge) p, vf_Params = p\<rparr>)"

definition ClientHandshakePassword :: "kdf \<Rightarrow> string \<Rightarrow> string \<Rightarrow> conn \<Rightarrow> error option \<times> conn" where
  "ClientHandshakePassword kdf passphrase role c =
     (case ReadFrame c of
        (Inl e, c1) \<Rightarrow> (Some e, c1)
      | (Inr frame, c1) \<Rightarrow>
          if Type frame \<noteq> FrameChallenge then (Some (wrong_frame ''challenge'' frame), c1)
          else
            (case decodeChallenge (Payload frame) of
               Inl e \<Rightarrow> (Some e, c1)
             | Inr challenge \<Rightarrow> client_finish (challenge_verifier kdf passphrase challenge) challenge role c1))"

section \<open>The rate limiter\<close>

text \<open>
  Points of time are nanoseconds; \<open>None\<close> is the zero \<open>time.Time\<close>.
\<close>

definition time_Before :: "int \<Rightarrow> int option \<Rightarrow> bool" where
  "time_Before now t \<longleftrightarrow> (case t of None \<Rightarrow> False | Some x \<Rightarrow> now < x)"

record attempt =
  at_count :: int
  at_windowStart :: "int option"
  at_blockedTill :: "int option"

record RateLimiter =
  rl_limit :: int
  rl_window :: int
  rl_blockFor :: int
  rl_attempts :: "(string, attempt) gomap"

definition zero_attempt :: attempt where
  "zero_attempt = \<lparr>at_count = 0, at_windowStart = None, at_blockedTill = None\<rparr>"

definition NewRateLimiter :: "int \<Rightarrow> int \<Rightarrow> int \<Rightarrow> RateLimiter" where
  "NewRateLimiter limit window blockFor =
     \<lparr>rl_limit = limit, rl_window = window, rl_blockFor = blockFor, rl_attempts = []\<rparr>"

definition state_of :: "RateLimiter \<Rightarrow> string \<Rightarrow> attempt" where
  "state_of l key = (case gm_get (rl_attempts l) key of None \<Rightarrow> zero_attempt | Some a \<Rightarrow> a)"

definition window_over :: "RateLimiter \<Rightarrow> int \<Rightarrow> attempt \<Rightarrow> bool" where
  "window_over l now a \<longleftrightarrow> (case at_windowStart a of None \<Rightarrow> True | Some t \<Rightarrow> time_Sub now t > rl_window l)"

definition RateLimiter_Allowed :: "int \<Rightarrow> string \<Rightarrow> RateLimiter \<Rightarrow> error option \<times> RateLimiter" where
  "RateLimiter_Allowed now key l =
     (let state = state_of l key in
      if time_Before now (at_blockedTill state) then (Some ErrRateLimited, l)
      else (None, if window_over l now state then l\<lparr>rl_attempts := gm_del key (rl_attempts l)\<rparr> else l))"

definition RateLimiter_Fail :: "int \<Rightarrow> string \<Rightarrow> RateLimiter \<Rightarrow> RateLimiter" where
  "RateLimiter_Fail now key l =
     (let state = state_of l key;
          s1 = (if window_over l now state then zero_attempt\<lparr>at_windowStart := Some now\<rparr> else state);
          s2 = s1\<lparr>at_count := at_count s1 + 1\<rparr>;
          s3 = (if at_count s2 \<ge> rl_limit l then s2\<lparr>at_blockedTill := Some (now + rl_blockFor l)\<rparr> else s2)
      in l\<lparr>rl_attempts := gm_set key s3 (rl_attempts l)\<rparr>)"

definition RateLimiter_Success :: "string \<Rightarrow> RateLimiter \<Rightarrow> RateLimiter" where
  "RateLimiter_Success key l = l\<lparr>rl_attempts := gm_del key (rl_attempts l)\<rparr>"

end
