(* ===== verification/GoNet.thy ===== *)
theory GoNet
  imports GoLib
begin

text \<open>
  Two more parts of the standard library: which texts \<open>net.ParseIP\<close> takes for an address, and the
  lexical path functions of \<open>path/filepath\<close> on Unix.
\<close>

section \<open>IP addresses\<close>

fun split_at :: "char \<Rightarrow> string \<Rightarrow> string list" where
  "split_at c [] = [[]]"
| "split_at c (x # xs) =
     (case split_at c xs of
        [] \<Rightarrow> [[x]]
      | w # ws \<Rightarrow> if x = c then [] # w # ws else (x # w) # ws)"

text \<open>Dotted decimal: four fields without leading zeros, each at most 255.\<close>

definition ipv4_field :: "string \<Rightarrow> bool" where
  "ipv4_field f \<longleftrightarrow> f \<noteq> [] \<and> list_all is_digit f \<and> (length f > 1 \<longrightarrow> hd f \<noteq> CHR ''0'') \<and> length f \<le> 3 \<and> read_nat f \<le> 255"

definition ipv4_text :: "string \<Rightarrow> bool" where
  "ipv4_text s \<longleftrightarrow> length (split_at (CHR ''.'') s) = 4 \<and> list_all ipv4_field (split_at (CHR ''.'') s)"

definition is_hex :: "char \<Rightarrow> bool" where
  "is_hex c \<longleftrightarrow> is_digit c \<or> c \<in> set ''abcdefABCDEF''"

text \<open>
  The loop of the IPv6 parser after the leading \<open>::\<close>: \<open>i\<close> bytes have been read, \<open>e\<close> says whether the
  ellipsis has been seen. Every round reads two bytes, so eight rounds are enough.
\<close>

fun ipv6_loop :: "nat \<Rightarrow> nat \<Rightarrow> bool \<Rightarrow> string \<Rightarrow> bool" where
  "ipv6_loop 0 i e s \<longleftrightarrow> s = [] \<and> (if i < 16 then e else \<not> e)"
| "ipv6_loop (Suc n) i e s \<longleftrightarrow>
     (if i \<ge> 16 then s = [] \<and> \<not> e
      else
        let g = takeWhile is_hex s; r = dropWhile is_hex s in
        if g = [] \<or> length g > 4 then False
        else if r \<noteq> [] \<and> hd r = CHR ''.'' then
          (e \<or> i = 12) \<and> i + 4 \<le> 16 \<and> ipv4_text s \<and> (if i + 4 < 16 then e else \<not> e)
        else if r = [] then (if i + 2 < 16 then e else \<not> e)
        else if hd r \<noteq> CHR '':'' \<or> tl r = [] then False
        else if hd (tl r) = CHR '':'' then
          (if e then False
           else if tl (tl r) = [] then i + 2 < 16
           else ipv6_loop n (i + 2) True (tl (tl r)))
        else ipv6_loop n (i + 2) e (tl r))"

definition ipv6_text :: "string \<Rightarrow> bool" where
  "ipv6_text s \<longleftrightarrow>
     (if HasPrefix s ''::'' then (drop 2 s = [] \<or> ipv6_loop 9 0 True (drop 2 s))
      else ipv6_loop 9 0 False s)"

text \<open>The first of the characters dot, colon and percent sign decides which kind of address it is.\<close>

definition ParseIP_ok :: "string \<Rightarrow> bool" where
  "ParseIP_ok s \<longleftrightarrow>
     (case dropWhile (\<lambda>c. c \<notin> set ''.:%'') s of
        [] \<Rightarrow> False
      | c # _ \<Rightarrow>
          if c = CHR ''.'' then ipv4_text s
          else if c = CHR '':'' then CHR ''%'' \<notin> set s \<and> ipv6_text s
          else False)"

section \<open>Paths\<close>

fun clean_step :: "bool \<Rightarrow> string \<Rightarrow> string list \<Rightarrow> string list" where
  "clean_step rooted w stack =
     (if w = [] \<or> w = ''.'' then stack
      else if w = ''..'' then
        (case stack of
           [] \<Rightarrow> if rooted then [] else [''..'']
         | t # ts \<Rightarrow> if t = ''..'' then ''..'' # stack else ts)
      else w # stack)"

fun join_slash :: "string list \<Rightarrow> string" where
  "join_slash [] = []"
| "join_slash [w] = w"
| "join_slash (w # v # ws) = w @ CHR ''/'' # join_slash (v # ws)"

definition path_Clean :: "string \<Rightarrow> string" where
  "path_Clean p =
     (if p = [] then ''.''
      else
        let rooted = (hd p = CHR ''/'');
            body = join_slash (rev (fold (clean_step rooted) (split_at (CHR ''/'') p) []))
        in if rooted then CHR ''/'' # body else if body = [] then ''.'' else body)"

definition path_Join :: "string \<Rightarrow> string \<Rightarrow> string" where
  "path_Join a b =
     (if a = [] \<and> b = [] then []
      else if a = [] then path_Clean b
      else if b = [] then path_Clean a
      else path_Clean (a @ CHR ''/'' # b))"

lemma path_Clean_nonempty [simp]: "path_Clean p \<noteq> []"
  by (simp add: path_Clean_def Let_def)

lemma path_Join_nonempty [simp]: "a \<noteq> [] \<or> b \<noteq> [] \<Longrightarrow> path_Join a b \<noteq> []"
  by (auto simp: path_Join_def)

text \<open>The texts of IPv6 addresses contain no brackets.\<close>

lemma split_at_set: "x \<in> set s \<Longrightarrow> x = c \<or> (\<exists>w \<in> set (split_at c s). x \<in> set w)"
  by (induction s) (auto split: list.splits)

lemma ipv4_chars: "ipv4_text s \<Longrightarrow> x \<in> set s \<Longrightarrow> is_digit x \<or> x = CHR ''.''"
  using split_at_set [of x s "CHR ''.''"] by (auto simp: ipv4_text_def ipv4_field_def list_all_iff)

lemma is_digit_hex: "is_digit c \<Longrightarrow> is_hex c"
  by (simp add: is_hex_def)

lemma ipv6_loop_cases:
  assumes "ipv6_loop (Suc n) i e s" "dropWhile is_hex s = c # r"
  shows "c = CHR ''.'' \<and> ipv4_text s
    \<or> c = CHR '':'' \<and> (\<exists>d r'. r = d # r' \<and> (d = CHR '':'' \<and> (r' = [] \<or> ipv6_loop n (i + 2) True r') \<or> ipv6_loop n (i + 2) e r))"
  using assms by (cases r) (auto simp: Let_def split: if_splits)

declare ipv6_loop.simps(2) [simp del]

lemma ipv6_chars: "ipv6_loop n i e s \<Longrightarrow> x \<in> set s \<Longrightarrow> is_hex x \<or> x = CHR '':'' \<or> x = CHR ''.''"
proof (induction n arbitrary: i e s)
  case (Suc n)
  have s: "set s = set (takeWhile is_hex s) \<union> set (dropWhile is_hex s)"
    by (metis set_append takeWhile_dropWhile_id)
  show ?case
  proof (cases "x \<in> set (takeWhile is_hex s)")
    case True
    then show ?thesis by (auto dest: set_takeWhileD)
  next
    case False
    then obtain c r where r: "dropWhile is_hex s = c # r" "x = c \<or> x \<in> set r"
      using Suc.prems(2) s by (cases "dropWhile is_hex s") auto
    from ipv6_loop_cases [OF Suc.prems(1) r(1)] show ?thesis
    proof (elim disjE conjE exE)
      assume "c = CHR ''.''" "ipv4_text s"
      then show ?thesis using ipv4_chars [OF _ Suc.prems(2)] is_digit_hex [of x] by blast
    next
      fix d r' assume "c = CHR '':''" "r = d # r'" "d = CHR '':''" "r' = []"
      with r(2) show ?thesis by simp
    next
      fix d r' assume "c = CHR '':''" "r = d # r'" "d = CHR '':''" "ipv6_loop n (i + 2) True r'"
      with r(2) Suc.IH [of "i + 2" True r'] show ?thesis by auto
    next
      fix d r' assume "c = CHR '':''" "ipv6_loop n (i + 2) e r"
      with r(2) Suc.IH [of "i + 2" e r] show ?thesis by auto
    qed
  qed
qed simp

lemma ParseIP_bracket_free: "ParseIP_ok s \<Longrightarrow> bracket_free s"
proof -
  assume p: "ParseIP_ok s"
  have "is_hex x \<or> x = CHR '':'' \<or> x = CHR ''.''" if x: "x \<in> set s" for x
  proof (cases "ipv4_text s")
    case True
    then show ?thesis using ipv4_chars [OF True x] is_digit_hex [of x] by blast
  next
    case False
    then have v: "ipv6_text s" using p by (auto simp: ParseIP_ok_def split: list.splits if_splits)
    show ?thesis
    proof (cases "HasPrefix s ''::''")
      case True
      then have "x = CHR '':'' \<or> x \<in> set (drop 2 s)"
        using x by (cases s; cases "tl s") (auto simp: HasPrefix_def)
      moreover have "drop 2 s = [] \<or> ipv6_loop 9 0 True (drop 2 s)"
        using v True unfolding ipv6_text_def by simp
      ultimately show ?thesis using ipv6_chars [of 9 0 True "drop 2 s" x] by fastforce
    next
      case False
      then show ?thesis using v x ipv6_chars [of 9 0 False s x] by (simp add: ipv6_text_def)
    qed
  qed
  then show ?thesis by (fastforce simp: bracket_free_def is_hex_def is_digit_def)
qed

end
