(* ===== verification/Config.thy ===== *)
theory Config
  imports GoNet Codec Files
begin

text \<open>
  \<open>src/internal/config/config.go\<close>: the configuration of a node, its defaults and validation, its JSON
  file, and the normal form of a server address. The user's configuration directory and the host
  name (\<open>os.UserConfigDir\<close>, \<open>os.Hostname\<close>) are arguments.
\<close>

section \<open>Constants and data\<close>

definition Role_Server :: string where "Role_Server = ''server''"
definition Role_Exit :: string where "Role_Exit = ''exit''"
definition Role_ServerExit :: string where "Role_ServerExit = ''server-exit''"
definition DefaultListen :: string where "DefaultListen = '':443''"
definition DefaultIdle :: int where "DefaultIdle = 5 * 60 * 10 ^ 9"
definition DefaultCapacity :: int where "DefaultCapacity = 128"

record Node =
  nd_Role :: string
  nd_ListenAddress :: string
  nd_DataDirectory :: string
  nd_CertificateFile :: string
  nd_KeyFile :: string
  nd_VerifierFile :: string
  nd_ServerAddress :: string
  nd_ServerFingerprint :: string
  nd_PassphraseSource :: string
  nd_ConnectionLimit :: int
  nd_IdleTimeout :: int
  nd_ExitName :: string
  nd_ExitID :: string
  nd_Capacity :: int
  nd_Console :: bool

definition zero_node :: Node where
  "zero_node = \<lparr>nd_Role = [], nd_ListenAddress = [], nd_DataDirectory = [], nd_CertificateFile = [], nd_KeyFile = [],
     nd_VerifierFile = [], nd_ServerAddress = [], nd_ServerFingerprint = [], nd_PassphraseSource = [],
     nd_ConnectionLimit = 0, nd_IdleTimeout = 0, nd_ExitName = [], nd_ExitID = [], nd_Capacity = 0, nd_Console = False\<rparr>"

section \<open>Operations\<close>

definition DefaultDataDir :: "string res \<Rightarrow> string res" where
  "DefaultDataDir base = (case base of Inl e \<Rightarrow> Inl e | Inr b \<Rightarrow> Inr (path_Join b ''lnproxy''))"

definition DefaultNode :: "string res \<Rightarrow> string \<Rightarrow> string \<Rightarrow> Node res" where
  "DefaultNode base host role =
     (case DefaultDataDir base of
        Inl e \<Rightarrow> Inl e
      | Inr dataDir \<Rightarrow>
          Inr \<lparr>nd_Role = role, nd_ListenAddress = DefaultListen, nd_DataDirectory = dataDir,
            nd_CertificateFile = path_Join dataDir ''server.crt'', nd_KeyFile = path_Join dataDir ''server.key'',
            nd_VerifierFile = path_Join dataDir ''passphrase.json'', nd_ServerAddress = [], nd_ServerFingerprint = [],
            nd_PassphraseSource = ''prompt'', nd_ConnectionLimit = 256, nd_IdleTimeout = DefaultIdle,
            nd_ExitName = (if host = [] then ''node'' else host), nd_ExitID = [], nd_Capacity = DefaultCapacity,
            nd_Console = False\<rparr>)"

definition Validate :: "Node \<Rightarrow> error option" where
  "Validate n =
     (if nd_Role n \<notin> {Role_Server, Role_Exit, Role_ServerExit}
      then Some (Msg (''unsupported node role '' @ quoted (nd_Role n)))
      else if nd_DataDirectory n = [] then Some (Msg ''data directory is required'')
      else if nd_ConnectionLimit n \<le> 0 then Some (Msg ''connection limit must be positive'')
      else if nd_IdleTimeout n \<le> 0 then Some (Msg ''idle timeout must be positive'')
      else if nd_Role n = Role_Exit \<and> nd_ServerAddress n = [] then Some (Msg ''exit mode requires server_address'')
      else if (nd_Role n = Role_Exit \<or> nd_Role n = Role_ServerExit) \<and> nd_Capacity n \<le> 0
      then Some (Msg ''capacity must be positive'')
      else if (nd_Role n = Role_Server \<or> nd_Role n = Role_ServerExit) \<and> nd_ListenAddress n = []
      then Some (Msg ''listen address is required'')
      else None)"

text \<open>
  The fields \<open>FillPaths\<close> completes: each one that has its zero value takes its default, the paths below
  the data directory chosen first. The directory it tries to create is best effort.
\<close>

definition or_else :: "'a::zero \<Rightarrow> 'a \<Rightarrow> 'a" where
  "or_else x d = (if x = 0 then d else x)"

definition str_else :: "string \<Rightarrow> string \<Rightarrow> string" where
  "str_else x d = (if x = [] then d else x)"

definition fill :: "string res \<Rightarrow> string \<Rightarrow> Node \<Rightarrow> Node" where
  "fill base host n =
     (let dir = str_else (nd_DataDirectory n) (case DefaultDataDir base of Inl _ \<Rightarrow> [] | Inr d \<Rightarrow> d) in
      n\<lparr>nd_DataDirectory := dir,
        nd_CertificateFile := str_else (nd_CertificateFile n) (path_Join dir ''server.crt''),
        nd_KeyFile := str_else (nd_KeyFile n) (path_Join dir ''server.key''),
        nd_VerifierFile := str_else (nd_VerifierFile n) (path_Join dir ''passphrase.json''),
        nd_ListenAddress := str_else (nd_ListenAddress n) DefaultListen,
        nd_ConnectionLimit := or_else (nd_ConnectionLimit n) 256,
        nd_IdleTimeout := or_else (nd_IdleTimeout n) DefaultIdle,
        nd_Capacity := or_else (nd_Capacity n) DefaultCapacity,
        nd_ExitID := str_else (nd_ExitID n) (if host = [] then ''exit'' else host),
        nd_PassphraseSource := str_else (nd_PassphraseSource n) ''prompt''\<rparr>)"

definition FillPaths :: "string res \<Rightarrow> string \<Rightarrow> Node \<Rightarrow> fs \<Rightarrow> Node \<times> fs" where
  "FillPaths base host n s =
     (let n' = fill base host n in (n', snd (os_MkdirAll (nd_DataDirectory n') s)))"

definition Node_json :: "Node \<Rightarrow> json" where
  "Node_json n = JObj
     ([(''role'', JStr (nd_Role n)), (''listen_address'', JStr (nd_ListenAddress n)),
       (''data_directory'', JStr (nd_DataDirectory n)), (''certificate_file'', JStr (nd_CertificateFile n)),
       (''key_file'', JStr (nd_KeyFile n)), (''verifier_file'', JStr (nd_VerifierFile n))]
      @ omit_if (nd_ServerAddress n = []) ''server_address'' (JStr (nd_ServerAddress n))
      @ omit_if (nd_ServerFingerprint n = []) ''server_fingerprint'' (JStr (nd_ServerFingerprint n))
      @ [(''passphrase_source'', JStr (nd_PassphraseSource n)), (''connection_limit'', JInt (nd_ConnectionLimit n)),
         (''idle_timeout'', JInt (nd_IdleTimeout n))]
      @ omit_if (nd_ExitName n = []) ''exit_name'' (JStr (nd_ExitName n))
      @ omit_if (nd_ExitID n = []) ''exit_id'' (JStr (nd_ExitID n))
      @ omit_if (nd_Capacity n = 0) ''capacity'' (JInt (nd_Capacity n))
      @ omit_if (\<not> nd_Console n) ''console'' (JBool (nd_Console n)))"

definition json_Node :: "json \<Rightarrow> Node option" where
  "json_Node v =
     (case jstruct v of
        None \<Rightarrow> None
      | Some fs \<Rightarrow>
          let str = (\<lambda>k. jfield j_string k (Some []) fs); int = (\<lambda>k. jfield j_int k (Some 0) fs) in
          (case (str ''role'', str ''listen_address'', str ''data_directory'', str ''certificate_file'',
                 str ''key_file'', str ''verifier_file'', str ''server_address'', str ''server_fingerprint'') of
             (Some a, Some b, Some c, Some d, Some e, Some f, Some g, Some h) \<Rightarrow>
               (case (str ''passphrase_source'', int ''connection_limit'', int ''idle_timeout'', str ''exit_name'',
                      str ''exit_id'', int ''capacity'', jfield j_bool ''console'' (Some False) fs) of
                  (Some i, Some j, Some k, Some l, Some m, Some n, Some b') \<Rightarrow>
                    Some \<lparr>nd_Role = a, nd_ListenAddress = b, nd_DataDirectory = c, nd_CertificateFile = d,
                      nd_KeyFile = e, nd_VerifierFile = f, nd_ServerAddress = g, nd_ServerFingerprint = h,
                      nd_PassphraseSource = i, nd_ConnectionLimit = j, nd_IdleTimeout = k, nd_ExitName = l,
                      nd_ExitID = m, nd_Capacity = n, nd_Console = b'\<rparr>
                | _ \<Rightarrow> None)
           | _ \<Rightarrow> None))"

definition LoadNode :: "string res \<Rightarrow> string \<Rightarrow> string \<Rightarrow> fs \<Rightarrow> Node \<times> error option \<times> fs" where
  "LoadNode base host path s =
     (case os_ReadFile path s of
        (Inl e, s1) \<Rightarrow> (zero_node, Some e, s1)
      | (Inr d, s1) \<Rightarrow>
          (case Unmarshal d of
             None \<Rightarrow> (zero_node, Some (Wrapped ''parse node config: '' (Msg ''json'')), s1)
           | Some j \<Rightarrow>
               (case json_Node j of
                  None \<Rightarrow> (zero_node, Some (Wrapped ''parse node config: '' (Msg ''json'')), s1)
                | Some n \<Rightarrow> (case FillPaths base host n s1 of (n', s2) \<Rightarrow> (n', Validate n', s2)))))"

definition mode_600 :: nat where "mode_600 = 6 * 8 * 8"

definition SaveNode :: "string res \<Rightarrow> string \<Rightarrow> string \<Rightarrow> Node \<Rightarrow> fs \<Rightarrow> error option \<times> fs" where
  "SaveNode base host path n s =
     (case FillPaths base host n s of
        (n', s1) \<Rightarrow> replace_file path None (MarshalIndent (Node_json n') @ [10]) mode_600 s1)"

text \<open>\<open>writeFile\<close> of the certificate and the key; on Windows a failing \<open>Chmod\<close> is ignored.\<close>

definition writeFile :: "bool \<Rightarrow> string \<Rightarrow> bytes \<Rightarrow> nat \<Rightarrow> fs \<Rightarrow> error option \<times> fs" where
  "writeFile windows path d mode s =
     (case os_WriteFile (temp_of path) d mode s of
        (Some e, s1) \<Rightarrow> (Some e, s1)
      | (None, s1) \<Rightarrow>
          (case os_Chmod (temp_of path) mode s1 of
             (r, s2) \<Rightarrow>
               if r \<noteq> None \<and> \<not> windows then (r, snd (os_Remove (temp_of path) s2))
               else
                 (case os_Rename (temp_of path) path s2 of
                    (Some e, s3) \<Rightarrow> (Some e, snd (os_Remove (temp_of path) s3))
                  | (None, s3) \<Rightarrow> (None, s3))))"

definition contains :: "char \<Rightarrow> string \<Rightarrow> bool" where
  "contains c s \<longleftrightarrow> c \<in> set s"

definition NormalizeServerAddress :: "string \<Rightarrow> string res" where
  "NormalizeServerAddress address0 =
     (let address = TrimSpace address0 in
      if address = [] then Inl (Msg ''server address is required'')
      else case SplitHostPort address of
        Inr _ \<Rightarrow> Inr address
      | Inl _ \<Rightarrow>
          if contains (CHR '':'') address \<and> \<not> HasPrefix address ''['' \<and> ParseIP_ok address
          then Inr (JoinHostPort address ''443'')
          else if count_list address (CHR '':'') = 0 then Inr (JoinHostPort address ''443'')
          else Inl (Msg (''invalid server address '' @ quoted address)))"

section \<open>Lemmas\<close>

definition node_text :: "Node \<Rightarrow> bool" where
  "node_text n \<longleftrightarrow> list_all valid_utf8 [nd_Role n, nd_ListenAddress n, nd_DataDirectory n, nd_CertificateFile n,
     nd_KeyFile n, nd_VerifierFile n, nd_ServerAddress n, nd_ServerFingerprint n, nd_PassphraseSource n, nd_ExitName n,
     nd_ExitID n] \<and> int64 (nd_ConnectionLimit n) \<and> int64 (nd_IdleTimeout n) \<and> int64 (nd_Capacity n)"

lemma str_else_twice [simp]: "str_else (str_else x d) d = str_else x d" "d \<noteq> [] \<Longrightarrow> str_else x d \<noteq> []"
  by (simp_all add: str_else_def)

lemma or_else_twice [simp]: "or_else (or_else x d) d = or_else x d"
  by (simp add: or_else_def)

lemma str_else_again: "x \<noteq> [] \<Longrightarrow> str_else x d = x"
  by (simp add: str_else_def)

lemma fill_fixpoint: "fill base host (fill base host n) = fill base host n"
  by (simp add: fill_def Let_def)

section \<open>Properties\<close>

text \<open>
  Remark (defaults). Completing a configuration is idempotent and keeps every field that was set. A
  completed configuration of a known role with a data directory is valid unless a limit is
  negative or an exit has no server to connect to.
\<close>

theorem fill_completes:
  "fill base host (fill base host n) = fill base host n
   \<and> (Validate (fill base host n) = None \<longleftrightarrow>
       nd_Role n \<in> {Role_Server, Role_Exit, Role_ServerExit} \<and> nd_DataDirectory (fill base host n) \<noteq> []
       \<and> 0 \<le> nd_ConnectionLimit n \<and> 0 \<le> nd_IdleTimeout n
       \<and> (nd_Role n = Role_Exit \<longrightarrow> nd_ServerAddress n \<noteq> [])
       \<and> (nd_Role n \<noteq> Role_Server \<longrightarrow> 0 \<le> nd_Capacity n))
   \<and> (nd_DataDirectory n \<noteq> [] \<longrightarrow> nd_DataDirectory (fill base host n) = nd_DataDirectory n)
   \<and> (nd_CertificateFile n \<noteq> [] \<longrightarrow> nd_CertificateFile (fill base host n) = nd_CertificateFile n)
   \<and> (nd_KeyFile n \<noteq> [] \<longrightarrow> nd_KeyFile (fill base host n) = nd_KeyFile n)
   \<and> (nd_VerifierFile n \<noteq> [] \<longrightarrow> nd_VerifierFile (fill base host n) = nd_VerifierFile n)
   \<and> (nd_ListenAddress n \<noteq> [] \<longrightarrow> nd_ListenAddress (fill base host n) = nd_ListenAddress n)
   \<and> (nd_ExitID n \<noteq> [] \<longrightarrow> nd_ExitID (fill base host n) = nd_ExitID n)
   \<and> (nd_PassphraseSource n \<noteq> [] \<longrightarrow> nd_PassphraseSource (fill base host n) = nd_PassphraseSource n)
   \<and> (nd_ConnectionLimit n \<noteq> 0 \<longrightarrow> nd_ConnectionLimit (fill base host n) = nd_ConnectionLimit n)
   \<and> (nd_IdleTimeout n \<noteq> 0 \<longrightarrow> nd_IdleTimeout (fill base host n) = nd_IdleTimeout n)
   \<and> (nd_Capacity n \<noteq> 0 \<longrightarrow> nd_Capacity (fill base host n) = nd_Capacity n)
   \<and> nd_Role (fill base host n) = nd_Role n
   \<and> nd_ServerAddress (fill base host n) = nd_ServerAddress n
   \<and> nd_ServerFingerprint (fill base host n) = nd_ServerFingerprint n
   \<and> nd_ExitName (fill base host n) = nd_ExitName n
   \<and> nd_Console (fill base host n) = nd_Console n"
  unfolding fill_fixpoint
  by (auto simp: Validate_def fill_def Let_def or_else_def str_else_def DefaultListen_def DefaultIdle_def
      DefaultCapacity_def Role_Server_def Role_Exit_def Role_ServerExit_def)

theorem fill_completes_witness:
  "Validate (fill (Inr ''/c'') [] (zero_node\<lparr>nd_Role := ''server''\<rparr>)) = None"
  using fill_completes [of "Inr ''/c''" "[]" "zero_node\<lparr>nd_Role := ''server''\<rparr>"]
  by (simp add: Role_Server_def Role_Exit_def Role_ServerExit_def fill_def Let_def zero_node_def str_else_def DefaultDataDir_def)

lemma lower_names:
  "ToLower ''role'' = ''role''"
  "ToLower ''listen_address'' = ''listen_address''"
  "ToLower ''data_directory'' = ''data_directory''"
  "ToLower ''certificate_file'' = ''certificate_file''"
  "ToLower ''key_file'' = ''key_file''"
  "ToLower ''verifier_file'' = ''verifier_file''"
  "ToLower ''server_address'' = ''server_address''"
  "ToLower ''server_fingerprint'' = ''server_fingerprint''"
  "ToLower ''passphrase_source'' = ''passphrase_source''"
  "ToLower ''connection_limit'' = ''connection_limit''"
  "ToLower ''idle_timeout'' = ''idle_timeout''"
  "ToLower ''exit_name'' = ''exit_name''"
  "ToLower ''exit_id'' = ''exit_id''"
  "ToLower ''capacity'' = ''capacity''"
  "ToLower ''console'' = ''console''"
  by code_simp+

lemma Node_roundtrip: "node_text n \<Longrightarrow> json_Node (Node_json n) = Some n"
  by (cases n) (simp add: json_Node_def Node_json_def node_text_def jstruct_def jfield_rules EqualFold_def lower_names Let_def)

lemma printable_Node: "node_text n \<Longrightarrow> printable (Node_json n)"
  by (simp add: Node_json_def node_text_def omit_if_def)

lemma LoadNode_stored:
  assumes "node_text n" and "fill base host n = n" and "fs_calls s = []"
    and "fs_files s path = Some \<lparr>fl_data = MarshalIndent (Node_json n) @ [10], fl_mode = m\<rparr>"
  shows "LoadNode base host path s = (n, Validate n, s)"
  using assms Unmarshal_MarshalIndent [OF printable_Node [OF assms(1)]] Node_roundtrip [OF assms(1)]
  by (simp add: LoadNode_def FillPaths_def Let_def os_ReadFile_def os_MkdirAll_def next_call_def)

text \<open>
  C36 (configuration file). What \<open>LoadNode\<close> reads after a \<open>SaveNode\<close> that reported no error is the
  completed configuration, together with the verdict of its validation; after a \<open>SaveNode\<close> that
  failed, the file is what it was.
\<close>

theorem config_file_roundtrip:
  assumes "node_text (fill base host n)" and "SaveNode base host path n s = (x, s')" and "fs_calls s' = []"
  shows "case x of
      None \<Rightarrow> (let r = LoadNode base host path s' in
        fst r = fill base host n \<and> fst (snd r) = Validate (fill base host n))
    | Some e \<Rightarrow> fs_files s' path = fs_files s path"
proof (cases x)
  case None
  let ?n = "fill base host n" and ?s = "snd (os_MkdirAll (nd_DataDirectory (fill base host n)) s)"
  have "replace_file path None (MarshalIndent (Node_json ?n) @ [10]) mode_600 ?s = (None, s')"
    using assms(2) None by (simp add: SaveNode_def FillPaths_def Let_def)
  from replace_file_done [OF this] obtain m where "fs_files s' path = Some \<lparr>fl_data = MarshalIndent (Node_json ?n) @ [10], fl_mode = m\<rparr>"
    by blast
  from LoadNode_stored [OF assms(1) fill_fixpoint assms(3) this] None show ?thesis by (simp add: Let_def)
next
  case (Some e)
  obtain r s1 where s1: "os_MkdirAll (nd_DataDirectory (fill base host n)) s = (r, s1)" by fastforce
  with Some assms(2) replace.unwritten [of path None _ mode_600 s1 e s'] os_frame(1) [OF s1] show ?thesis
    by (simp add: SaveNode_def FillPaths_def Let_def)
qed

theorem config_file_roundtrip_witness:
  "\<exists>s'. SaveNode (Inr ''/c'') ''h'' ''f'' (zero_node\<lparr>nd_Role := ''server''\<rparr>) \<lparr>fs_files = Map.empty, fs_calls = []\<rparr> = (None, s')
     \<and> fst (LoadNode (Inr ''/c'') ''h'' ''f'' s') = fill (Inr ''/c'') ''h'' (zero_node\<lparr>nd_Role := ''server''\<rparr>)"
proof -
  let ?s = "\<lparr>fs_files = Map.empty, fs_calls = []\<rparr> :: fs" and ?n = "zero_node\<lparr>nd_Role := ''server''\<rparr>"
  obtain s' where s': "SaveNode (Inr ''/c'') ''h'' ''f'' ?n ?s = (None, s')" "fs_calls s' = []"
    by (simp add: SaveNode_def FillPaths_def replace_file_def os_MkdirAll_def os_WriteFile_def os_Rename_def
        next_call_def Let_def temp_of_def)
  have "node_text (fill (Inr ''/c'') ''h'' ?n)" by code_simp
  from config_file_roundtrip [OF this s'] s' show ?thesis by (auto simp: Let_def)
qed

text \<open>
  C37 (server addresses). Whatever \<open>NormalizeServerAddress\<close> accepts, it turns into a form it leaves
  alone from then on, and that splits into host and port, provided the text has no brackets around
  a bare name; a host given without a port gets port 443 and stays the same host.
\<close>

theorem normalize_address:
  assumes "NormalizeServerAddress a = Inr b" and "bracket_free (TrimSpace a) \<or> (\<exists>x. SplitHostPort (TrimSpace a) = Inr x)"
  shows "(\<exists>h p. SplitHostPort b = Inr (h, p) \<and> (SplitHostPort (TrimSpace a) = Inr (h, p) \<or> h = TrimSpace a \<and> p = ''443''))
    \<and> NormalizeServerAddress b = Inr b"
proof -
  let ?a = "TrimSpace a"
  have ne: "?a \<noteq> []" using assms(1) by (auto simp: NormalizeServerAddress_def)
  have stable: "SplitHostPort b = Inr x \<Longrightarrow> TrimSpace b = b \<Longrightarrow> b \<noteq> [] \<Longrightarrow> NormalizeServerAddress b = Inr b" for x
    by (simp add: NormalizeServerAddress_def)
  show ?thesis
  proof (cases "SplitHostPort ?a")
    case (Inr x)
    then have b: "b = ?a" using assms(1) ne by (simp add: NormalizeServerAddress_def)
    have "TrimSpace ?a = ?a" using TrimSpace_ends [OF ne] TrimSpace_id [OF ne] by blast
    with b Inr stable ne show ?thesis by (cases x) auto
  next
    case (Inl e)
    then have bf: "bracket_free ?a" using assms(2) by auto
    have b: "b = JoinHostPort ?a ''443''"
      using assms(1) Inl ne by (auto simp: NormalizeServerAddress_def Let_def split: if_splits)
    have sp: "SplitHostPort b = Inr (?a, ''443'')"
      unfolding b by (rule SplitHostPort_JoinHostPort [OF bf]) (simp_all add: bracket_free_def)
    have "b \<noteq> []" "\<not> is_space (hd b)" "\<not> is_space (last b)"
      using TrimSpace_ends [OF ne] ne by (auto simp: b JoinHostPort_def is_space_def)
    then have "TrimSpace b = b" by (rule TrimSpace_id)
    with sp stable \<open>b \<noteq> []\<close> show ?thesis by blast
  qed
qed

theorem normalize_address_witness:
  "NormalizeServerAddress ''example.org '' = Inr ''example.org:443'' \<and> NormalizeServerAddress ''example.org:443'' = Inr ''example.org:443''"
proof -
  have n: "NormalizeServerAddress ''example.org '' = Inr ''example.org:443''" by code_simp
  have "TrimSpace ''example.org '' = ''example.org''" by code_simp
  then have "bracket_free (TrimSpace ''example.org '')" by (simp add: bracket_free_def)
  with normalize_address [OF n] n show ?thesis by simp
qed

end
