(* ===== verification/RateLimit.thy ===== *)
theory RateLimit
  imports Auth
begin

text \<open>
  The limiter of failed attempts (\<open>RateLimiter\<close> in \<open>src/internal/auth/auth.go\<close>) against what it is for:
  a key is blocked exactly when it has failed often enough within the window, and the block lasts.
\<close>

section \<open>Runs of failures\<close>

definition fails :: "string \<Rightarrow> int list \<Rightarrow> RateLimiter \<Rightarrow> RateLimiter" where
  "fails key ts l = fold (\<lambda>t. RateLimiter_Fail t key) ts l"

lemma state_of_set [simp]:
  "state_of (l\<lparr>rl_attempts := gm_set key a (rl_attempts l)\<rparr>) k = (if k = key then a else state_of l k)"
  by (simp add: state_of_def)

lemma Fail_sel [simp]:
  "rl_limit (RateLimiter_Fail t key l) = rl_limit l" "rl_window (RateLimiter_Fail t key l) = rl_window l"
  "rl_blockFor (RateLimiter_Fail t key l) = rl_blockFor l"
  by (simp_all add: RateLimiter_Fail_def Let_def)

lemma fails_sel [simp]:
  "rl_limit (fails key ts l) = rl_limit l" "rl_window (fails key ts l) = rl_window l"
  "rl_blockFor (fails key ts l) = rl_blockFor l"
  unfolding fails_def by (induction ts arbitrary: l) simp_all

lemma fails_other: "k \<noteq> key \<Longrightarrow> state_of (fails key ts l) k = state_of l k"
  unfolding fails_def by (induction ts arbitrary: l) (simp_all add: RateLimiter_Fail_def Let_def)

lemma window_open: "int64 w \<Longrightarrow> t - t0 \<le> w \<Longrightarrow> time_Sub t t0 \<le> w"
  by (auto simp: time_Sub_def int64_def)

lemma fails_within:
  assumes "state_of l key = \<lparr>at_count = n, at_windowStart = Some t0, at_blockedTill = b\<rparr>"
    and "int64 (rl_window l)" and "\<forall>t \<in> set ts. t - t0 \<le> rl_window l" and "ts \<noteq> []"
  shows "state_of (fails key ts l) key = \<lparr>at_count = n + int (length ts), at_windowStart = Some t0,
     at_blockedTill = (if n + int (length ts) \<ge> rl_limit l then Some (last ts + rl_blockFor l) else b)\<rparr>"
  using assms
proof (induction ts arbitrary: l n b)
  case (Cons t ts)
  have "\<not> window_over l t (state_of l key)"
    using Cons.prems window_open [of "rl_window l" t t0] by (simp add: window_over_def)
  then have f: "state_of (RateLimiter_Fail t key l) key = \<lparr>at_count = n + 1, at_windowStart = Some t0,
      at_blockedTill = (if n + 1 \<ge> rl_limit l then Some (t + rl_blockFor l) else b)\<rparr>"
    using Cons.prems(1) by (simp add: RateLimiter_Fail_def Let_def)
  show ?case
  proof (cases "ts = []")
    case True
    with f show ?thesis by (simp add: fails_def)
  next
    case False
    have "fails key (t # ts) l = fails key ts (RateLimiter_Fail t key l)" by (simp add: fails_def)
    with Cons.IH [OF f] Cons.prems(2,3) False show ?thesis by simp
  qed
qed simp

lemma fails_fresh:
  assumes "gm_get (rl_attempts l) key = None" and "int64 (rl_window l)" and "\<forall>t \<in> set ts. t - t0 \<le> rl_window l"
  shows "state_of (fails key (t0 # ts) l) key = \<lparr>at_count = 1 + int (length ts), at_windowStart = Some t0,
     at_blockedTill = (if 1 + int (length ts) \<ge> rl_limit l then Some (last (t0 # ts) + rl_blockFor l) else None)\<rparr>"
proof -
  have f: "state_of (RateLimiter_Fail t0 key l) key = \<lparr>at_count = 1, at_windowStart = Some t0,
      at_blockedTill = (if 1 \<ge> rl_limit l then Some (t0 + rl_blockFor l) else None)\<rparr>"
    using assms(1) by (simp add: RateLimiter_Fail_def Let_def state_of_def zero_attempt_def window_over_def)
  have "fails key (t0 # ts) l = fails key ts (RateLimiter_Fail t0 key l)" by (simp add: fails_def)
  with f fails_within [OF f] assms(2,3) show ?thesis by (cases "ts = []") (auto simp: fails_def)
qed

section \<open>Properties\<close>

text \<open>
  Remark (blocking). After a run of failures of one key inside one window, the key is refused if and
  only if the run has reached the limit and the block time has not passed since the last failure;
  every other key is treated as if there had been no failure.
\<close>

theorem blocked_iff_limit_reached:
  assumes "gm_get (rl_attempts l) key = None" and "int64 (rl_window l)" and "\<forall>t \<in> set ts. t - t0 \<le> rl_window l"
  shows "(fst (RateLimiter_Allowed now key (fails key (t0 # ts) l)) = Some ErrRateLimited \<longleftrightarrow>
      int (length (t0 # ts)) \<ge> rl_limit l \<and> now < last (t0 # ts) + rl_blockFor l)
    \<and> (k \<noteq> key \<longrightarrow> fst (RateLimiter_Allowed now k (fails key (t0 # ts) l)) = fst (RateLimiter_Allowed now k l))"
  using fails_fresh [OF assms] fails_other [of k key "t0 # ts" l]
  by (simp add: RateLimiter_Allowed_def Let_def time_Before_def ErrRateLimited_def)

theorem blocked_iff_limit_reached_witness:
  "fst (RateLimiter_Allowed 20 ''a'' (fails ''a'' [1, 2, 3] (NewRateLimiter 3 10 60))) = Some ErrRateLimited
   \<and> fst (RateLimiter_Allowed 20 ''b'' (fails ''a'' [1, 2, 3] (NewRateLimiter 3 10 60))) = None"
  using blocked_iff_limit_reached [of "NewRateLimiter 3 10 60" "''a''" "[2, 3]" 1 20 "''b''"]
  by (simp add: NewRateLimiter_def int64_def RateLimiter_Allowed_def state_of_def zero_attempt_def time_Before_def Let_def)

text \<open>
  Remark (early release). A block does not always last: when the window of a blocked key has run out, one more
  failure, of an attempt that was under way, starts a new window and drops the block, so that a key
  that was refused a moment before is let in again.
\<close>

theorem failure_lifts_block:
  assumes "time_Before now (at_blockedTill (state_of l key))" and "window_over l now (state_of l key)" and "1 < rl_limit l"
  shows "fst (RateLimiter_Allowed now key l) = Some ErrRateLimited
    \<and> fst (RateLimiter_Allowed now key (RateLimiter_Fail now key l)) = None"
  using assms
  by (simp add: RateLimiter_Allowed_def RateLimiter_Fail_def Let_def zero_attempt_def time_Before_def)

theorem failure_lifts_block_witness:
  "let l = fails ''a'' [1, 2, 3] (NewRateLimiter 3 10 60) in
   fst (RateLimiter_Allowed 20 ''a'' l) = Some ErrRateLimited
   \<and> fst (RateLimiter_Allowed 20 ''a'' (RateLimiter_Fail 20 ''a'' l)) = None"
proof -
  let ?l = "fails ''a'' [1, 2, 3] (NewRateLimiter 3 10 60)"
  have "state_of ?l ''a'' = \<lparr>at_count = 3, at_windowStart = Some 1, at_blockedTill = Some 63\<rparr>"
    using fails_fresh [of "NewRateLimiter 3 10 60" "''a''" "[2, 3]" 1] by (simp add: NewRateLimiter_def int64_def)
  moreover have "rl_window ?l = 10" "rl_limit ?l = 3" by (simp_all add: NewRateLimiter_def)
  ultimately show ?thesis
    using failure_lifts_block [of 20 ?l "''a''"] by (simp add: time_Before_def window_over_def time_Sub_def Let_def)
qed

end
