(* ===== verification/Server.thy ===== *)
theory Server
  imports SessionTraffic Registry Auth Config RateLimit
begin

text \<open>
  \<open>src/internal/node/server.go\<close> and \<open>dialer.go\<close>: the server. Every connection has a handler goroutine;
  its place in the code is a program counter (\<open>handler\<close>), and one step runs to the next point where
  another goroutine can interfere: a mutex, the registry's lock, a write to a session, a wait. The
  handler's number names its session too. Sockets and listeners are not part of the model.
\<close>

section \<open>Dialing a destination\<close>

function port_digits :: "u16 \<Rightarrow> string \<Rightarrow> string" where
  "port_digits port acc =
     (if port = 0 then acc else port_digits (port div 10) (char_of (48 + unat (port mod 10)) # acc))"
  by pat_completeness auto
termination
proof (relation "measure (\<lambda>(p, a). unat p)")
  show "((port div 10, char_of (48 + unat (port mod 10)) # acc), port, acc) \<in> measure (\<lambda>(p, a). unat p)"
    if "port \<noteq> 0" for port :: u16 and acc
    using that by (simp add: unat_div unat_gt_0)
qed simp

definition portString :: "u16 \<Rightarrow> string" where
  "portString port = (if port_digits port [] = [] then ''0'' else port_digits port [])"

text \<open>\<open>dial\<close> is the outcome of the system's dialer for an address.\<close>

definition DialDestination :: "(string \<Rightarrow> conn res) \<Rightarrow> string \<Rightarrow> u16 \<Rightarrow> conn res" where
  "DialDestination dial host port =
     (if host = [] \<or> port = 0 then Inl (Msg ''destination and port are required'')
      else dial (JoinHostPort host (portString port)))"

section \<open>State\<close>

definition remoteHost :: "string \<Rightarrow> string" where
  "remoteHost remote = (case SplitHostPort remote of Inl _ \<Rightarrow> remote | Inr (h, p) \<Rightarrow> h)"

datatype handler =
    HAuth string conn
  | HClientStart conn | HClientPush | HClientServe
  | HExitStart conn | HExitStarted | HExitWait "ExitRegistration option" "error option"
  | HExitRegister ExitRegistration | HExitAdd ExitRegistration | HExitAnnounce ExitRegistration
  | HExitServe ExitRegistration | HExitRemove ExitRegistration | HExitBye
  | HEnded "error option"

record Server =
  sv_config :: Node
  sv_verifier :: Verifier
  sv_registry :: Registry
  sv_limiter :: RateLimiter
  sv_clients :: "nat list"
  sv_exits :: "(string, nat) gomap"
  sv_sessions :: "session list"
  sv_handlers :: "handler list"

definition directID :: string where "directID = ''direct''"

definition direct_info :: "int \<Rightarrow> ExitInfo" where
  "direct_info limit = \<lparr>ei_ID = directID, ei_Name = ''server'', ei_Type = ''direct'', ei_Health = [], ei_LatencyMS = 1,
     ei_ActiveConnections = 0, ei_Capacity = limit, ei_Features = [''tcp''], ei_HeartbeatTime = 0\<rparr>"

definition NewServer :: "int \<Rightarrow> Node \<Rightarrow> Verifier \<Rightarrow> Server" where
  "NewServer now cfg v =
     \<lparr>sv_config = cfg, sv_verifier = v,
      sv_registry =
        (if nd_Role cfg = Role_Server \<or> nd_Role cfg = Role_ServerExit
         then Registry_AddPersistent now (direct_info (nd_ConnectionLimit cfg)) ''healthy'' (NewRegistry (45 * second))
         else NewRegistry (45 * second)),
      sv_limiter = NewRateLimiter 5 (60 * second) (30 * second),
      sv_clients = [], sv_exits = [], sv_sessions = [], sv_handlers = []\<rparr>"

definition set_handler :: "nat \<Rightarrow> handler \<Rightarrow> Server \<Rightarrow> Server" where
  "set_handler h x sv = sv\<lparr>sv_handlers := (sv_handlers sv)[h := x]\<rparr>"

definition set_session :: "nat \<Rightarrow> session \<Rightarrow> Server \<Rightarrow> Server" where
  "set_session h s sv = sv\<lparr>sv_sessions := (sv_sessions sv)[h := s]\<rparr>"

abbreviation handler_of :: "Server \<Rightarrow> nat \<Rightarrow> handler" where
  "handler_of sv h \<equiv> sv_handlers sv ! h"

abbreviation session_of :: "Server \<Rightarrow> nat \<Rightarrow> session" where
  "session_of sv h \<equiv> sv_sessions sv ! h"

section \<open>Admitting a connection\<close>

definition connectionCount :: "Server \<Rightarrow> int" where
  "connectionCount sv = int (length (sv_clients sv)) + int (length (sv_exits sv))"

text \<open>The start of \<open>handleConnection\<close>: the rate limiter decides before anything is read.\<close>

definition accept_conn :: "int \<Rightarrow> string \<Rightarrow> conn \<Rightarrow> Server \<Rightarrow> Server" where
  "accept_conn now remote c sv =
     (case RateLimiter_Allowed now (remoteHost remote) (sv_limiter sv) of
        (r, l) \<Rightarrow>
          sv\<lparr>sv_limiter := l,
             sv_sessions := sv_sessions sv @ [New (nd_IdleTimeout (sv_config sv)) 0],
             sv_handlers := sv_handlers sv @ [case r of Some e \<Rightarrow> HEnded (Some e) | None \<Rightarrow> HAuth (remoteHost remote) c]\<rparr>)"

text \<open>The handshake and what \<open>handleConnection\<close> does with its outcome.\<close>

definition auth_conn :: "bytes res \<Rightarrow> int \<Rightarrow> nat \<Rightarrow> Server \<Rightarrow> Server" where
  "auth_conn rnd now h sv =
     (case handler_of sv h of
        HAuth key c \<Rightarrow>
          (case ServerHandshake rnd (sv_verifier sv) [] c of
             (response, Some e, c') \<Rightarrow>
               set_handler h (HEnded (Some e)) (sv\<lparr>sv_limiter := RateLimiter_Fail now key (sv_limiter sv)\<rparr>)
           | (response, None, c') \<Rightarrow>
               let sv1 = sv\<lparr>sv_limiter := RateLimiter_Success key (sv_limiter sv)\<rparr> in
               set_handler h
                 (if connectionCount sv1 \<ge> nd_ConnectionLimit (sv_config sv1)
                  then HEnded (Some (Msg ''connection limit reached''))
                  else if resp_Role response = RoleClient then HClientStart c'
                  else if resp_Role response = RoleExit then HExitStart c'
                  else HEnded (Some (Msg (''unsupported authenticated role '' @ quoted (resp_Role response))))) sv1)
      | _ \<Rightarrow> sv)"

section \<open>Clients\<close>

definition pushCatalog :: "nat \<Rightarrow> Server \<Rightarrow> Server" where
  "pushCatalog h sv =
     set_session h (snd (writeFrameJSON FrameCatalog 0
       (Catalog_json \<lparr>Exits = Registry_Snapshot (sv_registry sv)\<rparr>) (session_of sv h))) sv"

definition broadcastCatalog :: "Server \<Rightarrow> Server" where
  "broadcastCatalog sv =
     (let catalog = Registry_Snapshot (sv_registry sv) in
      fold (\<lambda>h v. set_session h (snd (writeFrameJSON FrameCatalog 0 (Catalog_json \<lparr>Exits = catalog\<rparr>) (session_of v h))) v)
        (sv_clients sv) sv)"

definition client_start :: "nat \<Rightarrow> Server \<Rightarrow> Server" where
  "client_start h sv =
     (case handler_of sv h of
        HClientStart c \<Rightarrow>
          (case Start (Some (Inr c)) True (session_of sv h) of
             (Some e, s) \<Rightarrow> set_handler h (HEnded (Some e)) (set_session h s sv)
           | (None, s) \<Rightarrow> set_handler h HClientPush (set_session h s (sv\<lparr>sv_clients := sv_clients sv @ [h]\<rparr>)))
      | _ \<Rightarrow> sv)"

definition client_push :: "nat \<Rightarrow> Server \<Rightarrow> Server" where
  "client_push h sv =
     (case handler_of sv h of HClientPush \<Rightarrow> set_handler h HClientServe (pushCatalog h sv) | _ \<Rightarrow> sv)"

definition client_done :: "nat \<Rightarrow> Server \<Rightarrow> Server" where
  "client_done h sv =
     (if handler_of sv h = HClientServe \<and> ss_done (session_of sv h)
      then set_handler h (HEnded (ss_err (session_of sv h))) (sv\<lparr>sv_clients := removeAll h (sv_clients sv)\<rparr>)
      else sv)"

section \<open>Exits\<close>

definition exit_start :: "nat \<Rightarrow> Server \<Rightarrow> Server" where
  "exit_start h sv =
     (case handler_of sv h of
        HExitStart c \<Rightarrow>
          (case Start (Some (Inr c)) True (session_of sv h) of
             (Some e, s) \<Rightarrow> set_handler h (HEnded (Some e)) (set_session h s sv)
           | (None, s) \<Rightarrow> set_handler h HExitStarted (set_session h s sv))
      | _ \<Rightarrow> sv)"

text \<open>\<open>waitForRegistration\<close> installs its control handler, then waits for one of four events.\<close>

definition exit_listen :: "nat \<Rightarrow> Server \<Rightarrow> Server" where
  "exit_listen h sv =
     (case handler_of sv h of
        HExitStarted \<Rightarrow> set_handler h (HExitWait None None) (set_session h (SetControlHandler True (session_of sv h)) sv)
      | _ \<Rightarrow> sv)"

text \<open>The control handlers: registrations while waiting, heartbeats once registered.\<close>

definition control :: "int \<Rightarrow> nat \<Rightarrow> Frame \<Rightarrow> Server \<Rightarrow> Server" where
  "control now h f sv =
     (let heartbeat = (\<lambda>i.
        if Type f \<noteq> FrameHeartbeat then sv
        else case DecodeJSON json_Heartbeat f of
          Inl e \<Rightarrow> sv
        | Inr b \<Rightarrow> sv\<lparr>sv_registry := Registry_Heartbeat now (b\<lparr>hb_ExitID := i\<rparr>) (sv_registry sv)\<rparr>) in
      case handler_of sv h of
        HExitWait reg err \<Rightarrow>
          if Type f \<noteq> FrameRegister then sv
          else (case DecodeJSON json_ExitRegistration f of
                  Inl e \<Rightarrow> set_handler h (HExitWait reg (case err of None \<Rightarrow> Some e | Some x \<Rightarrow> Some x)) sv
                | Inr r \<Rightarrow> set_handler h (HExitWait (case reg of None \<Rightarrow> Some r | Some x \<Rightarrow> Some x) err) sv)
      | HExitAdd r \<Rightarrow> heartbeat (xr_ID r)
      | HExitAnnounce r \<Rightarrow> heartbeat (xr_ID r)
      | HExitServe r \<Rightarrow> heartbeat (xr_ID r)
      | HExitRemove r \<Rightarrow> heartbeat (xr_ID r)
      | _ \<Rightarrow> sv)"

text \<open>A step of the read loop of handler \<open>h\<close>'s session, with the control handler it calls.\<close>

definition server_read :: "int \<Rightarrow> nat \<Rightarrow> Server \<Rightarrow> Server list" where
  "server_read now h sv =
     map (\<lambda>t. fold (control now h) (ss_ctl t) (set_session h (t\<lparr>ss_ctl := []\<rparr>) sv)) (readLoop_step (session_of sv h))"

definition normalize_registration :: "Node \<Rightarrow> ExitRegistration \<Rightarrow> ExitRegistration" where
  "normalize_registration cfg r0 =
     (let r1 = (if xr_ID r0 = [] then r0\<lparr>xr_ID := nd_ExitID cfg\<rparr> else r0);
          r2 = (if xr_Capacity r1 \<le> 0 then r1\<lparr>xr_Capacity := nd_ConnectionLimit cfg\<rparr> else r1)
      in if xr_Name r2 = [] then r2\<lparr>xr_Name := xr_ID r2\<rparr> else r2)"

datatype wait_event = WRegistered | WFailed | WTimeout | WDone

definition exit_wait :: "wait_event \<Rightarrow> nat \<Rightarrow> Server \<Rightarrow> Server" where
  "exit_wait ev h sv =
     (let fail = (\<lambda>e. set_handler h (HEnded e) (set_session h (snd (Session_Close None (session_of sv h))) sv)) in
      case handler_of sv h of
        HExitWait reg err \<Rightarrow>
          (case ev of
             WRegistered \<Rightarrow>
               (case reg of
                  None \<Rightarrow> sv
                | Some r0 \<Rightarrow>
                    let r = normalize_registration (sv_config sv) r0 in
                    if xr_ID r = [] then fail (Some (Msg ''exit registration has no ID''))
                    else set_handler h (HExitRegister r) sv)
           | WFailed \<Rightarrow> (case err of None \<Rightarrow> sv | Some e \<Rightarrow> fail (Some e))
           | WTimeout \<Rightarrow> fail (Some (Msg ''exit registration timed out''))
           | WDone \<Rightarrow> if ss_done (session_of sv h) then fail (ss_err (session_of sv h)) else sv)
      | _ \<Rightarrow> sv)"

text \<open>The critical section that replaces the connection of an exit: an older session is closed.\<close>

definition exit_register :: "nat \<Rightarrow> Server \<Rightarrow> Server" where
  "exit_register h sv =
     (case handler_of sv h of
        HExitRegister r \<Rightarrow>
          let sv1 = (case gm_get (sv_exits sv) (xr_ID r) of
                       None \<Rightarrow> sv
                     | Some old \<Rightarrow> set_session old (snd (Session_Close None (session_of sv old))) sv)
          in set_handler h (HExitAdd r) (sv1\<lparr>sv_exits := gm_set (xr_ID r) h (sv_exits sv1)\<rparr>)
      | _ \<Rightarrow> sv)"

definition exit_info :: "ExitRegistration \<Rightarrow> ExitInfo" where
  "exit_info r = \<lparr>ei_ID = xr_ID r, ei_Name = xr_Name r, ei_Type = ''exit'', ei_Health = [], ei_LatencyMS = 10,
     ei_ActiveConnections = 0, ei_Capacity = xr_Capacity r, ei_Features = xr_Features r, ei_HeartbeatTime = 0\<rparr>"

definition exit_add :: "int \<Rightarrow> nat \<Rightarrow> Server \<Rightarrow> Server" where
  "exit_add now h sv =
     (case handler_of sv h of
        HExitAdd r \<Rightarrow>
          set_handler h (HExitAnnounce r) (sv\<lparr>sv_registry := Registry_Add now (exit_info r) ''healthy'' (sv_registry sv)\<rparr>)
      | _ \<Rightarrow> sv)"

definition exit_announce :: "nat \<Rightarrow> Server \<Rightarrow> Server" where
  "exit_announce h sv =
     (case handler_of sv h of HExitAnnounce r \<Rightarrow> set_handler h (HExitServe r) (broadcastCatalog sv) | _ \<Rightarrow> sv)"

text \<open>The end of the exit's session: the entry in \<open>exitConns\<close> goes if it is still this connection's.\<close>

definition exit_drop :: "nat \<Rightarrow> Server \<Rightarrow> Server" where
  "exit_drop h sv =
     (case handler_of sv h of
        HExitServe r \<Rightarrow>
          if ss_done (session_of sv h) then
            set_handler h (HExitRemove r)
              (if gm_get (sv_exits sv) (xr_ID r) = Some h then sv\<lparr>sv_exits := gm_del (xr_ID r) (sv_exits sv)\<rparr> else sv)
          else sv
      | _ \<Rightarrow> sv)"

definition exit_remove :: "nat \<Rightarrow> Server \<Rightarrow> Server" where
  "exit_remove h sv =
     (case handler_of sv h of
        HExitRemove r \<Rightarrow> set_handler h HExitBye (sv\<lparr>sv_registry := Registry_Remove (xr_ID r) (sv_registry sv)\<rparr>)
      | _ \<Rightarrow> sv)"

definition exit_bye :: "nat \<Rightarrow> Server \<Rightarrow> Server" where
  "exit_bye h sv =
     (case handler_of sv h of
        HExitBye \<Rightarrow> set_handler h (HEnded (ss_err (session_of sv h))) (broadcastCatalog sv)
      | _ \<Rightarrow> sv)"

text \<open>A tick of \<open>catalogLoop\<close>.\<close>

definition catalog_tick :: "int \<Rightarrow> Server \<Rightarrow> Server" where
  "catalog_tick now sv =
     (let before = Registry_Snapshot (sv_registry sv) in
      case Registry_Expire now (sv_registry sv) of
        (after, r) \<Rightarrow>
          let sv1 = sv\<lparr>sv_registry := r\<rparr> in
          if length before \<noteq> length after then broadcastCatalog sv1 else sv1)"

section \<open>Forwarding a stream\<close>

text \<open>
  \<open>forwardOpen\<close> for stream \<open>r\<close> of client \<open>h\<close>: rejected at once, to be dialed from the server itself, or
  waiting for exit \<open>x\<close> (its stream there).
\<close>

datatype forward = FRejected | FDirect string u16 | FExit nat nat

definition reject :: "nat \<Rightarrow> nat \<Rightarrow> string \<Rightarrow> Server \<Rightarrow> Server" where
  "reject h r m sv = set_session h (snd (Stream_Reject r m (session_of sv h))) sv"

definition forward_open :: "nat \<Rightarrow> nat \<Rightarrow> Server \<Rightarrow> forward \<times> Server" where
  "forward_open h r sv =
     (let request = st_request (deref (session_of sv h) r) in
      case Registry_Select (or_ExitID request) False (sv_registry sv) of
        Inl e \<Rightarrow> (FRejected, reject h r (error_text e) sv)
      | Inr selected \<Rightarrow>
          if ei_ID selected = directID then (FDirect (or_Destination request) (or_Port request), sv)
          else case gm_get (sv_exits sv) (ei_ID selected) of
            None \<Rightarrow> (FRejected, reject h r (error_text ErrExitUnavailable) sv)
          | Some x \<Rightarrow>
              (case Open_send request (session_of sv x) of
                 (Inl e, s) \<Rightarrow> (FRejected, reject h r (''exit unavailable: '' @ error_text e) (set_session x s sv))
               | (Inr y, s) \<Rightarrow> (FExit x y, set_session x s sv)))"

text \<open>
  The rest of \<open>forwardOpen\<close> with the outcome of the dial (to the destination, or of the exit's
  acknowledgement): the stream is accepted, or rejected with the reason. When accepting fails, the
  other side is closed.
\<close>

definition forward_finish :: "string \<Rightarrow> nat \<Rightarrow> nat \<Rightarrow> 'a res \<Rightarrow> Server \<Rightarrow> bool \<times> Server" where
  "forward_finish what h r dialed sv =
     (case dialed of
        Inl e \<Rightarrow> (False, reject h r (what @ '' unavailable: '' @ error_text e) sv)
      | Inr _ \<Rightarrow>
          (case Stream_Accept r (session_of sv h) of
             (e, s) \<Rightarrow> (e = None, set_session h s sv)))"

definition serveExitStream :: "(string \<Rightarrow> conn res) \<Rightarrow> nat \<Rightarrow> nat \<Rightarrow> Server \<Rightarrow> bool \<times> Server" where
  "serveExitStream dial h r sv =
     (let request = st_request (deref (session_of sv h) r) in
      forward_finish ''destination'' h r (DialDestination dial (or_Destination request) (or_Port request)) sv)"

end
