(* ===== verification/AuthProps.thy ===== *)
theory AuthProps
  imports Auth
begin

text \<open>
  What the authentication code promises: client and server agree on the outcome of a handshake,
  which is that the client knows the password; the client spends no more on a server's challenge
  than its bounds allow; the verifier survives its file; a key that fails too often is blocked,
  and only that key.
\<close>

section \<open>Messages of the handshake\<close>

lemma challenge_roundtrip: "int64 (ch_Version c) \<Longrightarrow> json_challenge (challenge_json c) = Some c"
  by (cases c) (simp add: json_challenge_def challenge_json_def jstruct_def fold_names)

lemma printable_challenge [simp]: "printable (challenge_json c)"
  by (simp add: challenge_json_def)

lemma ch_Nonce_challenge [simp]: "ch_Nonce (challenge_of v nonce) = nonce"
  by (simp add: challenge_of_def)

lemma int64_Version [simp]: "int64 Version"
  by (simp add: int64_def Version_def)

lemma decodeChallenge_challenge:
  "decodeChallenge (Marshal (challenge_json (challenge_of v nonce))) =
     (if challenge_ok (challenge_of v nonce) then Inr (challenge_of v nonce)
      else Inl (Msg ''invalid authentication challenge''))"
proof -
  have "json_challenge (challenge_json (challenge_of v nonce)) = Some (challenge_of v nonce)"
    by (rule challenge_roundtrip) (simp add: challenge_of_def)
  then show ?thesis by (simp add: decodeChallenge_def Unmarshal_Marshal)
qed

definition challenge_frame :: "Verifier \<Rightarrow> bytes \<Rightarrow> Frame" where
  "challenge_frame v nonce = \<lparr>Type = FrameChallenge, ID = 0, Payload = Marshal (challenge_json (challenge_of v nonce))\<rparr>"

lemma challenge_frame_ok:
  assumes "length (vf_Salt v) \<le> 10000" "length nonce \<le> 10000"
  shows "frame_ok (challenge_frame v nonce)"
proof -
  let ?c = "challenge_of v nonce"
  have b: "length (print_string (b64_encode True bs)) \<le> 240026" if "length bs \<le> 10000" for bs
    using length_print_string [of "b64_encode True bs"] length_b64 [of True bs] that by simp
  have "length (print_string (b64_encode True (ch_Nonce ?c))) \<le> 240026"
    "length (print_string (b64_encode True (ch_Salt ?c))) \<le> 240026"
    using b assms by (simp_all add: challenge_of_def)
  moreover have "length (print_string ''version'') = 9" "length (print_string ''nonce'') = 7"
    "length (print_string ''salt'') = 6" "length (print_string ''iterations'') = 12"
    "length (print_string ''memory_kib'') = 12" "length (print_string ''parallelism'') = 13" "length (Itoa Version) = 1"
    by code_simp+
  moreover have "ch_Version ?c = Version" by (simp add: challenge_of_def)
  ultimately show ?thesis
    using length_word_u32 [of "ch_Memory ?c"] length_word_u32 [of "ch_Iterations ?c"] length_word_u8 [of "ch_Parallelism ?c"]
    by (simp add: frame_ok_def challenge_frame_def Marshal_def challenge_json_def bracketed_def bytes_j_def word_j_def
        MaxFrameSize_def)
qed

definition response_frame :: "AuthResponse \<Rightarrow> Frame" where
  "response_frame r = \<lparr>Type = FrameAuthResponse, ID = 0, Payload = Marshal (AuthResponse_json r)\<rparr>"

definition result_frame :: "bool \<Rightarrow> Frame" where
  "result_frame ok = \<lparr>Type = FrameAuthResult, ID = 0, Payload = Marshal (AuthResult_json (auth_result ok))\<rparr>"

lemma result_frame_ok: "frame_ok (result_frame ok)"
proof -
  have "length (Marshal (AuthResult_json (auth_result True))) < 100"
    "length (Marshal (AuthResult_json (auth_result False))) < 100"
    by code_simp+
  then show ?thesis by (cases ok) (simp_all add: frame_ok_def result_frame_def MaxFrameSize_def)
qed

lemma decode_result: "DecodeJSON json_AuthResult (result_frame ok) = Inr (auth_result ok)"
  by (rule DecodeJSON_messages) (simp_all add: result_frame_def auth_result_def ErrInvalidPassword_def)

lemma response_frame_ok:
  assumes "length role \<le> 100000"
  shows "frame_ok (response_frame (client_answer v ch role))"
proof -
  let ?r = "client_answer v ch role"
  have "length (print_string (resp_Role ?r)) \<le> 600002"
    using length_print_string [of role] assms by (simp add: client_answer_def)
  moreover have "length (print_string (b64_encode True (resp_Response ?r))) \<le> 794"
    using length_print_string [of "b64_encode True (resp_Response ?r)"] length_b64 [of True "resp_Response ?r"]
    by (simp add: client_answer_def ChallengeResponse_def)
  moreover have keys: "length (print_string ''version'') = 9" "length (print_string ''role'') = 6"
    "length (print_string ''response'') = 10" "length (Itoa Version) = 1"
    by code_simp+
  moreover have "resp_Version ?r = Version" "resp_SessionID ?r = []" by (simp_all add: client_answer_def)
  ultimately show ?thesis
    by (simp add: frame_ok_def response_frame_def Marshal_def AuthResponse_json_def bracketed_def bytes_j_def
        omit_if_def MaxFrameSize_def)
qed

text \<open>What the server decides, and what decides it.\<close>

definition response_good :: "Verifier \<Rightarrow> string \<Rightarrow> bytes \<Rightarrow> AuthResponse \<Rightarrow> bool" where
  "response_good v roleLimit nonce r \<longleftrightarrow>
     resp_Version r = Version \<and> (roleLimit = [] \<or> roleLimit = resp_Role r) \<and>
     resp_Response r = ChallengeResponse v nonce"

lemma server_answer:
  assumes "challenge_ok (challenge_of v nonce)" and "response_ok r"
    and "frame_ok (challenge_frame v nonce)" and "frame_ok (response_frame r)"
    and "wres c = []" and "rbuf c = frame_bytes (response_frame r) @ rest"
  shows "ServerHandshakePassword (Inr nonce) v roleLimit c =
    (r, if response_good v roleLimit nonce r then None else Some ErrInvalidPassword,
     c\<lparr>rbuf := rest, wout := wout c @ frame_bytes (challenge_frame v nonce)
        @ frame_bytes (result_frame (response_good v roleLimit nonce r))\<rparr>)"
proof -
  let ?c1 = "c\<lparr>wout := wout c @ frame_bytes (challenge_frame v nonce)\<rparr>"
  let ?ok = "response_good v roleLimit nonce r"
  have w: "WriteFrame (challenge_frame v nonce) c = (None, ?c1)"
    by (rule WriteFrame_ok [OF assms(3,5)])
  have rd: "ReadFrame ?c1 = (Inr (response_frame r), ?c1\<lparr>rbuf := rest\<rparr>)"
    by (rule ReadFrame_frame_bytes [OF assms(4)]) (simp add: assms(6))
  have dj: "DecodeJSON json_AuthResponse (response_frame r) = Inr r"
    by (rule DecodeJSON_messages(1) [OF assms(2)]) (simp add: response_frame_def)
  have ok: "(resp_Version r = Version \<and> (roleLimit = [] \<or> roleLimit = resp_Role r)
      \<and> VerifyChallenge v nonce (resp_Response r)) = ?ok"
    by (auto simp: response_good_def VerifyChallenge_def)
  have w2: "WriteFrame (result_frame ?ok) (?c1\<lparr>rbuf := rest\<rparr>) =
      (None, ?c1\<lparr>rbuf := rest, wout := wout ?c1 @ frame_bytes (result_frame ?ok)\<rparr>)"
    using WriteFrame_ok [OF result_frame_ok, of "?c1\<lparr>rbuf := rest\<rparr>" ?ok] assms(5) by simp
  have ty: "Type (response_frame r) = FrameAuthResponse" by (simp add: response_frame_def)
  show ?thesis
    unfolding ServerHandshakePassword_def makeChallenge_def sum.case Writer_Write_def Writer_WriteJSON_def
      challenge_frame_def [symmetric] w prod.case option.case rd ty dj decodeChallenge_challenge
    using assms(1) w2 by (simp add: ok Let_def result_frame_def)
qed

lemma client_verdict:
  assumes "challenge_ok (challenge_of v nonce)" and "valid_utf8 role"
    and "a = client_answer (challenge_verifier kdf pass (challenge_of v nonce)) (challenge_of v nonce) role"
    and "frame_ok (challenge_frame v nonce)" and "frame_ok (response_frame a)"
    and "wres d = []" and "rbuf d = frame_bytes (challenge_frame v nonce) @ frame_bytes (result_frame ok) @ rest"
  shows "ClientHandshakePassword kdf pass role d =
    (if ok then None else Some ErrInvalidPassword, d\<lparr>rbuf := rest, wout := wout d @ frame_bytes (response_frame a)\<rparr>)"
proof -
  let ?d1 = "d\<lparr>rbuf := frame_bytes (result_frame ok) @ rest\<rparr>"
  let ?d2 = "?d1\<lparr>wout := wout ?d1 @ frame_bytes (response_frame a)\<rparr>"
  have rd: "ReadFrame d = (Inr (challenge_frame v nonce), ?d1)"
    by (rule ReadFrame_frame_bytes [OF assms(4,7)])
  have ty: "Type (challenge_frame v nonce) = FrameChallenge" "Type (result_frame ok) = FrameAuthResult"
    "Payload (challenge_frame v nonce) = Marshal (challenge_json (challenge_of v nonce))"
    by (simp_all add: challenge_frame_def result_frame_def)
  have w: "WriteFrame \<lparr>Type = FrameAuthResponse, ID = 0, Payload = Marshal (AuthResponse_json a)\<rparr> ?d1 = (None, ?d2)"
    using WriteFrame_ok [OF assms(5), of ?d1] assms(6) by (simp add: response_frame_def)
  have rd2: "ReadFrame ?d2 = (Inr (result_frame ok), ?d2\<lparr>rbuf := rest\<rparr>)"
    by (rule ReadFrame_frame_bytes [OF result_frame_ok]) simp
  show ?thesis
    unfolding ClientHandshakePassword_def rd prod.case sum.case ty decodeChallenge_challenge
    using assms(1) w rd2 ty decode_result [of ok]
    by (simp add: client_finish_def Writer_WriteJSON_def Writer_Write_def auth_result_def flip: assms(3))
qed

section \<open>Properties\<close>

text \<open>
  C9 (handshake). Connect a server and a client that knows a passphrase, each reading what the
  other writes. Both handshakes end, with the same verdict: they succeed exactly when the role is
  the one asked for and the client's proof is the keyed hash of the server's nonce under the
  server's stored key. A client with the right passphrase and role is accepted; the passphrase
  and the derived key are no part of the messages, only the proof is.
\<close>

theorem handshake_agreement:
  assumes "challenge_ok (challenge_of v nonce)" and "valid_utf8 role"
    and "a = client_answer (challenge_verifier kdf pass (challenge_of v nonce)) (challenge_of v nonce) role"
    and "length (vf_Salt v) \<le> 10000" and "length nonce = 32" and "length role \<le> 100000" and "wres c = []" and "wres d = []"
    and "ok \<longleftrightarrow> (roleLimit = [] \<or> roleLimit = role) \<and>
      hmac_sha256 (Derive kdf pass (vf_Salt v) (vf_Params v)) (bytes_of ''lnproxy-auth-v1'' @ nonce)
        = hmac_sha256 (vf_Hash v) (bytes_of ''lnproxy-auth-v1'' @ nonce)"
    and "rbuf c = frame_bytes (response_frame a)"
    and "rbuf d = frame_bytes (challenge_frame v nonce) @ frame_bytes (result_frame ok)"
  shows "\<exists>c' d'. ServerHandshakePassword (Inr nonce) v roleLimit c = (a, if ok then None else Some ErrInvalidPassword, c')
    \<and> ClientHandshakePassword kdf pass role d = (if ok then None else Some ErrInvalidPassword, d')
    \<and> wout c' = wout c @ rbuf d \<and> wout d' = wout d @ rbuf c
    \<and> (Verifier_Verify kdf v pass \<and> (roleLimit = [] \<or> roleLimit = role) \<longrightarrow> ok)"
proof -
  have par: "vf_Hash (challenge_verifier kdf pass (challenge_of v nonce)) = Derive kdf pass (vf_Salt v) (vf_Params v)"
    by (cases "vf_Params v") (simp add: challenge_verifier_def challenge_of_def Let_def)
  have cf: "frame_ok (challenge_frame v nonce)" using assms(4,5) by (intro challenge_frame_ok) simp_all
  have rf: "frame_ok (response_frame a)" unfolding assms(3) by (rule response_frame_ok [OF assms(6)])
  have ro: "response_ok a" using assms(2,3) by (simp add: response_ok_def client_answer_def)
  have good: "response_good v roleLimit nonce a = ok"
    using assms(3,9) par
    by (auto simp: response_good_def client_answer_def ChallengeResponse_def challenge_of_def)
  have s: "ServerHandshakePassword (Inr nonce) v roleLimit c =
    (a, if ok then None else Some ErrInvalidPassword,
     c\<lparr>rbuf := [], wout := wout c @ frame_bytes (challenge_frame v nonce) @ frame_bytes (result_frame ok)\<rparr>)"
    using server_answer [OF assms(1) ro cf rf assms(7), of "[]" roleLimit] assms(10) good by simp
  have cl: "ClientHandshakePassword kdf pass role d =
    (if ok then None else Some ErrInvalidPassword, d\<lparr>rbuf := [], wout := wout d @ frame_bytes (response_frame a)\<rparr>)"
    using client_verdict [OF assms(1,2,3) cf rf assms(8), of ok "[]"] assms(11) by simp
  show ?thesis using s cl assms(9-11) by (auto simp: Verifier_Verify_def)
qed

definition ex_kdf :: kdf where
  "ex_kdf p salt it mem par n = take n (p @ replicate n 0)"

definition ex_verifier :: Verifier where
  "ex_verifier = \<lparr>vf_Salt = replicate 16 1, vf_Hash = Derive ex_kdf ''pw'' (replicate 16 1) DefaultParameters,
     vf_Params = DefaultParameters\<rparr>"

lemma ex_challenge: "challenge_ok (challenge_of ex_verifier (replicate 32 7))"
  by (simp add: challenge_ok_def challenge_of_def ex_verifier_def DefaultParameters_def defaultMemory_def
      defaultIterations_def defaultParallelism_def)

lemma ex_verify: "Verifier_Verify ex_kdf ex_verifier ''pw''"
  by (simp add: Verifier_Verify_def ex_verifier_def)

theorem handshake_agreement_witness:
  "\<exists>a c d c' d'. ServerHandshakePassword (Inr (replicate 32 7)) ex_verifier RoleClient c = (a, None, c')
     \<and> ClientHandshakePassword ex_kdf ''pw'' RoleClient d = (None, d') \<and> wout c' = rbuf d \<and> wout d' = rbuf c"
proof -
  let ?n = "replicate 32 7 :: bytes" and ?v = ex_verifier
  let ?a = "client_answer (challenge_verifier ex_kdf ''pw'' (challenge_of ?v ?n)) (challenge_of ?v ?n) RoleClient"
  let ?c = "conn_of (frame_bytes (response_frame ?a))"
  let ?d = "conn_of (frame_bytes (challenge_frame ?v ?n) @ frame_bytes (result_frame True))"
  have h: "valid_utf8 RoleClient" "length (vf_Salt ?v) \<le> 10000" "length ?n = 32" "length RoleClient \<le> 100000"
    "wres ?c = []" "wres ?d = []"
    by (simp_all add: RoleClient_def conn_of_def ex_verifier_def)
  from handshake_agreement [OF ex_challenge h(1) refl h(2-), of True RoleClient ex_kdf "''pw''"] ex_verify
  show ?thesis by (fastforce simp: conn_of_def Verifier_Verify_def)
qed

lemma handshake_success:
  assumes "ServerHandshakePassword (Inr nonce) v roleLimit c = (r, None, c') \<or> ServerHandshake (Inr nonce) v roleLimit c = (r, None, c')"
  obtains c1 f c2 where
    "WriteFrame \<lparr>Type = FrameChallenge, ID = 0, Payload = Marshal (challenge_json (challenge_of v nonce))\<rparr> c = (None, c1)"
    and "ReadFrame c1 = (Inr f, c2)" and "Type f = FrameAuthResponse" and "DecodeJSON json_AuthResponse f = Inr r"
    and "challenge_ok (challenge_of v nonce)" and "response_good v roleLimit nonce r"
    and "WriteFrame (result_frame True) c2 = (None, c')"
  using assms
  by (auto simp: ServerHandshakePassword_def ServerHandshake_def makeChallenge_def Writer_Write_def Writer_WriteJSON_def
      decodeChallenge_challenge Let_def response_good_def VerifyChallenge_def result_frame_def
      split: prod.splits sum.splits option.splits if_splits)

lemma handshake_variants:
  "ServerHandshakePassword (Inr nonce) v roleLimit c = (r, None, c') \<longleftrightarrow> ServerHandshake (Inr nonce) v roleLimit c = (r, None, c')"
proof
  assume "ServerHandshakePassword (Inr nonce) v roleLimit c = (r, None, c')"
  then show "ServerHandshake (Inr nonce) v roleLimit c = (r, None, c')"
    by (auto elim!: handshake_success [OF disjI1]
        simp: ServerHandshake_def makeChallenge_def Writer_Write_def Writer_WriteJSON_def
        decodeChallenge_challenge Let_def response_good_def VerifyChallenge_def result_frame_def)
next
  assume "ServerHandshake (Inr nonce) v roleLimit c = (r, None, c')"
  then show "ServerHandshakePassword (Inr nonce) v roleLimit c = (r, None, c')"
    by (auto elim!: handshake_success [OF disjI2]
        simp: ServerHandshakePassword_def makeChallenge_def Writer_Write_def Writer_WriteJSON_def
        decodeChallenge_challenge Let_def response_good_def VerifyChallenge_def result_frame_def)
qed

lemma ServerHandshake_accepts:
  assumes "ServerHandshake rnd v roleLimit c = (r, None, c')"
  shows "\<exists>nonce f. rnd = Inr nonce \<and> response_good v roleLimit nonce r \<and> challenge_ok (challenge_of v nonce)
    \<and> Type f = FrameAuthResponse \<and> DecodeJSON json_AuthResponse f = Inr r \<and> rbuf c = frame_bytes f @ rbuf c'"
proof (cases rnd)
  case (Inr nonce)
  let ?ch = "\<lparr>Type = FrameChallenge, ID = 0, Payload = Marshal (challenge_json (challenge_of v nonce))\<rparr>"
  obtain c1 f c2 where h: "WriteFrame ?ch c = (None, c1)" "ReadFrame c1 = (Inr f, c2)" "Type f = FrameAuthResponse"
    "DecodeJSON json_AuthResponse f = Inr r" "challenge_ok (challenge_of v nonce)" "response_good v roleLimit nonce r"
    "WriteFrame (result_frame True) c2 = (None, c')"
    using handshake_success [OF disjI2] assms Inr by metis
  have "rbuf c1 = rbuf c" using WriteFrame_reader(1) [of ?ch c] h(1) by simp
  moreover have "rbuf c' = rbuf c2" using WriteFrame_reader(1) [of "result_frame True" c2] h(7) by simp
  ultimately show ?thesis using ReadFrame_sound [OF h(2)] Inr h by auto
qed (use assms in \<open>simp add: ServerHandshake_def makeChallenge_def\<close>)



text \<open>
  Remark (bounded work). A server cannot make the client derive a key at will: whatever the client
  receives, its handshake depends on the key derivation only within the accepted bounds (1 to 10
  iterations, 8 MiB to 1 GiB, 1 to 16 lanes, a salt of 8 bytes at least). Two derivations that agree
  there give the same run.
\<close>

theorem client_work_bounded:
  assumes "\<And>p salt it mem par. 1 \<le> it \<Longrightarrow> it \<le> 10 \<Longrightarrow> 8 * 1024 \<le> mem \<Longrightarrow> mem \<le> 1024 * 1024 \<Longrightarrow>
      1 \<le> par \<Longrightarrow> par \<le> 16 \<Longrightarrow> 8 \<le> length salt \<Longrightarrow> kdf p salt it mem par keyLength = kdf' p salt it mem par keyLength"
  shows "ClientHandshakePassword kdf pass role c = ClientHandshakePassword kdf' pass role c"
proof -
  have "challenge_verifier kdf pass ch = challenge_verifier kdf' pass ch" if "challenge_ok ch" for ch
  proof -
    have one: "w \<noteq> 0 \<Longrightarrow> 1 \<le> w" for w :: "'a::len word"
      by (simp add: linorder_not_less [symmetric])
    have "ch_Memory ch \<noteq> 0" using that by (auto simp: challenge_ok_def)
    with that show ?thesis
      by (simp add: challenge_verifier_def Derive_def Let_def) (rule assms, auto simp: challenge_ok_def not_less one)
  qed
  moreover have "challenge_ok ch" if "decodeChallenge b = Inr ch" for b ch
    using that by (auto simp: decodeChallenge_def split: option.splits if_splits)
  ultimately show ?thesis
    by (auto simp: ClientHandshakePassword_def split: prod.splits sum.splits)
qed

theorem client_work_bounded_witness:
  "ClientHandshakePassword ex_kdf ''pw'' RoleClient (conn_of []) =
   ClientHandshakePassword (\<lambda>p salt it mem par n. if it > 10 then [] else ex_kdf p salt it mem par n) ''pw'' RoleClient (conn_of [])"
  by (rule client_work_bounded) (auto simp: not_less)

text \<open>
  Remark (stored parameters). A verifier whose stored cost parameters lie outside the accepted bounds
  is loaded without complaint, but no handshake with it succeeds: with any peer and any random
  nonce, the server returns an error and never reports success.
\<close>

theorem out_of_range_verifier_unusable:
  assumes "\<not> challenge_ok (challenge_of v nonce)" and "ServerHandshakePassword (Inr nonce) v roleLimit c = (r, e, c')"
  shows "e \<noteq> None"
  using assms
  by (auto simp: ServerHandshakePassword_def makeChallenge_def decodeChallenge_challenge
      split: prod.splits sum.splits option.splits if_splits)

theorem out_of_range_verifier_unusable_witness:
  "fst (snd (ServerHandshakePassword (Inr (replicate 32 7)) (ex_verifier\<lparr>vf_Params := zero_params\<rparr>) [] (conn_of []))) \<noteq> None"
proof -
  let ?v = "ex_verifier\<lparr>vf_Params := zero_params\<rparr>"
  have bad: "\<not> challenge_ok (challenge_of ?v (replicate 32 7))"
    by (simp add: challenge_ok_def challenge_of_def zero_params_def)
  obtain r e c' where h: "ServerHandshakePassword (Inr (replicate 32 7)) ?v [] (conn_of []) = (r, e, c')" by (rule prod_cases3)
  from out_of_range_verifier_unusable [OF bad h] h show ?thesis by simp
qed

section \<open>The verifier file\<close>

lemma Parameters_roundtrip: "json_Parameters (Parameters_json p) = Some p"
  by (cases p) (simp add: json_Parameters_def Parameters_json_def jstruct_def fold_names)

lemma VerifierFile_roundtrip: "int64 (vff_Version f) \<Longrightarrow> json_VerifierFile (VerifierFile_json f) = Some f"
proof -
  have "Parameters_json p \<noteq> JNull" for p by (simp add: Parameters_json_def)
  then show "int64 (vff_Version f) \<Longrightarrow> json_VerifierFile (VerifierFile_json f) = Some f"
    by (cases f) (simp add: json_VerifierFile_def VerifierFile_json_def jstruct_def fold_names Parameters_roundtrip)
qed

interpretation priv: atomic_writer p "writePrivateFile p" for p
  using replace.written replace.unwritten replace.others by unfold_locales (auto simp: writePrivateFile_def)

definition verifier_text :: "Verifier \<Rightarrow> bytes" where
  "verifier_text v = MarshalIndent (VerifierFile_json
     \<lparr>vff_Version = 1, vff_Salt = b64_encode False (vf_Salt v), vff_Hash = b64_encode False (vf_Hash v), vff_Params = vf_Params v\<rparr>) @ [10]"

lemma LoadVerifier_stored:
  assumes "8 \<le> length (vf_Salt v)" and "length (vf_Hash v) = keyLength" and "fs_calls s = []"
    and "fs_files s path = Some \<lparr>fl_data = verifier_text v, fl_mode = m\<rparr>"
  shows "LoadVerifier path s = (Inr v, s)"
proof -
  let ?f = "\<lparr>vff_Version = 1, vff_Salt = b64_encode False (vf_Salt v), vff_Hash = b64_encode False (vf_Hash v),
           vff_Params = vf_Params v\<rparr>"
  have pr: "printable (VerifierFile_json ?f)" by (simp add: VerifierFile_json_def Parameters_json_def)
  have rt: "json_VerifierFile (VerifierFile_json ?f) = Some ?f" by (rule VerifierFile_roundtrip) (simp add: int64_def)
  have "os_ReadFile path s = (Inr (MarshalIndent (VerifierFile_json ?f) @ [10]), s)"
    using assms(3,4) by (simp add: os_ReadFile_def next_call_def verifier_text_def)
  then show ?thesis using assms(1,2) rt by (simp add: LoadVerifier_def Unmarshal_MarshalIndent [OF pr])
qed

text \<open>
  C35 (verifier file). A verifier that was saved without an error is what \<open>LoadVerifier\<close> reads back, and the
  file is readable by its owner only; a save that fails leaves the verifier that was there.
\<close>

theorem verifier_file_roundtrip:
  assumes "8 \<le> length (vf_Salt v)" and "length (vf_Hash v) = keyLength" and "Verifier_Save v path s = (x, s')"
    and "fs_calls s' = []"
  shows "case x of
      None \<Rightarrow> fst (LoadVerifier path s') = Inr v \<and> map_option fl_mode (fs_files s' path) = Some mode_0600
    | Some e \<Rightarrow> fs_files s' path = fs_files s path"
proof (cases x)
  case None
  obtain d where d: "fs_files s' path = Some \<lparr>fl_data = verifier_text v, fl_mode = mode_0600\<rparr>"
    using replace_file_done [of path "Some mode_0600" _ mode_0600 s s'] assms(3) None
    by (auto simp: Verifier_Save_def writePrivateFile_def verifier_text_def)
  from LoadVerifier_stored [OF assms(1,2,4) this] None d show ?thesis by simp
next
  case (Some e)
  with assms(3) show ?thesis
    using priv.unwritten by (auto simp: Verifier_Save_def)
qed

theorem verifier_file_roundtrip_witness:
  "\<exists>s'. Verifier_Save ex_verifier ''v'' \<lparr>fs_files = Map.empty, fs_calls = []\<rparr> = (None, s') \<and> fst (LoadVerifier ''v'' s') = Inr ex_verifier"
proof -
  let ?s = "\<lparr>fs_files = Map.empty, fs_calls = []\<rparr> :: fs"
  obtain s' where s': "Verifier_Save ex_verifier ''v'' ?s = (None, s')" "fs_calls s' = []"
    by (simp add: Verifier_Save_def writePrivateFile_def replace_file_def os_MkdirAll_def os_WriteFile_def
        os_Chmod_def os_Rename_def next_call_def Let_def temp_of_def)
  have "8 \<le> length (vf_Salt ex_verifier)" "length (vf_Hash ex_verifier) = keyLength"
    by (simp_all add: ex_verifier_def Derive_def ex_kdf_def Let_def DefaultParameters_def defaultMemory_def keyLength_def)
  from verifier_file_roundtrip [OF this s'] s' show ?thesis by simp
qed

text \<open>
  Remark (passphrases). Wherever a passphrase comes from, an empty one is never accepted, and one that
  is read from a file carries no line end.
\<close>

theorem passphrase_never_empty:
  assumes "prompted = PromptPassphrase tty first second confirm"
    and "ResolvePassphrase env read prompted source = Inr p"
  shows "p \<noteq> [] \<and> (HasPrefix source ''file:'' \<longrightarrow> last p \<notin> {CHR 0x0D, CHR 0x0A})"
proof -
  have pr: "prompted = Inr q \<Longrightarrow> q \<noteq> []" for q
    using assms(1) by (auto simp: PromptPassphrase_def string_of_def split: if_splits sum.splits)
  have np: "\<not> HasPrefix ''prompt'' ''file:''" "HasPrefix source ''env:'' \<Longrightarrow> \<not> HasPrefix source ''file:''"
    by (simp add: HasPrefix_def) (cases source, auto simp: HasPrefix_def)
  have tr: "TrimRight s cs \<noteq> [] \<Longrightarrow> last (TrimRight s cs) \<notin> set cs" for s cs
    using hd_dropWhile [of "\<lambda>c. c \<in> set cs" "rev s"] by (simp add: TrimRight_def trim_right_def last_rev)
  show ?thesis
    using assms(2) pr np tr [of _ "[CHR 0x0D, CHR 0x0A]"]
    by (auto simp: ResolvePassphrase_def Let_def split: if_splits option.splits sum.splits)
qed

theorem passphrase_never_empty_witness:
  "\<exists>p. ResolvePassphrase (\<lambda>_. None) (\<lambda>_. Inr (bytes_of [CHR ''x'', CHR 0x0A])) (Inl EOF) ''file:/p'' = Inr p \<and> p \<noteq> []"
proof -
  have r: "ResolvePassphrase (\<lambda>_. None) (\<lambda>_. Inr (bytes_of [CHR ''x'', CHR 0x0A])) (PromptPassphrase True (Inl EOF) (Inl EOF) False)
      ''file:/p'' = Inr ''x''"
    by (simp add: ResolvePassphrase_def HasPrefix_def TrimPrefix_def TrimRight_def trim_right_def Let_def)
  from passphrase_never_empty [OF refl r] r show ?thesis by (auto simp: PromptPassphrase_def)
qed

end
