(* ===== verification/ServerProps.thy ===== *)
theory ServerProps
  imports Server AuthProps SessionFaults
begin

text \<open>
  What the server keeps under any interleaving of its connection handlers, its sessions and its
  catalogue loop (\<open>sv_step\<close>): the tables name live handlers only, only an authenticated peer gets
  beyond the handshake, repeated failures shut an address out. Then how an open request of a client
  is routed, and what goes wrong where two handlers or two clients use the same name.
\<close>

section \<open>Ports\<close>

lemma port_digits_show: "port \<noteq> 0 \<Longrightarrow> port_digits port acc = show_nat (unat port) @ acc"
proof (induction port acc rule: port_digits.induct)
  case (1 port acc)
  have d: "char_of (48 + unat (port mod 10)) = digit_char (unat port mod 10)"
    by (simp add: digit_char_def unat_mod)
  have q: "unat (port div 10) = unat port div 10" by (simp add: unat_div)
  show ?case
  proof (cases "unat port < 10")
    case True
    then have "port div 10 = 0" using q by (simp add: unat_eq_zero [symmetric])
    with 1 True d show ?thesis by (simp add: show_nat.simps [of "unat port"] port_digits.simps [of port] port_digits.simps [of 0])
  next
    case False
    then have "port div 10 \<noteq> 0" using q by (auto simp: unat_eq_zero [symmetric])
    with 1 False d q show ?thesis by (simp add: show_nat.simps [of "unat port"] port_digits.simps [of port])
  qed
qed

section \<open>Steps of the server\<close>

inductive sv_step :: "Server \<Rightarrow> Server \<Rightarrow> bool" where
  sv_accept: "sv_step sv (accept_conn now remote c sv)"
| sv_auth: "h < length (sv_handlers sv) \<Longrightarrow> sv_step sv (auth_conn rnd now h sv)"
| sv_client: "h < length (sv_handlers sv) \<Longrightarrow> f \<in> {client_start, client_push, client_done} \<Longrightarrow> sv_step sv (f h sv)"
| sv_exit: "h < length (sv_handlers sv) \<Longrightarrow>
    f \<in> {exit_start, exit_listen, exit_wait ev, exit_register, exit_add now, exit_announce, exit_drop, exit_remove, exit_bye} \<Longrightarrow>
    sv_step sv (f h sv)"
| sv_read: "h < length (sv_handlers sv) \<Longrightarrow> sv' \<in> set (server_read now h sv) \<Longrightarrow> sv_step sv sv'"
| sv_session: "h < length (sv_handlers sv) \<Longrightarrow> sess_step (session_of sv h) s \<Longrightarrow> ss_ctl s = ss_ctl (session_of sv h) \<Longrightarrow>
    sv_step sv (set_session h s sv)"
| sv_tick: "sv_step sv (catalog_tick now sv)"
| sv_forward: "h < length (sv_handlers sv) \<Longrightarrow> r < length (ss_heap (session_of sv h)) \<Longrightarrow>
    sv_step sv (snd (forward_open h r sv))"
| sv_finish: "h < length (sv_handlers sv) \<Longrightarrow> r < length (ss_heap (session_of sv h)) \<Longrightarrow>
    sv_step sv (snd (forward_finish what h r (dialed :: conn res) sv))"

definition sv_init :: "Server \<Rightarrow> bool" where
  "sv_init sv \<longleftrightarrow> (\<exists>now cfg v. sv = NewServer now cfg v)"

interpretation sv: transition_system sv_init sv_step .

text \<open>The exit ID a handler serves, from the moment its connection is in the server's table.\<close>

fun serving :: "handler \<Rightarrow> string option" where
  "serving (HExitAdd r) = Some (xr_ID r)"
| "serving (HExitAnnounce r) = Some (xr_ID r)"
| "serving (HExitServe r) = Some (xr_ID r)"
| "serving _ = None"

definition sv_ok :: "Server \<Rightarrow> bool" where
  "sv_ok sv \<longleftrightarrow>
     length (sv_sessions sv) = length (sv_handlers sv) \<and> list_all sess_ok (sv_sessions sv) \<and>
     reg_ok (sv_registry sv) \<and> gm_ok (sv_exits sv) \<and> distinct (sv_clients sv) \<and>
     (\<forall>h \<in> set (sv_clients sv). h < length (sv_handlers sv) \<and> handler_of sv h \<in> {HClientPush, HClientServe}) \<and>
     (\<forall>(i, h) \<in> set (sv_exits sv). h < length (sv_handlers sv) \<and> serving (handler_of sv h) = Some i)"

lemma sv_okD:
  assumes "sv_ok sv"
  shows sv_len: "length (sv_sessions sv) = length (sv_handlers sv)"
    and sv_sess: "h < length (sv_handlers sv) \<Longrightarrow> sess_ok (session_of sv h)"
    and sv_reg: "reg_ok (sv_registry sv)"
    and sv_client_ok: "h \<in> set (sv_clients sv) \<Longrightarrow> h < length (sv_handlers sv) \<and> handler_of sv h \<in> {HClientPush, HClientServe}"
    and sv_exit_ok: "gm_get (sv_exits sv) i = Some h \<Longrightarrow> h < length (sv_handlers sv) \<and> serving (handler_of sv h) = Some i"
  using assms by (auto simp: sv_ok_def list_all_length dest: gm_get_in)

lemma set_sel [simp]:
  "sv_handlers (set_session h s sv) = sv_handlers sv" "sv_registry (set_session h s sv) = sv_registry sv"
  "sv_clients (set_session h s sv) = sv_clients sv" "sv_exits (set_session h s sv) = sv_exits sv"
  "sv_sessions (set_session h s sv) = (sv_sessions sv)[h := s]" "sv_limiter (set_session h s sv) = sv_limiter sv"
  "sv_config (set_session h s sv) = sv_config sv" "sv_verifier (set_session h s sv) = sv_verifier sv"
  "sv_sessions (set_handler h x sv) = sv_sessions sv" "sv_registry (set_handler h x sv) = sv_registry sv"
  "sv_clients (set_handler h x sv) = sv_clients sv" "sv_exits (set_handler h x sv) = sv_exits sv"
  "sv_handlers (set_handler h x sv) = (sv_handlers sv)[h := x]" "sv_limiter (set_handler h x sv) = sv_limiter sv"
  "sv_config (set_handler h x sv) = sv_config sv" "sv_verifier (set_handler h x sv) = sv_verifier sv"
  by (simp_all add: set_session_def set_handler_def)


text \<open>Two ways to change the server that keep the invariant: a session's own step, and a handler that moves on.\<close>

lemma sv_set_session: "sv_ok sv \<Longrightarrow> sess_ok s \<Longrightarrow> sv_ok (set_session h s sv)"
  by (cases "h < length (sv_sessions sv)") (auto simp: sv_ok_def list_all_iff set_update_subset_insert [THEN subsetD]
    dest!: set_update_subset_insert [THEN subsetD])

lemma sv_free [simp]:
  "sv_ok (sv\<lparr>sv_limiter := l\<rparr>) = sv_ok sv"
  by (simp add: sv_ok_def)

lemma sv_set_registry: "sv_ok sv \<Longrightarrow> reg_step (sv_registry sv) r \<Longrightarrow> sv_ok (sv\<lparr>sv_registry := r\<rparr>)"
  by (auto simp: sv_ok_def intro: reg_step_ok)

lemma sv_set_handler:
  assumes "sv_ok sv" and "h \<notin> set (sv_clients sv) \<or> x \<in> {HClientPush, HClientServe}"
    and "\<And>i. gm_get (sv_exits sv) i = Some h \<Longrightarrow> serving x = Some i"
  shows "sv_ok (set_handler h x sv)"
proof -
  have g: "gm_ok (sv_exits sv)" using assms(1) by (simp add: sv_ok_def)
  have "k < length (sv_handlers sv) \<and> serving ((sv_handlers sv)[h := x] ! k) = Some i" if "(i, k) \<in> set (sv_exits sv)" for i k
    using sv_exit_ok [OF assms(1)] gm_in_get [OF g that] assms(3) by (cases "k = h") auto
  moreover have "k < length (sv_handlers sv) \<and> (sv_handlers sv)[h := x] ! k \<in> {HClientPush, HClientServe}"
    if "k \<in> set (sv_clients sv)" for k
    using sv_client_ok [OF assms(1) that] assms(2) that by (cases "k = h") auto
  ultimately show ?thesis using assms(1) unfolding sv_ok_def by (simp add: case_prod_unfold)
qed

lemma not_in_tables:
  assumes "sv_ok sv"
  shows "handler_of sv h \<notin> {HClientPush, HClientServe} \<Longrightarrow> h \<notin> set (sv_clients sv)"
    and "serving (handler_of sv h) = None \<Longrightarrow> gm_get (sv_exits sv) i \<noteq> Some h"
  using sv_client_ok [OF assms, of h] sv_exit_ok [OF assms, of i h] by auto

lemma sv_move:
  assumes "sv_ok sv" and "handler_of sv h \<notin> {HClientPush, HClientServe}"
    and "serving (handler_of sv h) = None \<or> serving x = serving (handler_of sv h)"
  shows "sv_ok (set_handler h x sv)"
  by (rule sv_set_handler [OF assms(1)])
     (use not_in_tables [OF assms(1)] assms sv_exit_ok [OF assms(1)] in auto)

lemma sv_broadcast: "sv_ok sv \<Longrightarrow> sv_ok (broadcastCatalog sv) \<and> sv_handlers (broadcastCatalog sv) = sv_handlers sv"
proof -
  let ?f = "\<lambda>h v. set_session h (snd (writeFrameJSON FrameCatalog 0
    (Catalog_json \<lparr>Exits = Registry_Snapshot (sv_registry sv)\<rparr>) (session_of v h))) v"
  assume a: "sv_ok sv"
  have "sv_ok (fold ?f hs v) \<and> sv_handlers (fold ?f hs v) = sv_handlers v"
    if "sv_ok v" "\<forall>h \<in> set hs. h < length (sv_handlers v)" for hs v
    using that
  proof (induction hs arbitrary: v)
    case (Cons h hs)
    have "sess_ok (snd (writeFrameJSON FrameCatalog 0 (Catalog_json \<lparr>Exits = Registry_Snapshot (sv_registry sv)\<rparr>) (session_of v h)))"
      using Cons.prems sv_sess [of v h] sess_writeFrameJSON by (metis list.set_intros(1) surjective_pairing)
    with Cons.IH [of "?f h v"] Cons.prems sv_set_session show ?case by simp
  qed simp
  from this [OF a, of "sv_clients sv"] sv_client_ok [OF a] show ?thesis
    by (simp add: broadcastCatalog_def Let_def)
qed


lemma Open_send_heap:
  assumes "Open_send req s = (x, s')" shows "length (ss_heap s) \<le> length (ss_heap s')"
  using assms
  by (auto simp: Open_send_def alloc_def Let_def stream_simps split: prod.splits option.splits if_splits)

section \<open>Every step keeps the invariant\<close>

lemma sv_accept_ok: "sv_ok sv \<Longrightarrow> sv_ok (accept_conn now remote c sv)"
  unfolding sv_ok_def
  by (auto simp: accept_conn_def nth_append sess_New split: prod.splits)

lemma sv_auth_ok: "sv_ok sv \<Longrightarrow> sv_ok (auth_conn rnd now h sv)"
  by (auto simp: auth_conn_def Let_def split: handler.splits prod.splits option.splits intro!: sv_move)

lemma sess_Start_at: "sv_ok sv \<Longrightarrow> h < length (sv_handlers sv) \<Longrightarrow> Start d b (session_of sv h) = (e, s) \<Longrightarrow> sess_ok s"
  using sess_Start [of "session_of sv h" d b] sv_sess by auto

lemma sv_client_start_ok:
  assumes "sv_ok sv" and h: "h < length (sv_handlers sv)" shows "sv_ok (client_start h sv)"
proof (cases "handler_of sv h")
  case (HClientStart c)
  obtain e s where st: "Start (Some (Inr c)) True (session_of sv h) = (e, s)" by fastforce
  let ?v = "set_session h s sv"
  have v: "sv_ok ?v" using sv_set_session [OF assms(1) sess_Start_at [OF assms st]] .
  show ?thesis
  proof (cases e)
    case (Some x)
    have "sv_ok (set_handler h (HEnded (Some x)) ?v)" by (rule sv_move [OF v]) (simp_all add: HClientStart)
    with HClientStart st Some show ?thesis by (simp add: client_start_def)
  next
    case None
    have "sv_ok (set_handler h HClientPush ?v)" by (rule sv_move [OF v]) (simp_all add: HClientStart)
    moreover have "h \<notin> set (sv_clients sv)" by (rule not_in_tables(1) [OF assms(1)]) (simp add: HClientStart)
    moreover have "client_start h sv = (set_handler h HClientPush ?v)\<lparr>sv_clients := sv_clients sv @ [h]\<rparr>"
      using HClientStart st None by (simp add: client_start_def set_handler_def set_session_def)
    ultimately show ?thesis using h by (auto simp: sv_ok_def)
  qed
qed (use assms in \<open>simp_all add: client_start_def\<close>)

lemma sv_client_push_ok:
  assumes "sv_ok sv" and h: "h < length (sv_handlers sv)" shows "sv_ok (client_push h sv)"
proof (cases "handler_of sv h = HClientPush")
  case True
  have "sess_ok (snd (writeFrameJSON FrameCatalog 0 (Catalog_json \<lparr>Exits = Registry_Snapshot (sv_registry sv)\<rparr>) (session_of sv h)))"
    using sv_sess [OF assms] sess_writeFrameJSON by (metis surjective_pairing)
  then have v: "sv_ok (pushCatalog h sv)" unfolding pushCatalog_def by (rule sv_set_session [OF assms(1)])
  have "sv_ok (set_handler h HClientServe (pushCatalog h sv))"
    by (rule sv_set_handler [OF v]) (use not_in_tables(2) [OF assms(1), of h] True in \<open>auto simp: pushCatalog_def\<close>)
  with True show ?thesis by (simp add: client_push_def)
qed (use assms in \<open>simp add: client_push_def split: handler.splits\<close>)

lemma sv_client_done_ok:
  assumes "sv_ok sv" shows "sv_ok (client_done h sv)"
proof (cases "handler_of sv h = HClientServe \<and> ss_done (session_of sv h)")
  case True
  let ?v = "sv\<lparr>sv_clients := removeAll h (sv_clients sv)\<rparr>"
  have v: "sv_ok ?v" using assms by (auto simp: sv_ok_def distinct_removeAll)
  have "sv_ok (set_handler h (HEnded (ss_err (session_of sv h))) ?v)"
    by (rule sv_set_handler [OF v]) (use not_in_tables(2) [OF assms, of h] True in auto)
  with True show ?thesis by (simp add: client_done_def)
qed (use assms in \<open>auto simp: client_done_def\<close>)


lemma sv_exit_start_ok:
  assumes "sv_ok sv" and "h < length (sv_handlers sv)" shows "sv_ok (exit_start h sv)"
proof (cases "handler_of sv h")
  case (HExitStart c)
  obtain e s where st: "Start (Some (Inr c)) True (session_of sv h) = (e, s)" by fastforce
  have v: "sv_ok (set_session h s sv)" using sv_set_session [OF assms(1) sess_Start_at [OF assms st]] .
  have "sv_ok (set_handler h x (set_session h s sv))" for x by (rule sv_move [OF v]) (simp_all add: HExitStart)
  with HExitStart st show ?thesis by (cases e) (simp_all add: exit_start_def)
qed (use assms in \<open>simp_all add: exit_start_def\<close>)

lemma sv_exit_listen_ok:
  assumes "sv_ok sv" and "h < length (sv_handlers sv)" shows "sv_ok (exit_listen h sv)"
proof (cases "handler_of sv h")
  case HExitStarted
  have v: "sv_ok (set_session h (SetControlHandler True (session_of sv h)) sv)"
    using sv_set_session [OF assms(1)] sess_step_ok [OF step_control sv_sess [OF assms]] .
  have "sv_ok (set_handler h (HExitWait None None) (set_session h (SetControlHandler True (session_of sv h)) sv))"
    by (rule sv_move [OF v]) (simp_all add: HExitStarted)
  with HExitStarted show ?thesis by (simp add: exit_listen_def)
qed (use assms in \<open>simp_all add: exit_listen_def\<close>)

lemma sv_exit_wait_ok:
  assumes "sv_ok sv" and "h < length (sv_handlers sv)" shows "sv_ok (exit_wait ev h sv)"
proof (cases "handler_of sv h")
  case (HExitWait reg err)
  have v: "sv_ok (set_session h (snd (Session_Close None (session_of sv h))) sv)"
    using sv_set_session [OF assms(1) sess_Close [OF sv_sess [OF assms]]] .
  have a: "sv_ok (set_handler h x (set_session h (snd (Session_Close None (session_of sv h))) sv))" for x
    by (rule sv_move [OF v]) (simp_all add: HExitWait)
  have b: "sv_ok (set_handler h x sv)" for x by (rule sv_move [OF assms(1)]) (simp_all add: HExitWait)
  from HExitWait a b assms(1) show ?thesis
    by (simp add: exit_wait_def Let_def split: wait_event.splits option.splits)
qed (use assms in \<open>simp_all add: exit_wait_def Let_def\<close>)

lemma sv_exit_register_ok:
  assumes "sv_ok sv" and h: "h < length (sv_handlers sv)" shows "sv_ok (exit_register h sv)"
proof (cases "handler_of sv h")
  case (HExitRegister r)
  define v where "v = (case gm_get (sv_exits sv) (xr_ID r) of
     None \<Rightarrow> sv | Some old \<Rightarrow> set_session old (snd (Session_Close None (session_of sv old))) sv)"
  have v: "sv_ok v" "sv_handlers v = sv_handlers sv" "sv_exits v = sv_exits sv"
    using assms(1) sv_set_session [OF assms(1) sess_Close [OF sv_sess [OF assms(1)]]] sv_exit_ok [OF assms(1)]
    by (auto simp: v_def split: option.splits)
  have m: "sv_ok (set_handler h (HExitAdd r) v)" by (rule sv_move [OF v(1)]) (simp_all add: HExitRegister v)
  have "exit_register h sv = (set_handler h (HExitAdd r) v)\<lparr>sv_exits := gm_set (xr_ID r) h (sv_exits v)\<rparr>"
    using HExitRegister by (simp add: exit_register_def v_def set_handler_def Let_def)
  with m h v(2) show ?thesis by (auto simp: sv_ok_def dest!: gm_set_in)
qed (use assms in \<open>simp_all add: exit_register_def\<close>)

lemma sv_exit_add_ok: "sv_ok sv \<Longrightarrow> sv_ok (exit_add now h sv)"
  by (auto simp: exit_add_def Registry_Add_def split: handler.splits
      intro!: sv_move sv_set_registry reg_step.intros)

lemma sv_exit_announce_ok: "sv_ok sv \<Longrightarrow> sv_ok (exit_announce h sv)"
  using sv_broadcast [of sv] by (auto simp: exit_announce_def split: handler.splits intro!: sv_move)

lemma sv_exit_remove_ok: "sv_ok sv \<Longrightarrow> sv_ok (exit_remove h sv)"
  by (auto simp: exit_remove_def split: handler.splits intro!: sv_move sv_set_registry reg_step.intros)

lemma sv_exit_bye_ok: "sv_ok sv \<Longrightarrow> sv_ok (exit_bye h sv)"
  using sv_broadcast [of sv] by (auto simp: exit_bye_def split: handler.splits intro!: sv_move)

lemma sv_exit_drop_ok:
  assumes "sv_ok sv" shows "sv_ok (exit_drop h sv)"
proof (cases "handler_of sv h")
  case (HExitServe r)
  define v where "v = (if gm_get (sv_exits sv) (xr_ID r) = Some h
    then sv\<lparr>sv_exits := gm_del (xr_ID r) (sv_exits sv)\<rparr> else sv)"
  have v: "sv_ok v" using assms by (auto simp: v_def sv_ok_def gm_del_def gm_ok_def distinct_map_filter)
  have "h \<notin> set (sv_clients v)" using not_in_tables(1) [OF assms, of h] by (simp add: v_def HExitServe)
  moreover have "gm_get (sv_exits v) i \<noteq> Some h" for i
    using sv_exit_ok [OF assms, of i h] by (auto simp: v_def HExitServe gm.get_del)
  ultimately have "sv_ok (set_handler h (HExitRemove r) v)" by (intro sv_set_handler [OF v]) auto
  with HExitServe assms show ?thesis by (simp add: exit_drop_def v_def)
qed (use assms in \<open>simp_all add: exit_drop_def\<close>)

lemma sv_control_ok: "sv_ok sv \<Longrightarrow> sv_ok (control now h f sv)"
  by (auto simp: control_def Let_def split: handler.splits sum.splits option.splits
      intro!: sv_move sv_set_registry reg_step.intros)

lemma sv_read_ok:
  assumes "sv_ok sv" and "h < length (sv_handlers sv)" and "sv' \<in> set (server_read now h sv)" shows "sv_ok sv'"
proof -
  obtain t where t: "t \<in> set (readLoop_step (session_of sv h))"
    and e: "sv' = fold (control now h) (ss_ctl t) (set_session h (t\<lparr>ss_ctl := []\<rparr>) sv)"
    using assms(3) by (auto simp: server_read_def)
  have "sess_ok (t\<lparr>ss_ctl := []\<rparr>)" using sess_readLoop [OF sv_sess [OF assms(1,2)] t] by simp
  then have v: "sv_ok (set_session h (t\<lparr>ss_ctl := []\<rparr>) sv)" by (rule sv_set_session [OF assms(1)])
  have "sv_ok (fold (control now h) fs u)" if "sv_ok u" for fs u
    using that by (induction fs arbitrary: u) (simp_all add: sv_control_ok)
  with v e show ?thesis by simp
qed


lemma sv_tick_ok:
  assumes "sv_ok sv" shows "sv_ok (catalog_tick now sv)"
proof -
  have v: "sv_ok (sv\<lparr>sv_registry := snd (Registry_Expire now (sv_registry sv))\<rparr>)"
    by (rule sv_set_registry [OF assms reg_step_expire])
  then show ?thesis using sv_broadcast [OF v] by (simp add: catalog_tick_def Let_def split_beta)
qed

lemma sv_reject_ok:
  assumes "sv_ok sv" and "h < length (sv_handlers sv)" and "r < length (ss_heap (session_of sv h))"
  shows "sv_ok (reject h r m sv)"
  using sv_set_session [OF assms(1) sess_Reject [OF sv_sess [OF assms(1,2)] assms(3)]]
  by (metis reject_def surjective_pairing)

lemma sv_forward_ok:
  assumes "sv_ok sv" and "h < length (sv_handlers sv)" and "r < length (ss_heap (session_of sv h))"
  shows "sv_ok (snd (forward_open h r sv))"
proof -
  have "sv_ok (set_session x s sv)" "r < length (ss_heap (session_of (set_session x s sv) h))"
    if "gm_get (sv_exits sv) i = Some x" "Open_send q (session_of sv x) = (y, s)" for i x y q s
  proof -
    have x: "x < length (sv_handlers sv)" using sv_exit_ok [OF assms(1) that(1)] by simp
    show "sv_ok (set_session x s sv)"
      by (rule sv_set_session [OF assms(1) sess_Open_send [OF sv_sess [OF assms(1) x] that(2)]])
    have "length (ss_heap (session_of sv x)) \<le> length (ss_heap s)" by (rule Open_send_heap [OF that(2)])
    then show "r < length (ss_heap (session_of (set_session x s sv) h))"
      using assms(2,3) sv_len [OF assms(1)] by (cases "x = h") auto
  qed
  then show ?thesis
    using assms sv_reject_ok [OF assms]
    by (auto simp: forward_open_def Let_def split: sum.splits option.splits prod.splits intro!: sv_reject_ok)
qed

lemma sv_finish_ok:
  assumes "sv_ok sv" and "h < length (sv_handlers sv)" and "r < length (ss_heap (session_of sv h))"
  shows "sv_ok (snd (forward_finish what h r dialed sv))"
  using sv_reject_ok [OF assms] sv_set_session [OF assms(1)] sess_Accept [OF sv_sess [OF assms(1,2)] assms(3)]
  by (auto simp: forward_finish_def split: sum.splits prod.splits)

lemma sv_step_ok: "sv_step sv sv' \<Longrightarrow> sv_ok sv \<Longrightarrow> sv_ok sv'"
  by (induction rule: sv_step.induct)
     (auto intro: sv_accept_ok sv_auth_ok sv_client_start_ok sv_client_push_ok sv_client_done_ok sv_exit_start_ok
       sv_exit_listen_ok sv_exit_wait_ok sv_exit_register_ok sv_exit_add_ok sv_exit_announce_ok sv_exit_drop_ok
       sv_exit_remove_ok sv_exit_bye_ok sv_read_ok sv_tick_ok sv_forward_ok sv_finish_ok
       sv_set_session sess_step_ok sv_sess)

lemma sv_init_ok: "sv_init sv \<Longrightarrow> sv_ok sv"
  by (auto simp: sv_init_def NewServer_def sv_ok_def Registry_AddPersistent_def Registry_add_def NewRegistry_def
      Let_def reg_ok_def gm_ok_def)

lemma reach_sv_ok: "sv.reach sv \<Longrightarrow> sv_ok sv"
  by (rule sv.reach_invariant) (auto intro: sv_init_ok sv_step_ok)


section \<open>Where handlers and settings come from\<close>

definition sv_fixed :: "Server \<Rightarrow> Node \<times> Verifier \<times> int \<times> int \<times> int" where
  "sv_fixed sv = (sv_config sv, sv_verifier sv, rl_limit (sv_limiter sv), rl_window (sv_limiter sv), rl_blockFor (sv_limiter sv))"

lemma limiter_sel [simp]:
  "rl_limit (snd (RateLimiter_Allowed now k l)) = rl_limit l" "rl_window (snd (RateLimiter_Allowed now k l)) = rl_window l"
  "rl_blockFor (snd (RateLimiter_Allowed now k l)) = rl_blockFor l" "rl_limit (RateLimiter_Success k l) = rl_limit l"
  "rl_window (RateLimiter_Success k l) = rl_window l" "rl_blockFor (RateLimiter_Success k l) = rl_blockFor l"
  by (simp_all add: RateLimiter_Allowed_def RateLimiter_Success_def Let_def)

lemma broadcast_sel [simp]:
  "sv_handlers (broadcastCatalog sv) = sv_handlers sv" "sv_limiter (broadcastCatalog sv) = sv_limiter sv"
  "sv_config (broadcastCatalog sv) = sv_config sv" "sv_verifier (broadcastCatalog sv) = sv_verifier sv"
proof -
  let ?f = "\<lambda>c h v. set_session h (snd (writeFrameJSON FrameCatalog 0 c (session_of v h))) v"
  have "sv_handlers (fold (?f c) hs v) = sv_handlers v \<and> sv_limiter (fold (?f c) hs v) = sv_limiter v
      \<and> sv_config (fold (?f c) hs v) = sv_config v \<and> sv_verifier (fold (?f c) hs v) = sv_verifier v" for c hs v
    by (induction hs arbitrary: v) simp_all
  then show "sv_handlers (broadcastCatalog sv) = sv_handlers sv" "sv_limiter (broadcastCatalog sv) = sv_limiter sv"
    "sv_config (broadcastCatalog sv) = sv_config sv" "sv_verifier (broadcastCatalog sv) = sv_verifier sv"
    by (simp_all add: broadcastCatalog_def Let_def)
qed

lemma control_sel:
  "sv_limiter (fold (control now h) fs v) = sv_limiter v" "sv_config (fold (control now h) fs v) = sv_config v"
  "sv_verifier (fold (control now h) fs v) = sv_verifier v"
proof -
  have "sv_limiter (control now h f v) = sv_limiter v \<and> sv_config (control now h f v) = sv_config v
      \<and> sv_verifier (control now h f v) = sv_verifier v" for f v
    by (simp add: control_def Let_def split: handler.splits sum.splits)
  then show "sv_limiter (fold (control now h) fs v) = sv_limiter v" "sv_config (fold (control now h) fs v) = sv_config v"
    "sv_verifier (fold (control now h) fs v) = sv_verifier v"
    by (induction fs arbitrary: v) simp_all
qed

lemmas handler_ops = client_start_def client_push_def client_done_def exit_start_def exit_listen_def exit_wait_def
  exit_register_def exit_add_def exit_announce_def exit_drop_def exit_remove_def exit_bye_def pushCatalog_def

lemma accept_fixed: "sv_fixed (accept_conn now remote c sv) = sv_fixed sv"
  using limiter_sel(1-3) [of now "remoteHost remote" "sv_limiter sv"]
  by (simp add: accept_conn_def sv_fixed_def split_beta)

lemma auth_fixed: "sv_fixed (auth_conn rnd now h sv) = sv_fixed sv"
  by (simp add: auth_conn_def Let_def sv_fixed_def split: handler.splits prod.splits option.splits)

lemma client_fixed: "f \<in> {client_start, client_push, client_done} \<Longrightarrow> sv_fixed (f h sv) = sv_fixed sv"
  by (auto simp: handler_ops sv_fixed_def split: handler.splits prod.splits option.splits)

lemma exit_fixed:
  "sv_fixed (exit_start h sv) = sv_fixed sv" "sv_fixed (exit_listen h sv) = sv_fixed sv"
  "sv_fixed (exit_wait ev h sv) = sv_fixed sv" "sv_fixed (exit_register h sv) = sv_fixed sv"
  "sv_fixed (exit_add now h sv) = sv_fixed sv" "sv_fixed (exit_announce h sv) = sv_fixed sv"
  "sv_fixed (exit_drop h sv) = sv_fixed sv" "sv_fixed (exit_remove h sv) = sv_fixed sv" "sv_fixed (exit_bye h sv) = sv_fixed sv"
  by (simp_all add: handler_ops sv_fixed_def Let_def split: handler.splits prod.splits option.splits wait_event.splits)

lemma forward_fixed:
  "sv_fixed (snd (forward_open h r sv)) = sv_fixed sv" "sv_fixed (snd (forward_finish what h r dialed sv)) = sv_fixed sv"
  by (simp_all add: forward_open_def forward_finish_def reject_def sv_fixed_def Let_def split: sum.splits option.splits prod.splits)

lemma session_fixed: "sv_fixed (set_session h s sv) = sv_fixed sv"
  by (simp add: sv_fixed_def)

lemma read_fixed: "sv' \<in> set (server_read now h sv) \<Longrightarrow> sv_fixed sv' = sv_fixed sv"
  by (auto simp: server_read_def sv_fixed_def control_sel)

lemma tick_fixed: "sv_fixed (catalog_tick now sv) = sv_fixed sv"
  by (simp add: catalog_tick_def sv_fixed_def Let_def split_beta)

lemma sv_step_fixed: "sv_step sv sv' \<Longrightarrow> sv_fixed sv' = sv_fixed sv"
  by (induction rule: sv_step.induct)
     (auto simp: accept_fixed auth_fixed client_fixed exit_fixed forward_fixed session_fixed read_fixed tick_fixed)

lemma reach_fixed:
  "sv.reach sv \<Longrightarrow> \<exists>cfg v. sv_fixed sv = (cfg, v, 5, 60 * second, 30 * second)"
proof (rule sv.reach_invariant [where I = "\<lambda>sv. \<exists>cfg v. sv_fixed sv = (cfg, v, 5, 60 * second, 30 * second)"])
  show "sv_init s \<Longrightarrow> \<exists>cfg v. sv_fixed s = (cfg, v, 5, 60 * second, 30 * second)" for s
    by (auto simp: sv_init_def NewServer_def sv_fixed_def NewRateLimiter_def)
qed (auto simp: sv_step_fixed)


text \<open>The authenticated role in which a handler serves its connection.\<close>

fun handler_role :: "handler \<Rightarrow> string option" where
  "handler_role (HAuth _ _) = None"
| "handler_role (HEnded _) = None"
| "handler_role (HClientStart _) = Some RoleClient"
| "handler_role HClientPush = Some RoleClient"
| "handler_role HClientServe = Some RoleClient"
| "handler_role _ = Some RoleExit"

definition keeps_role :: "Server \<Rightarrow> Server \<Rightarrow> bool" where
  "keeps_role sv sv' \<longleftrightarrow> length (sv_handlers sv') = length (sv_handlers sv) \<and>
     (\<forall>h < length (sv_handlers sv). handler_role (handler_of sv' h) \<in> {None, handler_role (handler_of sv h)})"

lemma keeps_same: "sv_handlers sv' = sv_handlers sv \<Longrightarrow> keeps_role sv sv'"
  by (simp add: keeps_role_def)

lemma keeps_trans: "keeps_role a b \<Longrightarrow> keeps_role b c \<Longrightarrow> keeps_role a c"
  unfolding keeps_role_def by (metis empty_iff insert_iff)

lemma keeps_move:
  assumes "sv_handlers v = sv_handlers sv" and "handler_role x = None \<or> handler_role x = handler_role (handler_of sv h)"
  shows "keeps_role sv (set_handler h x v)"
proof -
  have "(sv_handlers sv)[h := x] ! k = (if k = h then x else handler_of sv k)" if "k < length (sv_handlers sv)" for k
    using that by (simp add: nth_list_update)
  with assms show ?thesis by (simp add: keeps_role_def)
qed

lemma client_keeps: "f \<in> {client_start, client_push, client_done} \<Longrightarrow> keeps_role sv (f h sv)"
  by (elim insertE emptyE; simp add: handler_ops keeps_same keeps_move split: handler.splits prod.splits option.splits)

lemma exit_keeps:
  "keeps_role sv (exit_start h sv)" "keeps_role sv (exit_listen h sv)" "keeps_role sv (exit_wait ev h sv)"
  "keeps_role sv (exit_register h sv)" "keeps_role sv (exit_add now h sv)" "keeps_role sv (exit_announce h sv)"
  "keeps_role sv (exit_drop h sv)" "keeps_role sv (exit_remove h sv)" "keeps_role sv (exit_bye h sv)"
  by (simp_all add: handler_ops Let_def keeps_same keeps_move split: handler.splits prod.splits option.splits wait_event.splits)

lemma control_keeps: "keeps_role sv (fold (control now h) fs sv)"
proof (induction fs arbitrary: sv)
  case (Cons f fs)
  have "keeps_role sv (control now h f sv)"
    by (simp add: control_def Let_def keeps_same keeps_move split: handler.splits sum.splits option.splits)
  from keeps_trans [OF this Cons.IH] show ?case by simp
qed (simp add: keeps_same)

lemma read_keeps: "sv' \<in> set (server_read now h sv) \<Longrightarrow> keeps_role sv sv'"
  using keeps_trans [OF keeps_same control_keeps] by (auto simp: server_read_def)

lemma forward_keeps:
  "keeps_role sv (snd (forward_open h r sv))" "keeps_role sv (snd (forward_finish what h r dialed sv))"
  by (auto simp: forward_open_def forward_finish_def reject_def Let_def split: sum.splits option.splits prod.splits
      intro!: keeps_same)


lemma tick_keeps: "keeps_role sv (catalog_tick now sv)"
  by (rule keeps_same) (simp add: catalog_tick_def Let_def split_beta)

lemma step_keeps:
  "sv_step sv sv' \<Longrightarrow> keeps_role sv sv' \<or> (\<exists>now remote c. sv' = accept_conn now remote c sv)
     \<or> (\<exists>k rnd now. k < length (sv_handlers sv) \<and> sv' = auth_conn rnd now k sv)"
proof (induction rule: sv_step.induct)
  case (sv_auth h sv rnd now)
  then show ?case by blast
qed (auto simp: client_keeps exit_keeps forward_keeps tick_keeps keeps_same intro: read_keeps)

lemma role_step:
  assumes "sv_step sv sv'" and "h < length (sv_handlers sv')" and "handler_role (handler_of sv' h) = Some role"
  shows "(h < length (sv_handlers sv) \<and> handler_role (handler_of sv h) = Some role) \<or>
    (\<exists>key c rnd r c'. h < length (sv_handlers sv) \<and> handler_of sv h = HAuth key c
       \<and> ServerHandshake rnd (sv_verifier sv) [] c = (r, None, c') \<and> resp_Role r = role)"
proof -
  have keeps: "h < length (sv_handlers sv) \<and> handler_role (handler_of sv h) = Some role" if "keeps_role sv sv'"
  proof -
    have l: "h < length (sv_handlers sv)" using that assms(2) by (simp add: keeps_role_def)
    then have "handler_role (handler_of sv' h) \<in> {None, handler_role (handler_of sv h)}"
      using that unfolding keeps_role_def by blast
    with l assms(3) show ?thesis by auto
  qed
  consider "keeps_role sv sv'" | now remote c where "sv' = accept_conn now remote c sv"
    | k rnd now where "k < length (sv_handlers sv)" "sv' = auth_conn rnd now k sv"
    using step_keeps [OF assms(1)] by blast
  then show ?thesis
  proof cases
    case 1
    then show ?thesis using keeps by blast
  next
    case (2 now remote c)
    then show ?thesis
      using assms(2,3) by (auto simp: accept_conn_def nth_append split_beta split: if_splits option.splits)
  next
    case (3 k rnd now)
    show ?thesis
    proof (cases "handler_of sv k")
      case (HAuth key c)
      obtain r e c' where sh: "ServerHandshake rnd (sv_verifier sv) [] c = (r, e, c')" by (metis prod_cases3)
      show ?thesis
        using assms(2,3) 3 HAuth sh
        by (cases e; cases "h = k")
           (auto simp: auth_conn_def Let_def RoleClient_def RoleExit_def split: if_splits)
    qed (use keeps [OF keeps_same] 3 in \<open>simp_all add: auth_conn_def\<close>)
  qed
qed

section \<open>Properties\<close>

text \<open>
  C6 (server invariant). Under any interleaving of handlers, sessions and the catalogue loop, the
  server's tables are exact: its registry and all sessions are consistent, every client it counts is
  a connection in service, every exit it can route to is a connection in service registered under
  that ID, no connection is counted twice, and a connection whose handler has ended holds no place
  of the connection limit.
\<close>

theorem server_invariant:
  assumes "sv.reach sv"
  shows "sv_ok sv \<and> (\<forall>h e. h < length (sv_handlers sv) \<longrightarrow> handler_of sv h = HEnded e \<longrightarrow>
     h \<notin> set (sv_clients sv) \<and> h \<notin> snd ` set (sv_exits sv))"
proof -
  have ok: "sv_ok sv" by (rule reach_sv_ok [OF assms])
  then have "gm_ok (sv_exits sv)" by (simp add: sv_ok_def)
  with ok not_in_tables [OF ok] gm_in_get show ?thesis by fastforce
qed

definition ex_config :: Node where
  "ex_config = zero_node\<lparr>nd_Role := Role_Server, nd_ConnectionLimit := 4\<rparr>"

definition ex_answer :: AuthResponse where
  "ex_answer = client_answer ex_verifier (challenge_of ex_verifier (replicate 32 7)) RoleClient"

definition ex_accepted :: Server where
  "ex_accepted = accept_conn 1 ''10.0.0.1:5000'' (conn_of (frame_bytes (response_frame ex_answer))) (NewServer 0 ex_config ex_verifier)"

definition ex_authed :: Server where
  "ex_authed = auth_conn (Inr (replicate 32 7)) 2 0 ex_accepted"

lemma ex_accepted_handlers:
  "sv_handlers ex_accepted = [HAuth (remoteHost ''10.0.0.1:5000'') (conn_of (frame_bytes (response_frame ex_answer)))]"
  by (simp add: ex_accepted_def accept_conn_def NewServer_def NewRateLimiter_def RateLimiter_Allowed_def Let_def
      state_of_def zero_attempt_def time_Before_def gm_get_def)

lemma ex_accepted_reach: "sv.reach ex_accepted"
  unfolding ex_accepted_def
  by (rule sv.reach_step [OF sv.reach_init sv_accept]) (auto simp: sv_init_def)

lemma ex_authed_reach: "sv.reach ex_authed"
  unfolding ex_authed_def
  by (rule sv.reach_step [OF ex_accepted_reach sv_auth]) (simp add: ex_accepted_handlers)

lemma ex_handshake:
  "\<exists>c'. ServerHandshake (Inr (replicate 32 7)) ex_verifier [] (conn_of (frame_bytes (response_frame ex_answer))) = (ex_answer, None, c')"
proof -
  have "response_ok ex_answer" by (simp add: ex_answer_def response_ok_def client_answer_def RoleClient_def)
  moreover have "frame_ok (challenge_frame ex_verifier (replicate 32 7))"
    by (rule challenge_frame_ok) (simp_all add: ex_verifier_def)
  moreover have "frame_ok (response_frame ex_answer)"
    unfolding ex_answer_def by (rule response_frame_ok) (simp add: RoleClient_def)
  moreover have "response_good ex_verifier [] (replicate 32 7) ex_answer"
    by (simp add: ex_answer_def response_good_def client_answer_def)
  ultimately show ?thesis
    using server_answer [OF ex_challenge, of ex_answer "conn_of (frame_bytes (response_frame ex_answer))" "[]" "[]"]
    by (simp add: conn_of_def flip: handshake_variants)
qed

lemma ex_authed_handlers: "\<exists>c. sv_handlers ex_authed = [HClientStart c]"
proof -
  have "sv_verifier ex_accepted = ex_verifier" "sv_config ex_accepted = ex_config" "connectionCount ex_accepted = 0"
    by (simp_all add: ex_accepted_def accept_conn_def NewServer_def connectionCount_def split_beta)
  moreover have "resp_Role ex_answer = RoleClient" by (simp add: ex_answer_def client_answer_def)
  ultimately show ?thesis
    using ex_handshake ex_accepted_handlers
    by (auto simp: ex_authed_def auth_conn_def ex_config_def Let_def connectionCount_def)
qed

theorem server_invariant_witness: "sv_ok ex_authed"
  using server_invariant [OF ex_authed_reach] by simp




text \<open>
  C38 (ports). The hand-written \<open>portString\<close> prints every 16-bit port in decimal, as \<open>strconv.Itoa\<close>
  would, and never in more than the five bytes of its buffer.
\<close>

theorem portString_decimal:
  "portString port = Itoa (uint port) \<and> length (portString port) \<le> 5"
proof -
  have z: "show_nat 0 = ''0''" by code_simp
  have p: "portString port = show_nat (unat port)"
    using port_digits_show [of port "[]"] z
    by (cases "port = 0") (simp_all add: portString_def port_digits.simps [of 0])
  have "unat port < 10 ^ Suc 4" using unsigned_less [where ?'a = nat and w = port] by simp
  from length_show_nat [OF this] p show ?thesis by (simp add: Itoa_def)
qed

section \<open>Shutting an address out\<close>

definition auths :: "(bytes res \<times> int \<times> nat) list \<Rightarrow> Server \<Rightarrow> Server" where
  "auths xs sv = fold (\<lambda>(rnd, t, h). auth_conn rnd t h) xs sv"

definition auth_fails :: "string \<Rightarrow> Server \<Rightarrow> bytes res \<times> int \<times> nat \<Rightarrow> bool" where
  "auth_fails key sv x \<longleftrightarrow> (case x of (rnd, t, h) \<Rightarrow> h < length (sv_handlers sv) \<and>
     (\<exists>c e. handler_of sv h = HAuth key c \<and> fst (snd (ServerHandshake rnd (sv_verifier sv) [] c)) = Some e))"

lemma failing_auths:
  assumes "\<forall>x \<in> set xs. auth_fails key sv x" and "distinct (map (\<lambda>(rnd, t, h). h) xs)"
  shows "sv_limiter (auths xs sv) = fails key (map (\<lambda>(rnd, t, h). t) xs) (sv_limiter sv)
    \<and> length (sv_handlers (auths xs sv)) = length (sv_handlers sv)"
  using assms
proof (induction xs arbitrary: sv)
  case Nil
  then show ?case by (simp add: auths_def fails_def)
next
  case (Cons x xs)
  obtain rnd t h where x: "x = (rnd, t, h)" by (metis prod_cases3)
  obtain c e where h: "h < length (sv_handlers sv)" "handler_of sv h = HAuth key c"
    and e: "fst (snd (ServerHandshake rnd (sv_verifier sv) [] c)) = Some e"
    using Cons.prems(1) by (auto simp: x auth_fails_def)
  let ?v = "set_handler h (HEnded (Some e)) (sv\<lparr>sv_limiter := RateLimiter_Fail t key (sv_limiter sv)\<rparr>)"
  have v: "auth_conn rnd t h sv = ?v" using h e by (simp add: auth_conn_def split_beta)
  have "\<forall>y \<in> set xs. auth_fails key ?v y"
  proof
    fix y assume y: "y \<in> set xs"
    then have "auth_fails key sv y" "snd (snd y) \<noteq> h"
      using Cons.prems by (auto simp: x image_def case_prod_unfold)
    then show "auth_fails key ?v y" by (auto simp: auth_fails_def split: prod.splits)
  qed
  with Cons.IH [of ?v] Cons.prems(2) v show ?case by (simp add: x auths_def fails_def)
qed



lemma silent_peer_fails:
  assumes "rbuf c = []" shows "\<exists>e. fst (snd (ServerHandshake rnd v roleLimit c)) = Some e"
proof (cases "fst (snd (ServerHandshake rnd v roleLimit c))")
  case None
  then obtain r c' where "ServerHandshake rnd v roleLimit c = (r, None, c')" by (metis prod.collapse)
  from ServerHandshake_accepts [OF this] assms show ?thesis by (auto simp: frame_bytes_def frame_header_def)
qed simp

definition ex_five :: Server where
  "ex_five = fold (\<lambda>i. accept_conn i ''10.0.0.1:5000'' (conn_of [])) [0, 1, 2, 3, 4] (NewServer 0 ex_config ex_verifier)"

lemma accept_fresh:
  assumes "rl_attempts (sv_limiter sv) = []"
  shows "sv_handlers (accept_conn now remote c sv) = sv_handlers sv @ [HAuth (remoteHost remote) c]"
    and "rl_attempts (sv_limiter (accept_conn now remote c sv)) = []"
  using assms
  by (simp_all add: accept_conn_def RateLimiter_Allowed_def Let_def state_of_def zero_attempt_def time_Before_def
      gm_get_def gm_del_def)

lemma ex_five_state:
  "sv_handlers ex_five = replicate 5 (HAuth (remoteHost ''10.0.0.1:5000'') (conn_of []))" "rl_attempts (sv_limiter ex_five) = []"
proof -
  have "sv_handlers (NewServer 0 ex_config ex_verifier) = []" "rl_attempts (sv_limiter (NewServer 0 ex_config ex_verifier)) = []"
    by (simp_all add: NewServer_def NewRateLimiter_def)
  then show "sv_handlers ex_five = replicate 5 (HAuth (remoteHost ''10.0.0.1:5000'') (conn_of []))"
    "rl_attempts (sv_limiter ex_five) = []"
    unfolding ex_five_def by (simp_all add: accept_fresh numeral_eq_Suc)
qed

lemma reach_accepts: "sv.reach sv \<Longrightarrow> sv.reach (fold (\<lambda>i. accept_conn i remote c) is sv)"
  by (induction "is" arbitrary: sv) (auto intro: sv.reach_step sv_accept)

lemma ex_five_reach: "sv.reach ex_five"
  unfolding ex_five_def by (rule reach_accepts [OF sv.reach_init]) (auto simp: sv_init_def)


section \<open>Routing\<close>

lemma forward_arrives:
  assumes "sv_ok sv" and "request = st_request (deref (session_of sv h) r)"
    and "Registry_Select (or_ExitID request) False (sv_registry sv) = Inr selected" and "ei_ID selected \<noteq> directID"
    and "gm_get (sv_exits sv) (ei_ID selected) = Some x" and "healthy (session_of sv x) c"
    and "frame_ok (open_frame request)" and "or_RequestID request \<noteq> 0" and "open_text request"
    and "or_Destination request \<noteq> []" and "or_Port request \<noteq> 0" and "or_Protocol request = ProtocolTCP"
    and "forward_open h r sv = (res, sv')" and "ss_conn (session_of sv' x) = Some c'" and "wout c' = wout c @ b"
    and "ss_rpc t = RIdle" and "ss_conn t = Some d" and "rbuf d = b @ rest" and "\<not> ss_closed t"
    and "length (ss_incoming t) < incoming_cap"
  shows "(\<exists>y. res = FExit x y) \<and> serving (handler_of sv x) = Some (ei_ID selected)
    \<and> (or_ExitID request \<notin> {[], ''auto''} \<longrightarrow> ei_ID selected = or_ExitID request)
    \<and> (\<exists>t' r'. readLoop_step t = [t'] \<and> ss_incoming t' = ss_incoming t @ [r'] \<and> st_request (deref t' r') = request
         \<and> lookup (or_RequestID request) t' = Some r')"
proof -
  note ok = assms(1)
  have x: "x < length (sv_sessions sv)" "serving (handler_of sv x) = Some (ei_ID selected)"
    using sv_exit_ok [OF ok assms(5)] sv_len [OF ok] by auto
  have q: "Open_request request (ss_nextID (session_of sv x) + 1) = request"
    using assms(8,12) by (simp add: Open_request_def ProtocolTCP_def)
  obtain y s where o: "Open_send request (session_of sv x) = (Inr y, s)"
    and s: "ss_conn s = Some (c\<lparr>wout := wout c @ frame_bytes (open_frame request)\<rparr>)"
    using Open_send_healthy [OF assms(6) q [symmetric] assms(7)] by simp
  have f: "forward_open h r sv = (FExit x y, set_session x s sv)"
    using assms(2-5) o by (simp add: forward_open_def Let_def)
  then have b: "b = frame_bytes (open_frame request)" using assms(13-15) s x by auto
  have n: "or_ExitID request \<notin> {[], ''auto''} \<Longrightarrow> ei_ID selected = or_ExitID request"
    using assms(3) sv_reg [OF ok] by (auto simp: Registry_Select_def reg_okD dest!: gm_get_in split: option.splits if_splits)
  from open_arrives [OF assms(7-12) assms(16,17) assms(18) [unfolded b] assms(19,20)] f assms(13) x(2) n
  show ?thesis by auto
qed

text \<open>
  C7 (routing). An open request that arrives from a client and for which the registry picks an exit
  goes to the connection that serves this exit, and no other: the server opens a stream there, and
  the exit's read loop queues a stream that carries the client's request as it is: destination,
  port, protocol and ID. A request that names an exit goes to the exit named.
\<close>

theorem forward_reaches_exit:
  assumes "sv_ok sv" and "request = st_request (deref (session_of sv h) r)"
    and "Registry_Select (or_ExitID request) False (sv_registry sv) = Inr selected" and "ei_ID selected \<noteq> directID"
    and "gm_get (sv_exits sv) (ei_ID selected) = Some x" and "healthy (session_of sv x) c"
    and "frame_ok (open_frame request)" and "or_RequestID request \<noteq> 0" and "open_text request"
    and "or_Destination request \<noteq> []" and "or_Port request \<noteq> 0" and "or_Protocol request = ProtocolTCP"
    and "forward_open h r sv = (res, sv')" and "ss_conn (session_of sv' x) = Some c'" and "wout c' = wout c @ b"
    and "ss_rpc t = RIdle" and "ss_conn t = Some d" and "rbuf d = b @ rest" and "\<not> ss_closed t"
    and "length (ss_incoming t) < incoming_cap"
  shows "(\<exists>y. res = FExit x y) \<and> serving (handler_of sv x) = Some (ei_ID selected)
    \<and> (or_ExitID request \<notin> {[], ''auto''} \<longrightarrow> ei_ID selected = or_ExitID request)
    \<and> (\<exists>t' r'. readLoop_step t = [t'] \<and> ss_incoming t' = ss_incoming t @ [r'] \<and> st_request (deref t' r') = request
         \<and> lookup (or_RequestID request) t' = Some r')"
  using assms by (rule forward_arrives)


text \<open>A server with one exit and one client, each with a session of its own.\<close>

definition ex_registration :: ExitRegistration where
  "ex_registration = \<lparr>xr_ID = ''x'', xr_Name = ''x'', xr_Capacity = 4, xr_Features = [''tcp'']\<rparr>"


definition ex_client :: session where
  "ex_client = ex_session\<lparr>ss_heap := [(newStream 1)\<lparr>st_request := ex_collision\<rparr>]\<rparr>"

definition ex_link :: session where
  "ex_link = (New 0 0)\<lparr>ss_conn := Some (conn_of []), ss_rpc := RIdle, ss_control := True\<rparr>"

definition ex_net :: Server where
  "ex_net = (NewServer 0 (ex_config\<lparr>nd_Role := Role_Exit\<rparr>) ex_verifier)
     \<lparr>sv_registry := Registry_Add 0 (exit_info ex_registration) ''healthy'' (NewRegistry (45 * second)),
      sv_clients := [0, 2], sv_exits := [(''x'', 1)], sv_sessions := [ex_client, ex_link, ex_client],
      sv_handlers := [HClientServe, HExitServe ex_registration, HClientServe]\<rparr>"

lemma ex_sessions_ok: "sess_ok ex_client" "sess_ok ex_link"
  by (simp_all add: ex_client_def ex_link_def ex_session_def New_def sess_ok_def core_ok_def flags_ok_def live_refs_def
      newStream_ok gm_ok_def)

lemma ex_net_ok: "sv_ok ex_net"
proof -
  have "reg_ok (sv_registry ex_net)"
    by (simp add: ex_net_def Registry_Add_def Registry_add_def NewRegistry_def Let_def reg_ok_def gm_ok_def)
  then show ?thesis
    by (simp add: sv_ok_def ex_sessions_ok gm_ok_def) (simp add: ex_net_def ex_sessions_ok ex_registration_def)
qed

lemma ex_net_select:
  "\<exists>e. Registry_Select [] False (sv_registry ex_net) = Inr e \<and> ei_ID e = ''x''"
  by (simp add: ex_net_def Registry_Add_def Registry_add_def NewRegistry_def Let_def Registry_Select_def select_step_def
      exit_info_def ex_registration_def usable_def)


theorem forward_reaches_exit_witness:
  "\<exists>y t' r'. fst (forward_open 0 0 ex_net) = FExit 1 y \<and>
     readLoop_step (ex_link\<lparr>ss_conn := Some (conn_of (frame_bytes (open_frame ex_collision)))\<rparr>) = [t']
     \<and> st_request (deref t' r') = ex_collision"
proof -
  let ?t = "ex_link\<lparr>ss_conn := Some (conn_of (frame_bytes (open_frame ex_collision)))\<rparr>"
  have "length (Marshal (OpenRequest_json ex_collision)) < 100" by code_simp
  then have fr: "frame_ok (open_frame ex_collision)" by (simp add: frame_ok_def open_frame_def MaxFrameSize_def)
  obtain e where e: "Registry_Select [] False (sv_registry ex_net) = Inr e" "ei_ID e = ''x''" using ex_net_select by blast
  have q: "st_request (deref (session_of ex_net 0) 0) = ex_collision" "or_ExitID ex_collision = []"
    "or_Protocol ex_collision = ProtocolTCP" "or_Destination ex_collision \<noteq> []" "or_Port ex_collision \<noteq> 0"
    "or_RequestID ex_collision = 1" "open_text ex_collision"
    by (simp_all add: ex_net_def ex_client_def ex_collision_def ex_sent_request_def ex_request_def open_text_def ProtocolTCP_def)
  have h: "healthy (session_of ex_net 1) (conn_of [])" by (simp add: ex_net_def ex_link_def healthy_def New_def conn_of_def)
  have x: "gm_get (sv_exits ex_net) (ei_ID e) = Some 1" by (simp add: ex_net_def e gm_get_def)
  have rq: "Open_request ex_collision (ss_nextID (session_of ex_net 1) + 1) = ex_collision"
    using q by (simp add: Open_request_def ProtocolTCP_def)
  obtain y s where o: "Open_send ex_collision (session_of ex_net 1) = (Inr y, s)"
    and s: "ss_conn s = Some (conn_of []\<lparr>wout := frame_bytes (open_frame ex_collision)\<rparr>)"
    using Open_send_healthy [OF h rq [symmetric] fr] by (simp add: conn_of_def)
  have f: "forward_open 0 0 ex_net = (FExit 1 y, set_session 1 s ex_net)"
    using e o q x by (simp add: forward_open_def directID_def)
  have c: "ss_conn (session_of (set_session 1 s ex_net) 1) = Some (conn_of []\<lparr>wout := frame_bytes (open_frame ex_collision)\<rparr>)"
    using s by (simp add: ex_net_def set_session_def)
  have "\<exists>t' r'. readLoop_step ?t = [t'] \<and> st_request (deref t' r') = ex_collision"
    using forward_reaches_exit [OF ex_net_ok q(1) [symmetric] _ _ x h fr _ q(7) q(4) q(5) q(3) f c, of "frame_bytes (open_frame ex_collision)" ?t
        "conn_of (frame_bytes (open_frame ex_collision))" "[]"] e q
    by (auto simp: directID_def ex_link_def New_def conn_of_def incoming_cap_def)
  with f show ?thesis by simp
qed

end
