(* ===== verification/ServerFaults.thy ===== *)
theory ServerFaults
  imports ServerProps
begin

text \<open>
  What goes wrong in the server when two connections use the same name: two clients whose streams
  have the same number, two connections of one exit, an exit that calls itself \<open>direct\<close>, a
  registration that arrives before the handler waits for it.
\<close>

section \<open>Successful opens\<close>

lemma Open_send_success:
  assumes "Open_send req s = (Inr r, s')" and "or_RequestID req = i" and "i \<noteq> 0"
  shows "r = length (ss_heap s)" and "ss_streams s' = gm_set i r (ss_streams s)" and "length (ss_heap s') = Suc r"
  using assms
  by (auto simp: Open_send_def alloc_def Let_def Open_request_def split: option.splits if_splits prod.splits)

lemma forward_exit:
  assumes "forward_open h r sv = (FExit x y, sv')"
  shows "\<exists>s. Open_send (st_request (deref (session_of sv h) r)) (session_of sv x) = (Inr y, s) \<and> sv' = set_session x s sv"
  using assms by (auto simp: forward_open_def Let_def split: sum.splits if_splits option.splits prod.splits)

lemma shutdown_ctl: "ss_ctl (shutdown e s) = ss_ctl s"
proof -
  have "ss_ctl (fold (\<lambda>r. forceClose r e) rs u) = ss_ctl u" for rs u
    by (induction rs arbitrary: u) (simp_all add: forceClose_def unregister_def upd_def Let_def)
  then show ?thesis by (simp add: shutdown_def)
qed

section \<open>Properties\<close>



lemma ex_open_frame: "frame_ok (open_frame ex_collision)"
proof -
  have "length (Marshal (OpenRequest_json ex_collision)) < 100" by code_simp
  then show ?thesis by (simp add: frame_ok_def open_frame_def MaxFrameSize_def)
qed

lemma ex_open_link:
  assumes "healthy s c" obtains s' c' where "Open_send ex_collision s = (Inr (length (ss_heap s)), s')" "healthy s' c'"
proof -
  have q: "Open_request ex_collision (ss_nextID s + 1) = ex_collision"
    by (simp add: Open_request_def ex_collision_def ex_sent_request_def ProtocolTCP_def)
  from assms have "healthy (snd (Open_send ex_collision s)) (c\<lparr>wout := wout c @ frame_bytes (open_frame ex_collision)\<rparr>)"
    by (simp add: Open_send_healthy [OF assms q [symmetric] ex_open_frame] healthy_def)
  then show ?thesis by (rule that [rotated]) (simp add: Open_send_healthy [OF assms q [symmetric] ex_open_frame])
qed

lemma ex_forward:
  assumes "sv_registry sv = sv_registry ex_net" and "sv_exits sv = sv_exits ex_net"
    and "st_request (deref (session_of sv h) r) = ex_collision" and "Open_send ex_collision (session_of sv 1) = (Inr y, s)"
  shows "forward_open h r sv = (FExit 1 y, set_session 1 s sv)"
proof -
  obtain e where "Registry_Select [] False (sv_registry ex_net) = Inr e" "ei_ID e = ''x''" using ex_net_select by blast
  moreover have "or_ExitID ex_collision = []" by (simp add: ex_collision_def ex_sent_request_def ex_request_def)
  moreover have "gm_get (sv_exits ex_net) ''x'' = Some 1" by (simp add: ex_net_def gm_get_def)
  ultimately show ?thesis using assms by (simp add: forward_open_def directID_def)
qed


text \<open>
  Remark (reconnect). When an exit reconnects under its ID, the handler of its old connection, as it
  ends, removes the exit from the registry though the new connection is in service: no client can
  select the exit by name any more, and no heartbeat of the new connection brings it back.
\<close>

theorem reconnect_unregisters_exit:
  assumes "h < length (sv_handlers sv)" and "handler_of sv h = HExitServe old" and "ss_done (session_of sv h)"
    and "xr_ID old = i" and "i \<notin> {[], ''auto''}" and "gm_get (sv_exits sv) i = Some k" and "k \<noteq> h"
    and "handler_of sv k = HExitServe new" and "xr_ID new = i"
    and "sv' = fold (control now k) fs (exit_remove h (exit_drop h sv))"
  shows "gm_get (sv_exits sv') i = Some k \<and> handler_of sv' k = HExitServe new
    \<and> Registry_Get i (sv_registry sv') = None
    \<and> Registry_Select i False (sv_registry sv') = Inl ErrExitUnavailable"
proof -
  let ?u = "exit_remove h (exit_drop h sv)"
  have d: "exit_drop h sv = set_handler h (HExitRemove old) sv"
    using assms(2-4,6,7) by (simp add: exit_drop_def)
  have u: "?u = set_handler h HExitBye ((set_handler h (HExitRemove old) sv)\<lparr>sv_registry := Registry_Remove i (sv_registry sv)\<rparr>)"
    unfolding d using assms(1,4) by (simp add: exit_remove_def)
  have "gm_get (sv_exits v') i = Some k \<and> handler_of v' k = HExitServe new \<and> gm_get (rg_exits (sv_registry v')) i = None"
    if "gm_get (sv_exits v) i = Some k" "handler_of v k = HExitServe new" "gm_get (rg_exits (sv_registry v)) i = None"
      "v' = fold (control now k) fs v" for v v'
    using that
  proof (induction fs arbitrary: v)
    case (Cons f fs)
    have "Registry_Heartbeat now (b\<lparr>hb_ExitID := i\<rparr>) (sv_registry v) = sv_registry v" for b
      using Cons.prems(3) by (simp add: Registry_Heartbeat_def)
    then have "control now k f v = v" using Cons.prems(2) assms(9) by (simp add: control_def Let_def split: sum.splits)
    with Cons show ?case by simp
  qed simp
  from this [OF _ _ _ assms(10)] u assms(5-8) show ?thesis
    by (simp add: Registry_Remove_def Registry_Get_def Registry_Select_def)
qed

theorem reconnect_unregisters_exit_witness:
  "let sv = ex_net\<lparr>sv_handlers := [HExitServe ex_registration, HExitServe ex_registration, HClientServe],
              sv_sessions := [shutdown ErrClosed ex_client, ex_link, ex_client]\<rparr>
   in Registry_Select ''x'' False (sv_registry (exit_remove 0 (exit_drop 0 sv))) = Inl ErrExitUnavailable"
proof -
  let ?sv = "ex_net\<lparr>sv_handlers := [HExitServe ex_registration, HExitServe ex_registration, HClientServe],
              sv_sessions := [shutdown ErrClosed ex_client, ex_link, ex_client]\<rparr>"
  have "core_ok ex_client" "\<not> ss_closed ex_client"
    using ex_sessions_ok(1) by (simp_all add: sess_ok_def ex_client_def ex_session_def New_def)
  then have d: "ss_done (session_of ?sv 0)" using sess_shutdown [OF ex_sessions_ok(1), of ErrClosed] shutdown_spec(3) [of ex_client ErrClosed]
    by (simp add: sess_ok_def flags_ok_def)
  show ?thesis
    using reconnect_unregisters_exit [of 0 ?sv ex_registration "''x''" 1 ex_registration _ 0 "[]"] d
    by (simp add: ex_registration_def ex_net_def gm_get_def)
qed


text \<open>
  C0 (the direct exit). An exit that registers under the ID \<open>direct\<close> takes the place of the server's
  own, persistent entry: its entry can expire like any other, streams for it are still dialed from
  the server itself, and once the exit is gone a client that asks for \<open>direct\<close> is refused.
\<close>

theorem exit_named_direct:
  assumes "h < length (sv_handlers sv)" and "xr_ID r = directID" and "handler_of sv h = HExitAdd r"
    and "0 < xr_Capacity r" and "or_ExitID (st_request (deref (session_of sv k) q)) = directID"
    and "handler_of sv' h = HExitRemove r"
  shows "(\<exists>e. gm_get (rg_exits (sv_registry (exit_add now h sv))) directID = Some e \<and> \<not> ee_persistent e)
    \<and> fst (forward_open k q (exit_add now h sv)) =
        FDirect (or_Destination (st_request (deref (session_of sv k) q))) (or_Port (st_request (deref (session_of sv k) q)))
    \<and> Registry_Select directID False (sv_registry (exit_remove h sv')) = Inl ErrExitUnavailable"
proof -
  have "Registry_Select directID False (sv_registry (exit_remove h sv')) = Inl ErrExitUnavailable"
    using assms(2,6) by (simp add: exit_remove_def Registry_Remove_def Registry_Select_def directID_def)
  moreover have "exit_add now h sv = set_handler h (HExitAnnounce r)
      (sv\<lparr>sv_registry := Registry_Add now (exit_info r) ''healthy'' (sv_registry sv)\<rparr>)"
    using assms(3) by (simp add: exit_add_def)
  ultimately show ?thesis
    using assms(2,4,5)
    by (simp add: forward_open_def Let_def Registry_Add_def Registry_add_def exit_info_def Registry_Select_def usable_def directID_def)
qed

theorem exit_named_direct_witness:
  "let r = ex_registration\<lparr>xr_ID := directID\<rparr>; v = NewServer 0 ex_config ex_verifier in
   Registry_Select directID False (sv_registry v) = Inr (direct_info 4\<lparr>ei_Health := ''healthy''\<rparr>)
   \<and> Registry_Select directID False (sv_registry (exit_remove 0 (v\<lparr>sv_handlers := [HExitRemove r]\<rparr>))) = Inl ErrExitUnavailable"
proof -
  let ?r = "ex_registration\<lparr>xr_ID := directID\<rparr>" and ?v = "NewServer 0 ex_config ex_verifier"
  let ?s = "ex_client\<lparr>ss_heap := [(newStream 1)\<lparr>st_request := ex_collision\<lparr>or_ExitID := directID\<rparr>\<rparr>]\<rparr>"
  have "Registry_Select directID False (sv_registry (exit_remove 0 (?v\<lparr>sv_handlers := [HExitRemove ?r]\<rparr>))) = Inl ErrExitUnavailable"
    using exit_named_direct [of 0 "?v\<lparr>sv_handlers := [HExitAdd ?r], sv_sessions := [?s]\<rparr>" ?r 0 0 "?v\<lparr>sv_handlers := [HExitRemove ?r]\<rparr>" 0]
    by (simp add: ex_registration_def)
  moreover have "Registry_Select directID False (sv_registry ?v) = Inr (direct_info 4\<lparr>ei_Health := ''healthy''\<rparr>)"
    by (simp add: Let_def NewServer_def ex_config_def Role_Server_def Registry_AddPersistent_def Registry_add_def NewRegistry_def
        Registry_Select_def directID_def direct_info_def usable_def UnixMilli_def gm_get_def second_def)
  ultimately show ?thesis by (simp only: Let_def)
qed

text \<open>
  Remark (early registration). The read loop of an exit's session runs before the handler has installed
  its control handler. A registration frame that is read in this gap is not kept: it ends the
  session, and the exit is never registered.
\<close>

theorem early_registration_lost:
  assumes "sv_ok sv" and "h < length (sv_handlers sv)" and "handler_of sv h = HExitStarted"
    and "ss_rpc (session_of sv h) = RIdle" and "ss_conn (session_of sv h) = Some c" and "\<not> ss_control (session_of sv h)"
    and "\<not> ss_closed (session_of sv h)" and "ss_ctl (session_of sv h) = []"
    and "frame_ok f" and "Type f = FrameRegister" and "rbuf c = frame_bytes f @ rest"
  shows "\<exists>sv'. server_read now h sv = [sv'] \<and> ss_done (session_of sv' h) \<and> sv_registry sv' = sv_registry sv
    \<and> (\<exists>e. handler_of (exit_wait WDone h (exit_listen h sv')) h = HEnded (Some e))"
proof -
  let ?s = "(session_of sv h)\<lparr>ss_conn := Some (c\<lparr>rbuf := rest\<rparr>)\<rparr>"
  let ?e = "Msg (''unexpected control frame '' @ show_nat (unat (Type f)))"
  let ?t = "(shutdown ?e ?s)\<lparr>ss_rpc := RStopped\<rparr>"
  have c: "core_ok ?s" "\<not> ss_closed ?s"
    using sv_sess [OF assms(1,2)] assms(7) by (simp_all add: sess_ok_def core_ok_def live_refs_def)
  note sp = shutdown_spec [OF c, of ?e]
  have "handle_frame f ?s = ?t"
    using assms(6,10) by (simp add: handle_frame_def handle_control_def frame_types)
  then have "readLoop_step (session_of sv h) = [?t]" using readLoop_frame [OF assms(4,5,9,11)] by simp
  moreover have "ss_ctl ?t = []" using assms(8) shutdown_ctl [of ?e ?s] by simp
  ultimately have r: "server_read now h sv = [set_session h (?t\<lparr>ss_ctl := []\<rparr>) sv]" by (simp add: server_read_def)
  have l: "h < length (sv_sessions sv)" using sv_len [OF assms(1)] assms(2) by simp
  let ?v = "set_session h (?t\<lparr>ss_ctl := []\<rparr>) sv"
  have "ss_done (session_of ?v h)" "ss_err (session_of ?v h) = Some ?e" using sp l by simp_all
  with r l assms(2,3) show ?thesis by (simp add: exit_listen_def exit_wait_def Let_def SetControlHandler_def)
qed


theorem early_registration_lost_witness:
  "\<exists>sv'. server_read 0 0 (ex_net\<lparr>sv_clients := [], sv_exits := [], sv_handlers := [HExitStarted],
       sv_sessions := [ex_link\<lparr>ss_control := False, ss_conn := Some (conn_of (frame_bytes \<lparr>Type = FrameRegister, ID = 0, Payload = []\<rparr>))\<rparr>]\<rparr>) = [sv']
     \<and> ss_done (session_of sv' 0)"
proof -
  let ?f = "\<lparr>Type = FrameRegister, ID = 0, Payload = []\<rparr> :: Frame"
  let ?c = "conn_of (frame_bytes ?f)"
  let ?s = "ex_link\<lparr>ss_control := False, ss_conn := Some ?c\<rparr>"
  let ?v = "ex_net\<lparr>sv_clients := [], sv_exits := [], sv_handlers := [HExitStarted], sv_sessions := [?s]\<rparr>"
  have "sess_ok ?s" by (simp add: ex_link_def New_def sess_ok_def core_ok_def flags_ok_def live_refs_def gm_ok_def)
  then have "sv_ok ?v" using sv_reg [OF ex_net_ok] by (simp add: sv_ok_def gm_ok_def)
  moreover have "frame_ok ?f" by (simp add: frame_ok_def)
  ultimately show ?thesis
    using early_registration_lost [of ?v 0 ?c ?f "[]" 0] by (auto simp: ex_link_def New_def conn_of_def)
qed

end
