(* ===== verification/Trust.thy ===== *)
theory Trust
  imports Frame Sha256 Files "HOL-Library.List_Lexorder" "HOL-Library.Char_ord"
begin

text \<open>
  \<open>src/internal/transport\<close>: the fingerprint of a certificate, the verification of a connection against
  a pinned fingerprint or a store of known hosts, the store itself with its file, and the readiness
  frame of a control stream. A certificate is its DER bytes; the sockets, TLS and QUIC below are not
  part of the model.
\<close>

section \<open>Fingerprints\<close>

definition hex_upper :: "nat \<Rightarrow> char" where
  "hex_upper d = (if d < 10 then char_of (48 + d) else char_of (55 + d))"

definition hex_byte :: "byte \<Rightarrow> string" where
  "hex_byte b = [hex_upper (unat b div 16), hex_upper (unat b mod 16)]"

fun join_colon :: "string list \<Rightarrow> string" where
  "join_colon [] = []"
| "join_colon [w] = w"
| "join_colon (w # v # ws) = w @ CHR '':'' # join_colon (v # ws)"

definition Fingerprint :: "bytes \<Rightarrow> string" where
  "Fingerprint raw = join_colon (map hex_byte (sha256 raw))"

definition FingerprintBytes :: "bytes \<Rightarrow> string" where
  "FingerprintBytes raw = concat (map hex_byte (sha256 raw))"

definition NormalizeFingerprint :: "string \<Rightarrow> string" where
  "NormalizeFingerprint v =
     map (\<lambda>c. if c = CHR ''-'' then CHR '':'' else c) (filter (\<lambda>c. c \<noteq> CHR '' '') (ToUpper (TrimSpace v)))"

definition EqualFingerprint :: "string \<Rightarrow> string \<Rightarrow> bool" where
  "EqualFingerprint a b \<longleftrightarrow> NormalizeFingerprint a = NormalizeFingerprint b"

section \<open>Verifying a connection\<close>

definition IsTrustError :: "error \<Rightarrow> bool" where
  "IsTrustError e \<longleftrightarrow> list_ex (\<lambda>x. case x of TrustError _ \<Rightarrow> True | _ \<Rightarrow> False) (unwrap_chain e)"

text \<open>
  \<open>VerifyConnection\<close> of \<open>ClientTLSConfig(expected, trust, host)\<close>: \<open>save\<close> is the \<open>Save\<close> method of the trust
  store, if there is one, and \<open>certs\<close> are the certificates the peer presents.
\<close>

definition VerifyConnection ::
  "string \<Rightarrow> (string \<Rightarrow> string \<Rightarrow> 's \<Rightarrow> error option \<times> 's) option \<Rightarrow> string \<Rightarrow> bytes list \<Rightarrow> 's \<Rightarrow> error option \<times> 's" where
  "VerifyConnection expected save host certs s =
     (case certs of
        [] \<Rightarrow> (Some (TrustError (Msg ''server did not present a certificate'')), s)
      | leaf # _ \<Rightarrow>
          let actual = Fingerprint leaf in
          if expected \<noteq> [] then
            (if \<not> EqualFingerprint expected actual
             then (Some (TrustError (Msg (''server certificate fingerprint changed: expected '' @ expected @ '', got '' @ actual))), s)
             else (None, s))
          else case save of
            None \<Rightarrow> (Some (TrustError (Msg ''server is not trusted and no trust store is available'')), s)
          | Some sv \<Rightarrow>
              (case sv host actual s of
                 (Some e, s') \<Rightarrow> (Some (TrustError e), s')
               | (None, s') \<Rightarrow> (None, s')))"

section \<open>Known hosts\<close>

text \<open>\<open>kh_entries\<close> is \<open>None\<close> when the map is nil, which a file that holds \<open>null\<close> leads to.\<close>

record KnownHosts =
  kh_path :: string
  kh_entries :: "(string, string) gomap option"
  kh_confirm :: "(string \<Rightarrow> string \<Rightarrow> bool res) option"
  kh_fs :: fs

definition entries_json :: "(string, string) gomap option \<Rightarrow> json" where
  "entries_json m =
     (case m of None \<Rightarrow> JNull | Some es \<Rightarrow> JObj (map (\<lambda>(k, v). (k, JStr v)) (sort_key fst es)))"

fun set_entries :: "(string \<times> json) list \<Rightarrow> (string, string) gomap \<Rightarrow> (string, string) gomap option" where
  "set_entries [] m = Some m"
| "set_entries ((k, v) # fs) m =
     (case v of
        JStr s \<Rightarrow> set_entries fs (gm_set k s m)
      | JNull \<Rightarrow> set_entries fs (gm_set k [] m)
      | _ \<Rightarrow> None)"

definition LoadKnownHosts :: "string \<Rightarrow> fs \<Rightarrow> KnownHosts res \<times> fs" where
  "LoadKnownHosts path s =
     (case os_ReadFile path s of
        (Inl e, s') \<Rightarrow>
          if errors_Is e ErrNotExist
          then (Inr \<lparr>kh_path = path, kh_entries = Some [], kh_confirm = None, kh_fs = s'\<rparr>, s') else (Inl e, s')
      | (Inr d, s') \<Rightarrow>
          let bad = (Inl (Wrapped ''parse known hosts: '' json_error), s');
              good = (\<lambda>m. (Inr \<lparr>kh_path = path, kh_entries = m, kh_confirm = None, kh_fs = s'\<rparr>, s')) in
          (case Unmarshal d of
             Some (JObj fs) \<Rightarrow> (case set_entries fs [] of None \<Rightarrow> bad | Some m \<Rightarrow> good (Some m))
           | Some JNull \<Rightarrow> good None
           | _ \<Rightarrow> bad))"

definition KnownHosts_Get :: "string \<Rightarrow> KnownHosts \<Rightarrow> string" where
  "KnownHosts_Get host k =
     (case kh_entries k of None \<Rightarrow> [] | Some m \<Rightarrow> (case gm_get m host of None \<Rightarrow> [] | Some v \<Rightarrow> v))"

definition SetConfirmer :: "(string \<Rightarrow> string \<Rightarrow> bool res) option \<Rightarrow> KnownHosts \<Rightarrow> KnownHosts" where
  "SetConfirmer c k = k\<lparr>kh_confirm := c\<rparr>"

definition kh_mode :: nat where "kh_mode = 6 * 8 * 8"

text \<open>The entry is set, then the file is written; an error of the latter leaves the entry set.\<close>

definition kh_store :: "string \<Rightarrow> string \<Rightarrow> KnownHosts \<Rightarrow> error option \<times> KnownHosts" where
  "kh_store host fp k =
     (case kh_entries k of
        None \<Rightarrow> (Some (Panic ''assignment to entry in nil map''), k)
      | Some m \<Rightarrow>
          let k1 = k\<lparr>kh_entries := Some (gm_set host (NormalizeFingerprint fp) m)\<rparr> in
          (case replace_file (kh_path k) None (MarshalIndent (entries_json (kh_entries k1)) @ [10]) kh_mode (kh_fs k) of
             (e, s') \<Rightarrow> (e, k1\<lparr>kh_fs := s'\<rparr>)))"

definition SaveUnconfirmed :: "string \<Rightarrow> string \<Rightarrow> KnownHosts \<Rightarrow> error option \<times> KnownHosts" where
  "SaveUnconfirmed host fp k = kh_store host fp k"

definition KnownHosts_Save :: "string \<Rightarrow> string \<Rightarrow> KnownHosts \<Rightarrow> error option \<times> KnownHosts" where
  "KnownHosts_Save host fp k =
     (let existing = KnownHosts_Get host k in
      if existing \<noteq> [] \<and> \<not> EqualFingerprint existing fp
      then (Some (Msg (''refusing to replace fingerprint for '' @ host)), k)
      else if existing = [] then
        (case kh_confirm k of
           None \<Rightarrow> (Some (Msg (''server '' @ host @ '' is not trusted and no fingerprint confirmation is available'')), k)
         | Some confirm \<Rightarrow>
             (case confirm host (NormalizeFingerprint fp) of
                Inl e \<Rightarrow> (Some e, k)
              | Inr confirmed \<Rightarrow>
                  if \<not> confirmed then (Some (Msg (''server certificate fingerprint for '' @ host @ '' was not accepted'')), k)
                  else kh_store host fp k))
      else kh_store host fp k)"

definition KnownHosts_Check :: "string \<Rightarrow> string \<Rightarrow> KnownHosts \<Rightarrow> error option" where
  "KnownHosts_Check host fp k =
     (let expected = KnownHosts_Get host k in
      if expected = [] then None
      else if \<not> EqualFingerprint expected fp
      then Some (Msg (''server certificate fingerprint changed for '' @ host @ '': expected '' @ expected @ '', got '' @ fp))
      else None)"

section \<open>Control streams\<close>

text \<open>\<open>OpenControlStream\<close> and \<open>AcceptControlStream\<close> on a stream that QUIC has opened or accepted.\<close>

definition OpenControlStream :: "conn res \<Rightarrow> conn res \<times> conn option" where
  "OpenControlStream opened =
     (case opened of
        Inl e \<Rightarrow> (Inl e, None)
      | Inr c \<Rightarrow>
          (case WriteFrame \<lparr>Type = FrameStreamReady, ID = 0, Payload = []\<rparr> c of
             (Some e, c') \<Rightarrow> (Inl (Wrapped ''write QUIC control readiness: '' e), Some c')
           | (None, c') \<Rightarrow> (Inr c', Some c')))"

definition AcceptControlStream :: "conn res \<Rightarrow> conn res" where
  "AcceptControlStream accepted =
     (case accepted of
        Inl e \<Rightarrow> Inl e
      | Inr c \<Rightarrow>
          (case ReadFrame c of
             (Inl e, c') \<Rightarrow> Inl (Wrapped ''read QUIC control readiness: '' e)
           | (Inr f, c') \<Rightarrow>
               if Type f \<noteq> FrameStreamReady \<or> ID f \<noteq> 0 \<or> length (Payload f) \<noteq> 0
               then Inl (Msg (''invalid QUIC control readiness frame: type='' @ show_nat (unat (Type f)) @ '' id='' @
                      show_nat (unat (ID f)) @ '' payload='' @ show_nat (length (Payload f))))
               else Inr c'))"

section \<open>Fingerprints compare what they are computed from\<close>

lemma of_hex_upper: "d < 16 \<Longrightarrow> (of_char (hex_upper d) :: nat) = (if d < 10 then 48 + d else 55 + d)"
  by (simp add: hex_upper_def)

lemma hex_upper_plain:
  assumes "d < 16"
  shows "upper_char (hex_upper d) = hex_upper d" "\<not> is_space (hex_upper d)" "hex_upper d \<noteq> CHR '' ''"
    "hex_upper d \<noteq> CHR ''-''" "hex_upper d \<noteq> CHR '':''"
proof -
  have ne: "hex_upper d \<noteq> c" if "(of_char c :: nat) \<in> {32, 45, 58}" for c
    using that of_hex_upper [OF assms] by (auto split: if_splits)
  show "hex_upper d \<noteq> CHR '' ''" "hex_upper d \<noteq> CHR ''-''" "hex_upper d \<noteq> CHR '':''" by (rule ne, simp)+
  show "upper_char (hex_upper d) = hex_upper d" "\<not> is_space (hex_upper d)"
    using assms by (simp_all add: upper_char_def is_space_def of_hex_upper)
qed

lemma hex_upper_inj:
  assumes "d < 16" "e < 16" "hex_upper d = hex_upper e" shows "d = e"
proof -
  have "(if d < 10 then 48 + d else 55 + d) = (if e < 10 then 48 + e else 55 + e)"
    using of_hex_upper [OF assms(1)] of_hex_upper [OF assms(2)] unfolding assms(3) by (rule trans [OF sym])
  then show ?thesis by (cases "d < 10"; cases "e < 10") simp_all
qed

lemma nibbles: "unat (b :: byte) div 16 < 16" "unat (b :: byte) mod 16 < 16"
  using byte_lt [of b] by (auto simp: less_mult_imp_div_less)

lemma hex_byte_inj: "hex_byte a = hex_byte b \<longleftrightarrow> a = b"
proof
  assume "hex_byte a = hex_byte b"
  then have "unat a div 16 = unat b div 16" "unat a mod 16 = unat b mod 16"
    using hex_upper_inj nibbles by (auto simp: hex_byte_def)
  then have "unat a = unat b" by (metis div_mult_mod_eq)
  then show "a = b" by (metis of_nat_unat_byte)
qed simp

lemma join_colon_Cons:
  "join_colon (map hex_byte (b # bs)) = hex_byte b @ (if bs = [] then [] else CHR '':'' # join_colon (map hex_byte bs))"
  by (cases bs) simp_all

lemma join_colon_inj:
  "length as = length bs \<Longrightarrow> join_colon (map hex_byte as) = join_colon (map hex_byte bs) \<Longrightarrow> as = bs"
proof (induction as bs rule: list_induct2)
  case (Cons a as b bs)
  have e: "hex_byte a @ (if as = [] then [] else CHR '':'' # join_colon (map hex_byte as))
      = hex_byte b @ (if bs = [] then [] else CHR '':'' # join_colon (map hex_byte bs))"
    using Cons.prems unfolding join_colon_Cons .
  then have "hex_byte a = hex_byte b" by (simp add: hex_byte_def)
  then have ab: "a = b" by (simp only: hex_byte_inj)
  show ?case
  proof (cases "as = []")
    case True
    with ab Cons.hyps show ?thesis by simp
  next
    case False
    then have "bs \<noteq> []" using Cons.hyps by auto
    with False e ab Cons.IH show ?thesis by simp
  qed
qed simp

lemma hex_byte_chars: "c \<in> set (hex_byte b) \<Longrightarrow> \<exists>d < 16. c = hex_upper d"
  by (simp add: hex_byte_def) (metis nibbles)

lemma join_colon_chars: "c \<in> set (join_colon (map hex_byte bs)) \<Longrightarrow> c = CHR '':'' \<or> (\<exists>d < 16. c = hex_upper d)"
proof (induction bs)
  case (Cons b bs)
  then have "c \<in> set (hex_byte b) \<or> c = CHR '':'' \<or> c \<in> set (join_colon (map hex_byte bs))"
    unfolding join_colon_Cons by (auto split: if_splits)
  with Cons.IH hex_byte_chars show ?case by blast
qed simp

lemma Fingerprint_normal: "NormalizeFingerprint (Fingerprint raw) = Fingerprint raw"
proof -
  let ?f = "Fingerprint raw"
  have ch: "upper_char c = c \<and> c \<noteq> CHR '' '' \<and> c \<noteq> CHR ''-'' \<and> \<not> is_space c" if "c \<in> set ?f" for c
  proof (cases "c = CHR '':''")
    case True
    then show ?thesis by (simp add: upper_char_def is_space_def)
  next
    case False
    then show ?thesis
      using join_colon_chars [of c "sha256 raw"] that hex_upper_plain by (auto simp: Fingerprint_def)
  qed
  have "dropWhile is_space ?f = ?f" "dropWhile is_space (rev ?f) = rev ?f"
    using ch hd_in_set [of ?f] hd_in_set [of "rev ?f"] by (intro dropWhile_id, auto)+
  then have t: "TrimSpace ?f = ?f" by (simp add: TrimSpace_def TrimFunc_def trim_right_def trim_left_def)
  have "map upper_char ?f = ?f" using ch by (intro map_idI) blast
  moreover have "filter (\<lambda>c. c \<noteq> CHR '' '') ?f = ?f" using ch by (intro filter_True ballI) blast
  moreover have "map (\<lambda>c. if c = CHR ''-'' then CHR '':'' else c) ?f = ?f" using ch by (intro map_idI) auto
  ultimately show ?thesis using t by (simp add: NormalizeFingerprint_def ToUpper_def)
qed

lemma EqualFingerprint_sha: "EqualFingerprint (Fingerprint a) (Fingerprint b) \<longleftrightarrow> sha256 a = sha256 b"
  unfolding EqualFingerprint_def Fingerprint_normal unfolding Fingerprint_def
  using join_colon_inj [of "sha256 a" "sha256 b"] by auto

end
