(* ===== verification/TrustProps.thy ===== *)
theory TrustProps
  imports Trust
begin

text \<open>
  Trust on first use: the contract of a trust store, proved once in the locale \<open>trust_store\<close> for every
  sequence of connections, and kept by the known-hosts store; what a fingerprint comparison means;
  the file of the known hosts; the readiness handshake of a control stream.
\<close>

section \<open>The contract of a trust store\<close>

locale trust_store =
  fixes pin :: "'h \<Rightarrow> 's \<Rightarrow> string"
    and save :: "'h \<Rightarrow> string \<Rightarrow> 's \<Rightarrow> error option \<times> 's"
    and approved :: "'h \<Rightarrow> string \<Rightarrow> 's \<Rightarrow> bool"
  assumes save_refuses: "save h fp s = (x, s') \<Longrightarrow> pin h s \<noteq> [] \<Longrightarrow> \<not> EqualFingerprint (pin h s) fp \<Longrightarrow> x \<noteq> None \<and> s' = s"
    and save_new: "save h fp s = (None, s') \<Longrightarrow> pin h s = [] \<Longrightarrow> approved h (NormalizeFingerprint fp) s"
    and save_pins: "save h fp s = (None, s') \<Longrightarrow> pin h s' = NormalizeFingerprint fp"
    and save_keeps: "save h fp s = (x, s') \<Longrightarrow> pin h s \<noteq> [] \<Longrightarrow> EqualFingerprint (pin h s') (pin h s)"
    and save_others: "save h fp s = (x, s') \<Longrightarrow> g \<noteq> h \<Longrightarrow> pin g s' = pin g s"
begin

text \<open>A pinned host keeps its pin through any sequence of saves for any hosts.\<close>

fun saves :: "('h \<times> string) list \<Rightarrow> 's \<Rightarrow> 's" where
  "saves [] s = s"
| "saves ((h, fp) # xs) s = saves xs (snd (save h fp s))"

lemma EqualFingerprint_trans: "EqualFingerprint a b \<Longrightarrow> EqualFingerprint b c \<Longrightarrow> EqualFingerprint a c"
  by (simp add: EqualFingerprint_def)

lemma pin_stable:
  assumes "NormalizeFingerprint (pin h s) \<noteq> []"
  shows "EqualFingerprint (pin h (saves xs s)) (pin h s)"
  using assms
proof (induction xs s rule: saves.induct)
  case (1 s)
  then show ?case by (simp add: EqualFingerprint_def)
next
  case (2 g fp xs s)
  obtain x s' where s': "save g fp s = (x, s')" by fastforce
  have ne: "pin h s \<noteq> []" using "2.prems" by (auto simp: NormalizeFingerprint_def TrimSpace_def TrimFunc_def
        trim_right_def trim_left_def ToUpper_def)
  have e: "EqualFingerprint (pin h s') (pin h s)"
    using save_keeps [OF s'] save_others [OF s', of h] ne by (cases "g = h") (auto simp: EqualFingerprint_def)
  then have "NormalizeFingerprint (pin h s') \<noteq> []" using "2.prems" by (simp add: EqualFingerprint_def)
  with "2.IH" s' e show ?case using EqualFingerprint_trans by simp
qed

text \<open>A connection that is accepted shows the pinned certificate, or one the user approved just now.\<close>

lemma accepted_connection:
  assumes "VerifyConnection (pin h s) (Some (\<lambda>_. save h)) host certs s = (None, s')"
  shows "\<exists>leaf rest. certs = leaf # rest \<and>
    (if pin h s \<noteq> [] then EqualFingerprint (pin h s) (Fingerprint leaf) \<and> s' = s
     else approved h (Fingerprint leaf) s \<and> pin h s' = Fingerprint leaf)"
proof -
  obtain leaf rest where c: "certs = leaf # rest"
    using assms by (cases certs) (simp_all add: VerifyConnection_def)
  show ?thesis
  proof (cases "pin h s = []")
    case True
    then have "save h (Fingerprint leaf) s = (None, s')"
      using assms c by (auto simp: VerifyConnection_def Let_def split: prod.splits option.splits)
    with True c save_new [OF this True] save_pins [OF this] show ?thesis by (simp add: Fingerprint_normal)
  next
    case False
    with assms c show ?thesis by (auto simp: VerifyConnection_def Let_def split: if_splits)
  qed
qed

end

section \<open>The known-hosts store keeps it\<close>

definition kh_ok :: "KnownHosts \<Rightarrow> bool" where
  "kh_ok k \<longleftrightarrow> (case kh_entries k of None \<Rightarrow> True | Some m \<Rightarrow> gm_ok m)"

definition kh_approved :: "string \<Rightarrow> string \<Rightarrow> KnownHosts \<Rightarrow> bool" where
  "kh_approved host fp k \<longleftrightarrow> (\<exists>c. kh_confirm k = Some c \<and> c host fp = Inr True)"

lemma kh_store_pin:
  "kh_store host fp k = (x, k') \<Longrightarrow> kh_entries k = Some m \<Longrightarrow>
   KnownHosts_Get g k' = (if g = host then NormalizeFingerprint fp else KnownHosts_Get g k)"
  by (auto simp: kh_store_def KnownHosts_Get_def Let_def split: prod.splits option.splits)

lemma kh_store_nil: "kh_entries k = None \<Longrightarrow> kh_store host fp k = (Some (Panic ''assignment to entry in nil map''), k)"
  by (simp add: kh_store_def)

definition undash :: "char \<Rightarrow> char" where
  "undash c = (if c = CHR ''-'' then CHR '':'' else c)"

lemma undash_space [simp]: "is_space (undash c) = is_space c"
  by (auto simp: undash_def is_space_def)

lemma Normalize_undash: "NormalizeFingerprint v = map undash (filter (\<lambda>c. c \<noteq> CHR '' '') (map upper_char (TrimSpace v)))"
  by (simp add: NormalizeFingerprint_def undash_def ToUpper_def cong: map_cong)

lemma Normalize_Nil: "NormalizeFingerprint [] = []"
  by (simp add: Normalize_undash TrimSpace_def TrimFunc_def trim_right_def trim_left_def)

text \<open>A text whose ends are no white space and whose characters are in normal form stays as it is.\<close>

lemma Normalize_fixed:
  assumes "n = [] \<or> \<not> is_space (hd n) \<and> \<not> is_space (last n)"
    and "\<And>c. c \<in> set n \<Longrightarrow> upper_char c = c \<and> c \<noteq> CHR '' '' \<and> undash c = c"
  shows "NormalizeFingerprint n = n"
proof -
  have "TrimSpace n = n"
    using assms(1) TrimSpace_id [of n] by (cases "n = []") (auto simp: TrimSpace_def TrimFunc_def trim_right_def trim_left_def)
  moreover have "map upper_char n = n" using assms(2) by (intro map_idI) blast
  moreover have "filter (\<lambda>c. c \<noteq> CHR '' '') n = n" using assms(2) by (intro filter_True ballI) blast
  moreover have "map undash n = n" using assms(2) by (intro map_idI) blast
  ultimately show ?thesis by (simp add: Normalize_undash)
qed

lemma Normalize_idem: "NormalizeFingerprint (NormalizeFingerprint v) = NormalizeFingerprint v"
proof (rule Normalize_fixed)
  let ?Q = "\<lambda>c. c \<noteq> CHR '' ''" and ?u = "map upper_char (TrimSpace v)"
  have sp: "is_space (CHR '' '')" by (simp add: is_space_def)
  show "NormalizeFingerprint v = [] \<or> \<not> is_space (hd (NormalizeFingerprint v)) \<and> \<not> is_space (last (NormalizeFingerprint v))"
  proof (cases "TrimSpace v = []")
    case False
    then have u: "?u \<noteq> []" by simp
    have e: "\<not> is_space (hd ?u)" "\<not> is_space (last ?u)"
      using TrimSpace_ends [OF False] False by (simp_all add: hd_map last_map)
    then have q: "?Q (hd ?u)" "?Q (last ?u)" using sp by metis+
    show ?thesis
      using e hd_filter [of ?u ?Q, OF u q(1)] last_filter [of ?u ?Q, OF u q(2)] filter_ends [of ?u ?Q, OF u q(1)]
      by (simp add: Normalize_undash hd_map last_map)
  qed (simp add: Normalize_undash)
  fix c assume "c \<in> set (NormalizeFingerprint v)"
  then obtain d where "c = undash (upper_char d)" "upper_char d \<noteq> CHR '' ''" by (auto simp: Normalize_undash)
  then show "upper_char c = c \<and> c \<noteq> CHR '' '' \<and> undash c = c"
    by (cases "upper_char d = CHR ''-''") (simp_all add: undash_def, simp add: upper_char_def)
qed

interpretation kh: trust_store KnownHosts_Get KnownHosts_Save kh_approved
proof unfold_locales
  fix h fp s x s' assume s: "KnownHosts_Save h fp s = (x, s')"
  show "KnownHosts_Get h s \<noteq> [] \<Longrightarrow> \<not> EqualFingerprint (KnownHosts_Get h s) fp \<Longrightarrow> x \<noteq> None \<and> s' = s"
    using s by (auto simp: KnownHosts_Save_def Let_def)
  show "KnownHosts_Get h s \<noteq> [] \<Longrightarrow> EqualFingerprint (KnownHosts_Get h s') (KnownHosts_Get h s)"
  proof -
    assume p: "KnownHosts_Get h s \<noteq> []"
    then obtain m where m: "kh_entries s = Some m" by (auto simp: KnownHosts_Get_def split: option.splits)
    show ?thesis
      using s p kh_store_pin [OF _ m, of h fp x s' h] Normalize_idem [of fp]
      by (auto simp: KnownHosts_Save_def Let_def EqualFingerprint_def split: if_splits)
  qed
  show "g \<noteq> h \<Longrightarrow> KnownHosts_Get g s' = KnownHosts_Get g s" for g
    using s kh_store_pin [of h fp s x s' _ g] kh_store_nil [of s h fp]
    by (cases "kh_entries s") (auto simp: KnownHosts_Save_def Let_def split: if_splits option.splits sum.splits)
next
  fix h fp s s' assume s: "KnownHosts_Save h fp s = (None, s')"
  show "KnownHosts_Get h s = [] \<Longrightarrow> kh_approved h (NormalizeFingerprint fp) s"
    using s by (auto simp: KnownHosts_Save_def kh_approved_def Let_def split: option.splits sum.splits if_splits)
  show "KnownHosts_Get h s' = NormalizeFingerprint fp"
  proof -
    have st: "kh_store h fp s = (None, s')"
      using s by (auto simp: KnownHosts_Save_def Let_def split: option.splits sum.splits if_splits)
    then obtain m where "kh_entries s = Some m" using kh_store_nil [of s h fp] by (cases "kh_entries s") auto
    from kh_store_pin [OF st this, of h] show ?thesis by simp
  qed
qed

lemma Verify_at_host: "VerifyConnection e (Some (\<lambda>_. sv h)) h certs s = VerifyConnection e (Some sv) h certs s"
  by (cases certs) (simp_all add: VerifyConnection_def Let_def)

lemma Fingerprint_nonempty: "Fingerprint raw \<noteq> []"
proof -
  obtain b bs where "sha256 raw = b # bs" using length_sha256 [of raw] by (cases "sha256 raw") auto
  then show ?thesis by (simp add: Fingerprint_def join_colon_Cons hex_byte_def del: list.map)
qed

section \<open>The file\<close>

lemma set_entries_strings:
  "set_entries (map (\<lambda>(k, v). (k, JStr v)) es) m = Some (fold (\<lambda>(k, v). gm_set k v) es m)"
  by (induction es arbitrary: m) auto

lemma fold_gm_set:
  "gm_ok es \<Longrightarrow> gm_get (fold (\<lambda>(k, v). gm_set k v) es m) g = (case gm_get es g of None \<Rightarrow> gm_get m g | Some v \<Rightarrow> Some v)"
proof (induction es arbitrary: m)
  case (Cons e es)
  obtain k v where e: "e = (k, v)" by (cases e)
  have n: "gm_get es k = None" "gm_ok es" using Cons.prems e by (auto simp: gm_ok_def gm_get_def map_of_eq_None_iff)
  have "gm_get ((k, v) # es) g = (if g = k then Some v else gm_get es g)" by (simp add: gm_get_def)
  with Cons.IH [OF n(2)] n(1) e show ?case by (auto split: option.splits)
qed simp

lemma gm_get_sort: "gm_ok es \<Longrightarrow> gm_get (sort_key fst es) g = gm_get es g"
proof -
  assume ok: "gm_ok es"
  then have d: "gm_ok (sort_key fst es)"
    unfolding gm_ok_def distinct_map set_sort distinct_sort .
  show ?thesis
  proof (cases "gm_get es g")
    case None
    then have "g \<notin> fst ` set (sort_key fst es)" by (simp add: gm_get_def map_of_eq_None_iff)
    then have "map_of (sort_key fst es) g = None" by (simp only: map_of_eq_None_iff) simp
    with None show ?thesis by (simp add: gm_get_def)
  next
    case (Some v)
    then have "(g, v) \<in> set (sort_key fst es)" using gm_get_in [OF Some] by simp
    with gm_in_get [OF d] Some show ?thesis by simp
  qed
qed

definition kh_text :: "KnownHosts \<Rightarrow> bool" where
  "kh_text k \<longleftrightarrow> (case kh_entries k of None \<Rightarrow> True | Some m \<Rightarrow> gm_ok m \<and> list_all (\<lambda>(h, fp). valid_utf8 h \<and> valid_utf8 fp) m)"

lemma load_stored:
  assumes "kh_store host fp k = (None, k')" and "kh_text k'" and "fs_calls (kh_fs k') = []"
  shows "\<exists>k2. LoadKnownHosts (kh_path k) (kh_fs k') = (Inr k2, kh_fs k') \<and> (\<forall>g. KnownHosts_Get g k2 = KnownHosts_Get g k')"
proof -
  obtain m where m: "kh_entries k = Some m" using assms(1) kh_store_nil [of k host fp] by (cases "kh_entries k") auto
  let ?es = "gm_set host (NormalizeFingerprint fp) m"
  let ?d = "MarshalIndent (entries_json (Some ?es)) @ [10]"
  have r: "replace_file (kh_path k) None ?d kh_mode (kh_fs k) = (None, kh_fs k')" "kh_entries k' = Some ?es"
    using assms(1) m by (auto simp: kh_store_def Let_def split: prod.splits)
  have ok: "gm_ok ?es" and tx: "list_all (\<lambda>(h, fp). valid_utf8 h \<and> valid_utf8 fp) ?es"
    using assms(2) r(2) by (simp_all add: kh_text_def)
  have "printable (entries_json (Some ?es))" using tx by (auto simp: entries_json_def list_all_iff)
  note um = Unmarshal_MarshalIndent [OF this]
  have "map_option fl_data (fs_files (kh_fs k') (kh_path k)) = Some ?d" by (rule replace.written [OF r(1)])
  then have rd: "os_ReadFile (kh_path k) (kh_fs k') = (Inr ?d, kh_fs k')"
    using assms(3) by (auto simp: os_ReadFile_def next_call_def)
  let ?m = "fold (\<lambda>(k, v). gm_set k v) (sort_key fst ?es) []"
  have "LoadKnownHosts (kh_path k) (kh_fs k') =
      (Inr \<lparr>kh_path = kh_path k, kh_entries = Some ?m, kh_confirm = None, kh_fs = kh_fs k'\<rparr>, kh_fs k')"
    using rd um by (simp add: LoadKnownHosts_def entries_json_def set_entries_strings Let_def)
  moreover have "gm_get ?m g = gm_get ?es g" for g
  proof -
    have d: "gm_ok (sort_key fst ?es)" using ok unfolding gm_ok_def distinct_map set_sort distinct_sort .
    show ?thesis using fold_gm_set [OF d, of "[]" g] gm_get_sort [OF ok, of g] by (cases "gm_get ?es g") auto
  qed
  ultimately show ?thesis using r(2) by (simp add: KnownHosts_Get_def)
qed

section \<open>Properties\<close>

text \<open>
  C16 (pinning). Once a host's certificate is pinned, then after any number of further attempts to
  save fingerprints, for this host or others, the client accepts a connection to the host only if
  the certificate presented has the SHA-256 digest of the pinned one, and accepting it changes
  nothing in the store.
\<close>

theorem pinned_certificate_only:
  assumes "KnownHosts_Get host k = Fingerprint raw" and "k1 = kh.saves attempts k"
    and "VerifyConnection (KnownHosts_Get host k1) (Some KnownHosts_Save) host certs k1 = (None, k2)"
  shows "\<exists>leaf rest. certs = leaf # rest \<and> sha256 leaf = sha256 raw \<and> k2 = k1"
proof -
  have ne: "Fingerprint raw \<noteq> []" by (rule Fingerprint_nonempty)
  have eq: "EqualFingerprint (KnownHosts_Get host k1) (Fingerprint raw)"
    using kh.pin_stable [of host k attempts] ne assms(1,2) by (simp add: Fingerprint_normal)
  have ne1: "KnownHosts_Get host k1 \<noteq> []"
  proof
    assume "KnownHosts_Get host k1 = []"
    with eq ne show False by (simp add: EqualFingerprint_def Fingerprint_normal Normalize_Nil)
  qed
  have "VerifyConnection (KnownHosts_Get host k1) (Some (\<lambda>_. KnownHosts_Save host)) host certs k1 = (None, k2)"
    using assms(3) unfolding Verify_at_host .
  from kh.accepted_connection [OF this] ne1 obtain leaf rest
    where "certs = leaf # rest" "EqualFingerprint (KnownHosts_Get host k1) (Fingerprint leaf)" "k2 = k1" by auto
  with eq EqualFingerprint_sha [of leaf raw] show ?thesis by (auto simp: EqualFingerprint_def)
qed

definition ex_hosts :: KnownHosts where
  "ex_hosts = \<lparr>kh_path = ''k'', kh_entries = Some [], kh_confirm = Some (\<lambda>h fp. Inr True),
     kh_fs = \<lparr>fs_files = Map.empty, fs_calls = []\<rparr>\<rparr>"

lemma ex_hosts_store: "\<exists>k'. kh_store ''h'' (Fingerprint [1]) ex_hosts = (None, k') \<and> kh_entries k' = Some [(''h'', Fingerprint [1])]
   \<and> fs_calls (kh_fs k') = [] \<and> kh_path k' = ''k'' \<and> kh_confirm k' = kh_confirm ex_hosts"
  by (simp add: kh_store_def ex_hosts_def replace_file_def os_MkdirAll_def os_WriteFile_def os_Rename_def next_call_def
      Let_def temp_of_def Fingerprint_normal)

theorem pinned_certificate_only_witness:
  "\<exists>k. KnownHosts_Get ''h'' k = Fingerprint [1]
     \<and> (\<exists>k2. VerifyConnection (KnownHosts_Get ''h'' k) (Some KnownHosts_Save) ''h'' [[1], [2]] k = (None, k2) \<and> k2 = k)"
proof -
  obtain k :: KnownHosts where k: "kh_entries k = Some [(''h'', Fingerprint [1])]" using ex_hosts_store by blast
  then have g: "KnownHosts_Get ''h'' k = Fingerprint [1]" by (simp add: KnownHosts_Get_def gm_get_def)
  have s: "k = kh.saves [] k" by simp
  obtain k2 where v: "VerifyConnection (KnownHosts_Get ''h'' k) (Some KnownHosts_Save) ''h'' [[1], [2]] k = (None, k2)"
    using g Fingerprint_nonempty [of "[1]"] by (simp add: VerifyConnection_def EqualFingerprint_def)
  from pinned_certificate_only [OF g s v] g v show ?thesis by blast
qed

text \<open>
  C17 (first use). A host that is not known yet is accepted only with the user's consent to exactly
  the fingerprint presented; then that fingerprint is pinned, in memory and in the file, from which
  a later start reads the same pins for all hosts.
\<close>

theorem first_use_needs_consent:
  assumes "KnownHosts_Get host k = []"
    and "VerifyConnection (KnownHosts_Get host k) (Some KnownHosts_Save) host certs k = (None, k')"
    and "kh_text k'" and "fs_calls (kh_fs k') = []"
  shows "\<exists>leaf rest c. certs = leaf # rest \<and> kh_confirm k = Some c \<and> c host (Fingerprint leaf) = Inr True
    \<and> KnownHosts_Get host k' = Fingerprint leaf
    \<and> (\<exists>k2. LoadKnownHosts (kh_path k) (kh_fs k') = (Inr k2, kh_fs k') \<and> (\<forall>g. KnownHosts_Get g k2 = KnownHosts_Get g k'))"
proof -
  have v: "VerifyConnection (KnownHosts_Get host k) (Some (\<lambda>_. KnownHosts_Save host)) host certs k = (None, k')"
    using assms(2) unfolding Verify_at_host .
  from kh.accepted_connection [OF v] assms(1) obtain leaf rest
    where l: "certs = leaf # rest" "kh_approved host (Fingerprint leaf) k" "KnownHosts_Get host k' = Fingerprint leaf" by auto
  have "KnownHosts_Save host (Fingerprint leaf) k = (None, k')"
    using assms(1,2) l(1) by (auto simp: VerifyConnection_def Let_def split: prod.splits option.splits)
  then have "kh_store host (Fingerprint leaf) k = (None, k')"
    by (auto simp: KnownHosts_Save_def Let_def split: option.splits sum.splits if_splits)
  from load_stored [OF this assms(3,4)] l show ?thesis by (auto simp: kh_approved_def)
qed

theorem first_use_needs_consent_witness:
  "\<exists>k'. VerifyConnection [] (Some KnownHosts_Save) ''h'' [[1]] ex_hosts = (None, k') \<and> KnownHosts_Get ''h'' k' = Fingerprint [1]"
proof -
  obtain k' where k: "kh_store ''h'' (Fingerprint [1]) ex_hosts = (None, k')" "kh_entries k' = Some [(''h'', Fingerprint [1])]"
    "fs_calls (kh_fs k') = []" using ex_hosts_store by blast
  have g: "KnownHosts_Get ''h'' ex_hosts = []" by (simp add: KnownHosts_Get_def ex_hosts_def)
  have "KnownHosts_Save ''h'' (Fingerprint [1]) ex_hosts = (None, k')"
    using g k(1) by (simp add: KnownHosts_Save_def Let_def) (simp add: ex_hosts_def)
  then have v: "VerifyConnection (KnownHosts_Get ''h'' ex_hosts) (Some KnownHosts_Save) ''h'' [[1]] ex_hosts = (None, k')"
    using g by (simp add: VerifyConnection_def)
  have asc: "(of_char c :: nat) < 128" if "c \<in> set (Fingerprint [1])" for c
    using join_colon_chars [of c "sha256 [1]"] that of_hex_upper by (auto simp: Fingerprint_def)
  have "valid_utf8 (Fingerprint [1])" by (rule valid_utf8_ascii) (simp add: list_all_iff asc)
  then have "kh_text k'" using k(2) by (simp add: kh_text_def gm_ok_def)
  from first_use_needs_consent [OF g v this k(3)] v g show ?thesis by auto
qed

text \<open>
  C0 (control stream). The accepting side takes a control stream exactly when its first frame is the
  readiness frame that \<open>OpenControlStream\<close> writes, and then reads on right behind it.
\<close>

theorem control_stream_ready:
  "AcceptControlStream (Inr c) = Inr c' \<longleftrightarrow>
     rbuf c = frame_bytes \<lparr>Type = FrameStreamReady, ID = 0, Payload = []\<rparr> @ rbuf c' \<and> c' = c\<lparr>rbuf := rbuf c'\<rparr>"
   (is "?l \<longleftrightarrow> ?r")
proof
  assume ?l
  then obtain f where r: "ReadFrame c = (Inr f, c')" and f: "Type f = FrameStreamReady" "ID f = 0" "Payload f = []"
    by (auto simp: AcceptControlStream_def split: prod.splits sum.splits if_splits)
  then have "f = \<lparr>Type = FrameStreamReady, ID = 0, Payload = []\<rparr>" by (cases f) simp
  with ReadFrame_sound [OF r] show ?r by simp
next
  assume ?r
  then have "ReadFrame c = (Inr \<lparr>Type = FrameStreamReady, ID = 0, Payload = []\<rparr>, c\<lparr>rbuf := rbuf c'\<rparr>)"
    by (intro ReadFrame_frame_bytes) (simp_all add: frame_ok_def)
  with \<open>?r\<close> show ?l by (simp add: AcceptControlStream_def)
qed

end
