(* ===== verification/ServerRun.thy ===== *)
theory ServerRun
  imports ServerProps TrustProps
begin

text \<open>
  \<open>Server.Run\<close> of \<open>src/internal/node/server.go\<close>: the two listeners, their accept loops, the end of the server. The
  outcomes of listening and accepting are arguments; each iteration of a loop, each goroutine it starts and the
  select of \<open>Run\<close> is one step, which may be interleaved with the steps of the connections (\<open>sv_step\<close>).
\<close>

section \<open>Listening\<close>

text \<open>\<open>ListenQUIC\<close> and \<open>ListenTLS\<close>, by the address that is listened on and whether the UDP socket stays open.\<close>

definition ListenQUIC :: "error option \<Rightarrow> error option \<Rightarrow> string res \<Rightarrow> string res \<times> bool" where
  "ListenQUIC resolve udp quic =
     (case resolve of
        Some e \<Rightarrow> (Inl e, False)
      | None \<Rightarrow>
          (case udp of
             Some e \<Rightarrow> (Inl e, False)
           | None \<Rightarrow> (case quic of Inl e \<Rightarrow> (Inl e, False) | Inr a \<Rightarrow> (Inr a, True))))"

text \<open>
  \<open>rn_quic\<close> and \<open>rn_tcp\<close>: the accept loop is running; \<open>rn_streams\<close>: the remote addresses of QUIC connections whose control
  stream is awaited; \<open>rn_errCh\<close>: the channel of errors; \<open>rn_open\<close>: the listeners and the UDP socket are open; \<open>rn_result\<close>:
  what \<open>Run\<close> has returned.
\<close>

record server_run =
  rn_server :: Server
  rn_address :: string
  rn_open :: bool
  rn_quic :: bool
  rn_tcp :: bool
  rn_streams :: "string option list"
  rn_errCh :: "error list"
  rn_canceled :: bool
  rn_result :: "error option option"

definition run_listen :: "string res \<times> bool \<Rightarrow> (string \<Rightarrow> error option) \<Rightarrow> Server \<Rightarrow> server_run res" where
  "run_listen quic listenTLS sv =
     (if nd_ListenAddress (sv_config sv) = [] then Inl (Msg ''listen address is required'')
      else case fst quic of
        Inl e \<Rightarrow> Inl (Wrapped ''listen QUIC: '' e)
      | Inr address \<Rightarrow>
          (case listenTLS address of
             Some e \<Rightarrow> Inl (Wrapped ''listen TLS: '' e)
           | None \<Rightarrow>
               Inr \<lparr>rn_server = sv, rn_address = address, rn_open = True, rn_quic = True, rn_tcp = True, rn_streams = [], rn_errCh = [],
                    rn_canceled = False, rn_result = None\<rparr>))"

section \<open>Accepting\<close>

definition acceptQUIC :: "string res \<Rightarrow> server_run \<Rightarrow> server_run" where
  "acceptQUIC accepted r =
     (if \<not> rn_quic r then r
      else case accepted of
        Inl e \<Rightarrow> r\<lparr>rn_errCh := rn_errCh r @ [e], rn_quic := False\<rparr>
      | Inr remote \<Rightarrow> r\<lparr>rn_streams := rn_streams r @ [Some remote]\<rparr>)"

text \<open>The goroutine of a QUIC connection up to \<open>handleConnection\<close>.\<close>

definition control_ready :: "int \<Rightarrow> conn res \<Rightarrow> nat \<Rightarrow> server_run \<Rightarrow> server_run" where
  "control_ready now stream k r =
     (case rn_streams r ! k of
        None \<Rightarrow> r
      | Some remote \<Rightarrow>
          let r1 = r\<lparr>rn_streams := (rn_streams r)[k := None]\<rparr> in
          (case AcceptControlStream stream of
             Inl e \<Rightarrow> r1
           | Inr c \<Rightarrow> r1\<lparr>rn_server := accept_conn now remote c (rn_server r)\<rparr>))"

definition acceptTCP :: "int \<Rightarrow> (string \<times> conn) res \<Rightarrow> server_run \<Rightarrow> server_run" where
  "acceptTCP now accepted r =
     (if \<not> rn_tcp r then r
      else case accepted of
        Inl e \<Rightarrow> r\<lparr>rn_errCh := rn_errCh r @ [e], rn_tcp := False\<rparr>
      | Inr (remote, c) \<Rightarrow> r\<lparr>rn_server := accept_conn now remote c (rn_server r)\<rparr>)"

section \<open>The end\<close>

text \<open>The select of \<open>Run\<close>: the context has ended, or an error has come; no change when neither is so.\<close>

definition run_done :: "server_run \<Rightarrow> server_run" where
  "run_done r = (if rn_result r = None \<and> rn_canceled r then r\<lparr>rn_open := False, rn_result := Some (Some Canceled)\<rparr> else r)"

definition run_error :: "server_run \<Rightarrow> server_run" where
  "run_error r =
     (case (rn_result r, rn_errCh r) of
        (None, e # es) \<Rightarrow>
          r\<lparr>rn_errCh := es, rn_open := False,
            rn_result := Some (if errors_Is e ErrClosed \<or> errors_Is e Canceled then None else Some e)\<rparr>
      | _ \<Rightarrow> r)"

inductive run_step :: "server_run \<Rightarrow> server_run \<Rightarrow> bool" where
  run_cancel: "run_step r (r\<lparr>rn_canceled := True\<rparr>)"
| run_quic: "rn_open r \<or> (\<exists>e. accepted = Inl e) \<Longrightarrow> run_step r (acceptQUIC accepted r)"
| run_control: "k < length (rn_streams r) \<Longrightarrow> run_step r (control_ready now stream k r)"
| run_tcp: "rn_open r \<or> (\<exists>e. accepted = Inl e) \<Longrightarrow> run_step r (acceptTCP now accepted r)"
| run_serve: "sv_step (rn_server r) sv \<Longrightarrow> length (sv_handlers sv) = length (sv_handlers (rn_server r)) \<Longrightarrow> run_step r (r\<lparr>rn_server := sv\<rparr>)"
| run_end: "run_step r (run_done r)"
| run_fail: "run_step r (run_error r)"

definition run_init :: "server_run \<Rightarrow> bool" where
  "run_init r \<longleftrightarrow> (\<exists>q t sv. sv_init sv \<and> run_listen q t sv = Inr r)"

interpretation rn: transition_system run_init run_step .

section \<open>Properties\<close>

lemma run_reach_server: "rn.reach r \<Longrightarrow> sv.reach (rn_server r)"
proof (rule rn.reach_invariant)
  show "run_init r \<Longrightarrow> sv.reach (rn_server r)" for r
    by (auto simp: run_init_def run_listen_def intro: sv.reach_init split: if_splits sum.splits option.splits)
  fix r r'
  assume v: "sv.reach (rn_server r)" and "run_step r r'"
  from this(2) show "sv.reach (rn_server r')"
    by cases (use v sv.reach_step [OF v sv_accept] sv.reach_step [OF v] in
      \<open>auto simp: acceptQUIC_def control_ready_def acceptTCP_def run_done_def run_error_def Let_def split: sum.splits option.splits list.splits\<close>)
qed

definition stopped_loops :: "server_run \<Rightarrow> nat" where
  "stopped_loops r = of_bool (\<not> rn_quic r) + of_bool (\<not> rn_tcp r)"

definition run_ok :: "server_run \<Rightarrow> bool" where
  "run_ok r \<longleftrightarrow> (rn_open r \<longleftrightarrow> rn_result r = None) \<and> length (rn_errCh r) \<le> stopped_loops r
     \<and> (rn_result r = None \<longrightarrow> length (rn_errCh r) = stopped_loops r)
     \<and> (rn_result r \<noteq> None \<longrightarrow> rn_canceled r \<or> 0 < stopped_loops r)"

lemma run_step_ok: "run_step r r' \<Longrightarrow> run_ok r \<Longrightarrow> run_ok r'"
  by (induction rule: run_step.induct)
    (auto simp: run_ok_def stopped_loops_def acceptQUIC_def control_ready_def acceptTCP_def run_done_def run_error_def Let_def
      split: sum.splits option.splits list.splits prod.splits if_splits)

lemma run_reach_ok: "rn.reach r \<Longrightarrow> run_ok r"
proof (rule rn.reach_invariant)
  show "run_init r \<Longrightarrow> run_ok r" for r
    by (auto simp: run_init_def run_listen_def run_ok_def stopped_loops_def split: if_splits sum.splits option.splits)
qed (auto intro: run_step_ok)

text \<open>
  C31 (running the server). However its loops and connections interleave, the server's tables stay consistent, the channel of
  errors never fills its three places, and the listeners are open exactly until \<open>Run\<close> returns. \<open>Run\<close> returns
  only when the context has ended or an accept loop has, and then its select does return: a single
  failure of one listener ends the server.
\<close>

theorem server_run_ends:
  assumes "rn.reach r"
  shows "sv_ok (rn_server r) \<and> length (rn_errCh r) \<le> 2 \<and> (rn_open r \<longleftrightarrow> rn_result r = None)
    \<and> (rn_result r \<noteq> None \<longrightarrow> rn_canceled r \<or> \<not> rn_quic r \<or> \<not> rn_tcp r)
    \<and> (rn_canceled r \<or> \<not> rn_quic r \<or> \<not> rn_tcp r \<longrightarrow> rn_result (run_error (run_done r)) \<noteq> None)"
proof -
  have o: "run_ok r" by (rule run_reach_ok [OF assms])
  then have "length (rn_errCh r) \<le> 2" "rn_open r \<longleftrightarrow> rn_result r = None"
    "rn_result r \<noteq> None \<longrightarrow> rn_canceled r \<or> \<not> rn_quic r \<or> \<not> rn_tcp r"
    by (auto simp: run_ok_def stopped_loops_def of_bool_def split: if_splits)
  moreover have "rn_result (run_error (run_done r)) \<noteq> None" if "rn_canceled r \<or> \<not> rn_quic r \<or> \<not> rn_tcp r"
    using o that by (cases "rn_errCh r"; cases "rn_result r") (auto simp: run_ok_def stopped_loops_def run_error_def run_done_def)
  moreover have "sv_ok (rn_server r)" by (rule reach_sv_ok [OF run_reach_server [OF assms]])
  ultimately show ?thesis by blast
qed

lemma run_listen_fresh: "run_listen q t sv = Inr r \<Longrightarrow> rn_tcp r \<and> rn_result r = None \<and> rn_errCh r = []"
  by (auto simp: run_listen_def split: if_splits sum.splits option.splits)

definition ex_running :: server_run where
  "ex_running = projr (run_listen (Inr ''l:1'', True) (\<lambda>_. None) (NewServer 0 (ex_config\<lparr>nd_ListenAddress := ''l:1''\<rparr>) ex_verifier))"

theorem server_run_ends_witness:
  "\<exists>r. r = run_error (acceptTCP 5 (Inl (Msg ''too many open files'')) ex_running) \<and> rn_result r = Some (Some (Msg ''too many open files''))
     \<and> sv_ok (rn_server r) \<and> \<not> rn_open r"
proof -
  let ?r = "run_error (acceptTCP 5 (Inl (Msg ''too many open files'')) ex_running)"
  have l: "run_listen (Inr ''l:1'', True) (\<lambda>_. None) (NewServer 0 (ex_config\<lparr>nd_ListenAddress := ''l:1''\<rparr>) ex_verifier) = Inr ex_running"
    by (simp add: ex_running_def run_listen_def NewServer_def)
  have "run_init ex_running" unfolding run_init_def sv_init_def using l by blast
  then have "rn.reach ex_running" by (rule rn.reach_init)
  then have "rn.reach (acceptTCP 5 (Inl (Msg ''too many open files'')) ex_running)" by (rule rn.reach_step) (rule run_tcp, simp)
  then have re: "rn.reach ?r" by (rule rn.reach_step) (rule run_fail)
  have "rn_result ?r = Some (Some (Msg ''too many open files''))"
  proof -
    have "\<not> errors_Is (Msg ''too many open files'') ErrClosed" "\<not> errors_Is (Msg ''too many open files'') Canceled"
      by (simp_all add: errors_Is_def)
    moreover have "rn_tcp ex_running" "rn_result ex_running = None" "rn_errCh ex_running = []"
      using run_listen_fresh [OF l] by blast+
    ultimately show ?thesis by (simp add: acceptTCP_def run_error_def)
  qed
  with server_run_ends [OF re] show ?thesis by (intro exI [of _ ?r]) simp
qed

end
