(* ===== verification/Relay.thy ===== *)
theory Relay
  imports SessionProps
begin

text \<open>
  \<open>src/internal/session/relay.go\<close>: one direction of \<open>Relay\<close> is \<open>io.Copy\<close> followed by the half-close of
  the destination. The contract a stream's receiving side keeps (a queue of bytes with a regular
  end) is the locale \<open>byte_queue\<close>; that copying moves every byte and then stops is proved there
  once, and reaches the relay through the interpretation on the streams of a session.
\<close>

section \<open>Copying\<close>

text \<open>
  \<open>io.Copy\<close> from a reader with the outcomes \<open>rd\<close> to a writer \<open>wr\<close>, with a buffer of \<open>n\<close> bytes: every
  way in which the loop can end within \<open>k\<close> rounds, as the error (none at a regular end), the
  reader and the writer it leaves. No outcome is a loop that waits for data.
\<close>

fun io_Copy :: "(nat \<Rightarrow> 'q \<Rightarrow> (read_result \<times> 'q) list) \<Rightarrow> (bytes \<Rightarrow> 'w \<Rightarrow> nat \<times> error option \<times> 'w)
    \<Rightarrow> nat \<Rightarrow> nat \<Rightarrow> 'q \<Rightarrow> 'w \<Rightarrow> (error option \<times> 'q \<times> 'w) list" where
  "io_Copy rd wr 0 n q w = []"
| "io_Copy rd wr (Suc k) n q w =
     concat (map (\<lambda>(x, q').
       case x of
         ReadFail e \<Rightarrow> [(if e = EOF then None else Some e, q', w)]
       | ReadBytes d \<Rightarrow>
           (case wr d w of
              (m, Some e, w') \<Rightarrow> [(Some e, q', w')]
            | (m, None, w') \<Rightarrow>
                if m \<noteq> length d then [(Some (Msg ''short write''), q', w')]
                else io_Copy rd wr k n q' w')) (rd n q))"

text \<open>
  The contract of a queue of bytes with a regular end: what is pushed comes out in order, and a
  queue that has ended is read to its last byte before the end shows.
\<close>

locale byte_queue =
  fixes inv :: "'q \<Rightarrow> bool"
    and abs :: "'q \<Rightarrow> bytes"
    and push :: "bytes \<Rightarrow> 'q \<Rightarrow> 'q list"
    and pop :: "nat \<Rightarrow> 'q \<Rightarrow> (read_result \<times> 'q) list"
    and ended :: "'q \<Rightarrow> bool"
  assumes push_abs: "inv q \<Longrightarrow> q' \<in> set (push d q) \<Longrightarrow> abs q' = abs q @ d \<and> inv q'"
    and pop_bytes: "inv q \<Longrightarrow> (ReadBytes d, q') \<in> set (pop n q) \<Longrightarrow>
      abs q = d @ abs q' \<and> length d \<le> n \<and> (0 < n \<longrightarrow> d \<noteq> []) \<and> inv q'"
    and pop_ended: "inv q \<Longrightarrow> ended q \<Longrightarrow> \<exists>x q'. pop n q = [(x, q')]"
    and pop_ended_bytes: "inv q \<Longrightarrow> ended q \<Longrightarrow> (ReadBytes d, q') \<in> set (pop n q) \<Longrightarrow> ended q'"
    and pop_ended_fail: "inv q \<Longrightarrow> ended q \<Longrightarrow> (ReadFail e, q') \<in> set (pop n q) \<Longrightarrow> e = EOF \<and> abs q = [] \<and> q' = q"
begin

text \<open>Every read out of a run of pushes and reads, in order, is a prefix of what was pushed.\<close>

inductive traffic :: "'q \<Rightarrow> bytes \<Rightarrow> bytes \<Rightarrow> 'q \<Rightarrow> bool" where
  traffic_start: "traffic q [] [] q"
| traffic_push: "traffic q i out q1 \<Longrightarrow> q2 \<in> set (push d q1) \<Longrightarrow> traffic q (i @ d) out q2"
| traffic_pop: "traffic q i out q1 \<Longrightarrow> (ReadBytes d, q2) \<in> set (pop n q1) \<Longrightarrow> traffic q i (out @ d) q2"

lemma traffic_fifo: "traffic q i out q' \<Longrightarrow> inv q \<Longrightarrow> inv q' \<and> out @ abs q' = abs q @ i"
proof (induction rule: traffic.induct)
  case (traffic_push q i out q1 q2 d)
  then show ?case using push_abs by fastforce
next
  case (traffic_pop q i out q1 d q2 n)
  then show ?case using pop_bytes by fastforce
qed simp

lemma copy_to_end:
  assumes "inv q" "ended q" "0 < n" "length (abs q) < k"
    and put: "\<And>d w. good w \<Longrightarrow> d \<noteq> [] \<Longrightarrow> wr d w = (length d, None, put d w) \<and> good (put d w)" and "good w"
  shows "\<exists>ds q'. concat ds = abs q \<and> abs q' = [] \<and> inv q' \<and> good (fold put ds w)
    \<and> io_Copy pop wr k n q w = [(None, q', fold put ds w)]"
  using assms(1-4,6)
proof (induction k arbitrary: q w)
  case (Suc k)
  obtain x q' where p: "pop n q = [(x, q')]"
    using pop_ended [OF Suc.prems(1,2)] by blast
  then have mem: "(x, q') \<in> set (pop n q)" by simp
  show ?case
  proof (cases x)
    case (ReadBytes d)
    note b = pop_bytes [OF Suc.prems(1) mem [unfolded ReadBytes]]
    have "ended q'" by (rule pop_ended_bytes [OF Suc.prems(1,2) mem [unfolded ReadBytes]])
    moreover have ne: "d \<noteq> []" using b Suc.prems(3) by auto
    moreover have "length (abs q') < k" using b ne Suc.prems(4) by (cases d) auto
    moreover note w = put [OF Suc.prems(5) ne]
    ultimately obtain ds q2 where "concat ds = abs q'" "abs q2 = []" "inv q2" "good (fold put ds (put d w))"
      "io_Copy pop wr k n q' (put d w) = [(None, q2, fold put ds (put d w))]"
      using Suc.IH [of q' "put d w"] b Suc.prems(3) by blast
    with p ReadBytes b w show ?thesis by (intro exI [of _ "d # ds"]) auto
  next
    case (ReadFail e)
    then show ?thesis
      using pop_ended_fail [OF Suc.prems(1,2), of e q' n] p Suc.prems(1,5)
      by (intro exI [of _ "[]"]) simp
  qed
qed simp

end

section \<open>A stream is a byte queue\<close>

definition stream_push :: "nat \<Rightarrow> bytes \<Rightarrow> stream \<Rightarrow> stream list" where
  "stream_push cap d st = List.map_filter (\<lambda>x. case x of Delivered st' \<Rightarrow> Some st' | _ \<Rightarrow> None) (Stream_deliver cap d st)"

text \<open>The peer has closed its side and nothing has forced the stream closed.\<close>

definition stream_ended :: "stream \<Rightarrow> bool" where
  "stream_ended st \<longleftrightarrow> st_remoteEOF st \<and> \<not> st_closeOnce st"

lemma stream_push_iff: "st' \<in> set (stream_push cap d st) \<longleftrightarrow> Delivered st' \<in> set (Stream_deliver cap d st)"
  by (force simp: stream_push_def List.map_filter_def split: delivery.splits)

lemma Stream_Read_ended:
  assumes "stream_ok cap st" "stream_ended st"
  shows "\<exists>x st'. Stream_Read n st = [(x, st')]" and "(x, st') \<in> set (Stream_Read n st) \<Longrightarrow> stream_ended st'"
    and "(ReadFail e, st') \<in> set (Stream_Read n st) \<Longrightarrow> e = EOF \<and> pending st = [] \<and> st' = st"
  using assms
  by (auto simp: Stream_Read_def read_fill.simps [of n "st_reads st" st] read_take_def stream_ended_def
      stream_ok_def pending_def split: list.splits if_splits)

interpretation sq: byte_queue "stream_ok cap" pending "stream_push cap" Stream_Read stream_ended for cap
proof unfold_locales
  fix q q' d assume q: "stream_ok cap q" "q' \<in> set (stream_push cap d q)"
  then show "pending q' = pending q @ d \<and> stream_ok cap q'"
    using deliver_pending [of q' cap d q] deliver_ok [of cap q q' d] by (simp add: stream_push_iff)
next
  fix q q' d n assume "stream_ok cap q" "(ReadBytes d, q') \<in> set (Stream_Read n q)"
  from Read_pending [OF this] Stream_Read_ok [OF this]
  show "pending q = d @ pending q' \<and> length d \<le> n \<and> (0 < n \<longrightarrow> d \<noteq> []) \<and> stream_ok cap q'" by auto
qed (auto dest: Stream_Read_ended)

section \<open>Relaying\<close>

definition copy_buffer :: nat where "copy_buffer = 32 * 1024"

text \<open>
  \<open>copyDirection(dst, src)\<close> between a stream \<open>r\<close> of one session and a stream \<open>r'\<close> of another one, as
  the server relays them: \<open>io.Copy\<close>, its error ignored, then \<open>CloseWrite\<close> on the destination.
\<close>

definition copyDirection :: "nat \<Rightarrow> nat \<Rightarrow> nat \<Rightarrow> session \<Rightarrow> session \<Rightarrow> (session \<times> session) list" where
  "copyDirection k dst src sd ss =
     map (\<lambda>(e, st, sd'). (snd (Stream_CloseWrite dst sd'), upd src (\<lambda>_. st) ss))
       (io_Copy Stream_Read (Stream_Write dst) k copy_buffer (deref ss src) sd)"

text \<open>A stream that can be written to, on a session that can write.\<close>

definition writable :: "nat \<Rightarrow> session \<Rightarrow> bool" where
  "writable r s \<longleftrightarrow> r < length (ss_heap s) \<and> st_writeErr (deref s r) = None \<and> \<not> st_closed (deref s r)
     \<and> (\<exists>c. healthy s c)"

definition put_data :: "nat \<Rightarrow> bytes \<Rightarrow> session \<Rightarrow> session" where
  "put_data r d s = sent (map (data_frame (st_id (deref s r))) (chunks d)) s (the (ss_conn s))"

lemma healthy_conn: "healthy s c \<Longrightarrow> the (ss_conn s) = c"
  by (simp add: healthy_def)

lemma put_data_heap [simp]: "ss_heap (put_data r d s) = ss_heap s"
  by (simp add: put_data_def)

lemma Stream_Write_writable:
  assumes "writable r s" "d \<noteq> []"
  shows "Stream_Write r d s = (length d, None, put_data r d s) \<and> writable r (put_data r d s)"
proof -
  obtain c where c: "healthy s c" using assms by (auto simp: writable_def)
  then have "Stream_Write r d s = (length d, None, put_data r d s)"
    using assms write_chunks_healthy [OF c, of r d]
    by (simp add: Stream_Write_def writable_def put_data_def healthy_conn)
  moreover have "\<exists>c. healthy (put_data r d s) c"
    using healthy_sent [OF c] c by (auto simp: put_data_def healthy_conn)
  ultimately show ?thesis using assms by (simp add: writable_def)
qed

lemma fold_put_data:
  assumes "healthy s c"
  shows "fold (put_data r) ds s = sent (map (data_frame (st_id (deref s r))) (concat (map chunks ds))) s c"
  using assms
proof (induction ds arbitrary: s c)
  case Nil
  then show ?case by (simp add: sent_Nil)
next
  case (Cons d ds)
  let ?fs = "map (data_frame (st_id (deref s r))) (chunks d)"
  have "put_data r d s = sent ?fs s c" using Cons.prems by (simp add: put_data_def healthy_conn)
  with Cons.IH [OF healthy_sent [OF Cons.prems, of ?fs]] show ?case by (simp add: sent_def comp_def)
qed

lemma concat_concat_chunks: "concat (concat (map chunks ds)) = concat ds"
  by (induction ds) simp_all

text \<open>The half-close on a session that can write.\<close>

lemma CloseWrite_healthy:
  assumes "healthy s c" "r < length (ss_heap s)" "\<not> st_closed (deref s r)" "\<not> st_localEOF (deref s r)"
  shows "Stream_CloseWrite r s = (None, sent [close_frame (st_id (deref s r))] (upd r (\<lambda>st. st\<lparr>st_localEOF := True\<rparr>) s) c)"
proof -
  have "healthy (upd r (\<lambda>st. st\<lparr>st_localEOF := True\<rparr>) s) c"
    using assms(1) by (simp add: healthy_def upd_def)
  from writeFrame_healthy [OF this close_frame_ok] assms show ?thesis
    by (simp add: Stream_CloseWrite_def close_frame_def)
qed

text \<open>What copying leaves on the wire, once the destination is half-closed.\<close>

lemma half_close_after_copy:
  assumes "writable dst sd" and "healthy sd c" and "\<not> st_localEOF (deref sd dst)"
  shows "\<exists>fs. ss_conn (snd (Stream_CloseWrite dst (fold (put_data dst) ds sd)))
      = Some (c\<lparr>wout := wout c @ concat (map frame_bytes (fs @ [close_frame (st_id (deref sd dst))]))\<rparr>)
    \<and> concat (map Payload fs) = concat ds
    \<and> (\<forall>f \<in> set fs. Type f = FrameData \<and> ID f = st_id (deref sd dst) \<and> length (Payload f) \<le> MaxDataSize)"
proof -
  let ?i = "st_id (deref sd dst)" and ?cs = "concat (map chunks ds)"
  let ?sd = "sent (map (data_frame ?i) ?cs) sd c"
  have "Stream_CloseWrite dst ?sd = (None, sent [close_frame ?i] (upd dst (\<lambda>st. st\<lparr>st_localEOF := True\<rparr>) ?sd)
      (c\<lparr>wout := wout c @ concat (map frame_bytes (map (data_frame ?i) ?cs))\<rparr>))"
    using CloseWrite_healthy [OF healthy_sent [OF assms(2)], of dst "map (data_frame ?i) ?cs"] assms(1,3)
    by (simp add: writable_def)
  then have "ss_conn (snd (Stream_CloseWrite dst (fold (put_data dst) ds sd)))
      = Some (c\<lparr>wout := wout c @ concat (map frame_bytes (map (data_frame ?i) ?cs @ [close_frame ?i]))\<rparr>)"
    by (simp add: fold_put_data [OF assms(2)] sent_def)
  moreover have "concat (map Payload (map (data_frame ?i) ?cs)) = concat ds"
    by (simp add: comp_def data_frame_def concat_concat_chunks)
  moreover have "\<forall>x \<in> set ?cs. length x \<le> MaxDataSize" using chunks_bounded by auto
  then have "\<forall>f \<in> set (map (data_frame ?i) ?cs). Type f = FrameData \<and> ID f = ?i \<and> length (Payload f) \<le> MaxDataSize"
    by (auto simp: data_frame_def)
  ultimately show ?thesis by blast
qed

section \<open>Properties\<close>

text \<open>
  C4 (refinement). A stream's receiving side is a first-in-first-out queue of bytes: over any
  sequence of deliveries and reads, the bytes read so far followed by the bytes still pending are
  the bytes that were pending at the start followed by those delivered, nothing lost, duplicated
  or reordered.
\<close>

theorem stream_fifo:
  assumes "sq.traffic cap st delivered read st'" and "stream_ok cap st"
  shows "read @ pending st' = pending st @ delivered"
  using sq.traffic_fifo [OF assms] by simp

theorem stream_fifo_witness:
  "\<exists>st'. sq.traffic 32 (newStream 1) [5, 6, 7] [5] st' \<and> [5] @ pending st' = [5, 6, 7]"
proof -
  let ?s1 = "(newStream 1)\<lparr>st_reads := [[5, 6, 7]]\<rparr>"
  let ?s2 = "(newStream 1)\<lparr>st_readBuf := [6, 7]\<rparr>"
  have "?s1 \<in> set (stream_push 32 [5, 6, 7] (newStream 1))"
    by (simp add: stream_push_iff Stream_deliver_def newStream_def)
  from sq.traffic_push [OF sq.traffic_start this]
  have "sq.traffic 32 (newStream 1) [5, 6, 7] [] ?s1" by simp
  moreover have "(ReadBytes [5], ?s2) \<in> set (Stream_Read 1 ?s1)"
    by (simp add: Stream_Read_def read_fill.simps read_take_def newStream_def)
  ultimately have t: "sq.traffic 32 (newStream 1) [5, 6, 7] [5] ?s2"
    by (auto dest: sq.traffic_pop)
  have "[5] @ pending ?s2 = pending (newStream 1) @ [5, 6, 7]"
    by (rule stream_fifo [OF t newStream_ok(1)])
  with t show ?thesis by (auto simp: pending_def newStream_def)
qed

text \<open>
  Remark (relay). When the peer has closed its side of a stream, a relay from it to a writable stream
  ends, in one way only, after at most one round per pending byte and one more: every pending byte
  has gone out, in order, in data frames of the destination's ID within the payload limit, followed
  by exactly one close frame; nothing is pending any more.
\<close>

theorem relay_forwards_everything:
  assumes "stream_ok cap (deref ss src)" and "stream_ended (deref ss src)" and "src < length (ss_heap ss)"
    and "writable dst sd" and "healthy sd c" and "\<not> st_localEOF (deref sd dst)"
    and "length (pending (deref ss src)) < k"
  shows "\<exists>fs sd' ss'. copyDirection k dst src sd ss = [(sd', ss')]
    \<and> ss_conn sd' = Some (c\<lparr>wout := wout c @ concat (map frame_bytes (fs @ [close_frame (st_id (deref sd dst))]))\<rparr>)
    \<and> concat (map Payload fs) = pending (deref ss src) \<and> pending (deref ss' src) = []
    \<and> (\<forall>f \<in> set fs. Type f = FrameData \<and> ID f = st_id (deref sd dst) \<and> length (Payload f) \<le> MaxDataSize)"
proof -
  obtain ds q' where d: "concat ds = pending (deref ss src)" "pending q' = []"
    "io_Copy Stream_Read (Stream_Write dst) k copy_buffer (deref ss src) sd = [(None, q', fold (put_data dst) ds sd)]"
    using sq.copy_to_end [OF assms(1,2) _ assms(7), of copy_buffer "writable dst" "Stream_Write dst" "put_data dst" sd]
      Stream_Write_writable assms(4) by (auto simp: copy_buffer_def)
  have "copyDirection k dst src sd ss = [(snd (Stream_CloseWrite dst (fold (put_data dst) ds sd)), upd src (\<lambda>_. q') ss)]"
    using d(3) by (simp add: copyDirection_def)
  moreover have "pending (deref (upd src (\<lambda>_. q') ss) src) = []" using d(2) assms(3) by (simp add: upd_def)
  ultimately show ?thesis using half_close_after_copy [OF assms(4-6), of ds] d(1) by auto
qed

definition ex_ended :: session where
  "ex_ended = upd 0 (\<lambda>st. st\<lparr>st_reads := [[7], [8, 9]], st_remoteEOF := True, st_readsClosed := True\<rparr>) ex_session"

theorem relay_forwards_everything_witness:
  "\<exists>fs sd' ss'. copyDirection 4 0 0 ex_session ex_ended = [(sd', ss')] \<and> concat (map Payload fs) = [7, 8, 9]
     \<and> ss_conn sd' = Some (conn_of []\<lparr>wout := concat (map frame_bytes (fs @ [close_frame 1]))\<rparr>)"
proof -
  have st: "stream_ok (ss_BufferSize ex_ended) (deref ex_ended 0)" "stream_ended (deref ex_ended 0)" "0 < length (ss_heap ex_ended)"
    "pending (deref ex_ended 0) = [7, 8, 9]"
    by (simp_all add: ex_ended_def ex_session_def New_def upd_def newStream_def stream_ok_def stream_ended_def pending_def)
  have w: "writable 0 ex_session" "\<not> st_localEOF (deref ex_session 0)" "st_id (deref ex_session 0) = 1"
    using healthy_ex by (auto simp: writable_def ex_session_def newStream_def)
  show ?thesis
    using relay_forwards_everything [OF st(1-3) w(1) healthy_ex w(2), of 4] st(4) w(3)
    by (auto simp: conn_of_def)
qed

end
