(* ===== verification/ProxyRelay.thy ===== *)
theory ProxyRelay
  imports Relay
begin

text \<open>
  \<open>Relay\<close> of \<open>src/internal/proxy/dialer.go\<close>, between an application's connection to a local proxy and a stream of the
  client's session: each direction is \<open>io.Copy\<close> followed by a half-close. A connection that is read keeps the contract
  \<open>byte_queue\<close> of the streams, so that what was proved of copying holds for both directions.
\<close>

section \<open>Sockets\<close>

text \<open>\<open>sk_sizes\<close> says how many bytes the coming reads get; \<open>sk_half\<close> that the writing side is closed.\<close>

record socket =
  sk_conn :: conn
  sk_sizes :: "nat list"
  sk_half :: bool

definition socket_Read :: "nat \<Rightarrow> socket \<Rightarrow> (read_result \<times> socket) list" where
  "socket_Read n k =
     (let c = sk_conn k in
      if rbuf c = [] then [(ReadFail (rend c), k)]
      else
        let m = min n (min (length (rbuf c)) (max 1 (case sk_sizes k of [] \<Rightarrow> n | z # zs \<Rightarrow> z)))
        in [(ReadBytes (take m (rbuf c)), k\<lparr>sk_conn := c\<lparr>rbuf := drop m (rbuf c)\<rparr>, sk_sizes := tl (sk_sizes k)\<rparr>)])"

definition socket_Write :: "bytes \<Rightarrow> socket \<Rightarrow> nat \<times> error option \<times> socket" where
  "socket_Write p k =
     (case wres (sk_conn k) of
        Some (n, e) # rs \<Rightarrow> (min n (length p), Some e, k\<lparr>sk_conn := snd (io_Write p (sk_conn k))\<rparr>)
      | _ \<Rightarrow> (length p, None, k\<lparr>sk_conn := snd (io_Write p (sk_conn k))\<rparr>))"

definition socket_CloseWrite :: "socket \<Rightarrow> socket" where
  "socket_CloseWrite k = k\<lparr>sk_half := True\<rparr>"

definition socket_push :: "bytes \<Rightarrow> socket \<Rightarrow> socket list" where
  "socket_push d k = [k\<lparr>sk_conn := (sk_conn k)\<lparr>rbuf := rbuf (sk_conn k) @ d\<rparr>\<rparr>]"

interpretation app: byte_queue "\<lambda>_. True" "\<lambda>k. rbuf (sk_conn k)" socket_push socket_Read "\<lambda>k. rend (sk_conn k) = EOF"
  by unfold_locales (auto simp: socket_push_def socket_Read_def Let_def split: if_splits list.splits)

section \<open>Relaying\<close>

text \<open>\<open>copyOne\<close> from the application to the stream, and back.\<close>

definition copyOne_up :: "nat \<Rightarrow> nat \<Rightarrow> session \<Rightarrow> socket \<Rightarrow> (session \<times> socket) list" where
  "copyOne_up n r s k =
     map (\<lambda>(e, k1, s1). (snd (Stream_CloseWrite r s1), k1)) (io_Copy socket_Read (Stream_Write r) n copy_buffer k s)"

definition copyOne_down :: "nat \<Rightarrow> nat \<Rightarrow> session \<Rightarrow> socket \<Rightarrow> (session \<times> socket) list" where
  "copyOne_down n r s k =
     map (\<lambda>(e, st, k1). (upd r (\<lambda>_. st) s, socket_CloseWrite k1)) (io_Copy Stream_Read socket_Write n copy_buffer (deref s r) k)"

text \<open>
  Remark (local relay). However the system cuts what an application sends into reads, once it has sent everything the upward
  direction ends, with all its bytes sent in order in data frames of the stream followed by one close frame. Once the peer
  has closed the stream, the downward direction ends, with every pending byte written to the application in
  order and its connection half-closed; neither direction disturbs the other's bytes.
\<close>

theorem local_relay_forwards:
  assumes "writable r s" and "healthy s c" and "\<not> st_localEOF (deref s r)" and "rend (sk_conn k) = EOF"
    and "stream_ok cap (deref s r)" and "stream_ended (deref s r)" and "wres (sk_conn k) = []"
    and "length (rbuf (sk_conn k)) < n" and "length (pending (deref s r)) < n"
  shows "\<exists>s1 k1 fs s2. copyOne_up n r s k = [(s1, k1)] \<and> rbuf (sk_conn k1) = [] \<and> concat (map Payload fs) = rbuf (sk_conn k)
    \<and> ss_conn s1 = Some (c\<lparr>wout := wout c @ concat (map frame_bytes (fs @ [close_frame (st_id (deref s r))]))\<rparr>)
    \<and> (\<forall>f \<in> set fs. Type f = FrameData \<and> ID f = st_id (deref s r) \<and> length (Payload f) \<le> MaxDataSize)
    \<and> copyOne_down n r s k = [(s2, k\<lparr>sk_conn := (sk_conn k)\<lparr>wout := wout (sk_conn k) @ pending (deref s r)\<rparr>, sk_half := True\<rparr>)]
    \<and> ss_conn s2 = ss_conn s \<and> pending (deref s2 r) = []"
proof -
  obtain ds k1 where u: "concat ds = rbuf (sk_conn k)" "rbuf (sk_conn k1) = []"
    "io_Copy socket_Read (Stream_Write r) n copy_buffer k s = [(None, k1, fold (put_data r) ds s)]"
    using app.copy_to_end [OF TrueI assms(4) _ assms(8), of copy_buffer "writable r" "Stream_Write r" "put_data r" s]
      Stream_Write_writable assms(1) by (auto simp: copy_buffer_def)
  let ?put = "\<lambda>d k. k\<lparr>sk_conn := (sk_conn k)\<lparr>wout := wout (sk_conn k) @ d\<rparr>\<rparr>"
  have puts: "fold ?put ds k = k\<lparr>sk_conn := (sk_conn k)\<lparr>wout := wout (sk_conn k) @ concat ds\<rparr>\<rparr>" for ds and k :: socket
    by (induction ds arbitrary: k) simp_all
  obtain es st where d: "concat es = pending (deref s r)" "pending st = []"
    "io_Copy Stream_Read socket_Write n copy_buffer (deref s r) k = [(None, st, fold ?put es k)]"
    using sq.copy_to_end [OF assms(5,6) _ assms(9), of copy_buffer "\<lambda>k. wres (sk_conn k) = []" socket_Write ?put k] assms(7)
    by (auto simp: copy_buffer_def socket_Write_def io_Write_def)
  have "copyOne_down n r s k = [(upd r (\<lambda>_. st) s, k\<lparr>sk_conn := (sk_conn k)\<lparr>wout := wout (sk_conn k) @ pending (deref s r)\<rparr>, sk_half := True\<rparr>)]"
    using d by (simp add: copyOne_down_def puts socket_CloseWrite_def)
  moreover have "pending (deref (upd r (\<lambda>_. st) s) r) = []" "ss_conn (upd r (\<lambda>_. st) s) = ss_conn s"
    using d(2) assms(1) by (simp_all add: upd_def writable_def)
  moreover have "copyOne_up n r s k = [(snd (Stream_CloseWrite r (fold (put_data r) ds s)), k1)]"
    using u(3) by (simp add: copyOne_up_def)
  ultimately show ?thesis using half_close_after_copy [OF assms(1-3), of ds] u(1,2) by auto
qed

theorem local_relay_forwards_witness:
  "\<exists>s1 k1 fs s2 k2. copyOne_up 4 0 ex_ended \<lparr>sk_conn = conn_of [1, 2, 3], sk_sizes = [1], sk_half = False\<rparr> = [(s1, k1)]
     \<and> concat (map Payload fs) = [1, 2, 3] \<and> ss_conn s1 = Some (conn_of []\<lparr>wout := concat (map frame_bytes (fs @ [close_frame 1]))\<rparr>)
     \<and> copyOne_down 4 0 ex_ended \<lparr>sk_conn = conn_of [1, 2, 3], sk_sizes = [1], sk_half = False\<rparr> = [(s2, k2)] \<and> wout (sk_conn k2) = [7, 8, 9]"
proof -
  let ?k = "\<lparr>sk_conn = conn_of [1, 2, 3], sk_sizes = [1], sk_half = False\<rparr>"
  have st: "stream_ok (ss_BufferSize ex_ended) (deref ex_ended 0)" "stream_ended (deref ex_ended 0)" "pending (deref ex_ended 0) = [7, 8, 9]"
    "\<not> st_localEOF (deref ex_ended 0)" "st_id (deref ex_ended 0) = 1"
    by (simp_all add: ex_ended_def ex_session_def New_def upd_def newStream_def stream_ok_def stream_ended_def pending_def)
  have h: "healthy ex_ended (conn_of [])" using healthy_ex by (simp add: healthy_def ex_ended_def upd_def)
  then have w: "writable 0 ex_ended"
    by (auto simp: writable_def ex_ended_def ex_session_def upd_def newStream_def)
  have k: "rend (sk_conn ?k) = EOF" "wres (sk_conn ?k) = []" "rbuf (sk_conn ?k) = [1, 2, 3]" "wout (sk_conn ?k) = []" by (simp_all add: conn_of_def)
  from local_relay_forwards [OF w h st(4) k(1) st(1,2) k(2), of 4] st(3,5) k(3,4) show ?thesis
    by (fastforce simp: conn_of_def)
qed

end
