(* ===== verification/Path.thy ===== *)
theory Path
  imports ProxyRelay
begin

text \<open>
  The whole path of a connection: an application and its target, joined by the relays of the client (\<open>Relay\<close> of
  \<open>src/internal/proxy/dialer.go\<close>), of the server and of the exit (\<open>Relay\<close> of \<open>src/internal/session/relay.go\<close>) and by the
  two sessions between them, in both directions at once. A relay is its two goroutines, each cut where it may wait; the
  network carries bytes in pieces of any size, and a read loop goes on once a frame is complete. Here are the
  model and what each step does to one direction of a session; \<open>PathProps\<close> has the theorem on all interleavings.
\<close>

section \<open>A copying goroutine\<close>

text \<open>
  \<open>copyDirection\<close> and \<open>copyOne\<close>: the loop of \<open>io.Copy\<close> waits in a read or in a write, then the half-close follows. Both
  errors of \<open>io.Copy\<close> are ignored.
\<close>

datatype copier = Reading | Writing bytes | Closing | Copied

definition copier_step :: "('p \<Rightarrow> (read_result \<times> 'p) list) \<Rightarrow> (bytes \<Rightarrow> 'p \<Rightarrow> nat \<times> error option \<times> 'p) \<Rightarrow> ('p \<Rightarrow> 'p)
    \<Rightarrow> copier \<Rightarrow> 'p \<Rightarrow> (copier \<times> 'p) list" where
  "copier_step rd wr closeWrite x p =
     (case x of
        Reading \<Rightarrow>
          map (\<lambda>(y, p'). (case y of ReadBytes d \<Rightarrow> if d = [] then Reading else Writing d | ReadFail e \<Rightarrow> Closing, p')) (rd p)
      | Writing d \<Rightarrow> (case wr d p of (m, e, p') \<Rightarrow> [(if e = None \<and> m = length d then Reading else Closing, p')])
      | Closing \<Rightarrow> [(Copied, closeWrite p)]
      | Copied \<Rightarrow> [])"

text \<open>What \<open>io_Copy\<close> computes at once is what the goroutine, left alone, has done when it comes to the half-close.\<close>

lemma io_Copy_runs:
  assumes "(e, q', w') \<in> set (io_Copy rd wr k n q w)" and "\<And>q q' d. (ReadBytes d, q') \<in> set (rd n q) \<Longrightarrow> d \<noteq> []"
  shows "(\<lambda>(x, p) z. z \<in> set (copier_step (\<lambda>(q, w). map (\<lambda>(r, q1). (r, q1, w)) (rd n q))
           (\<lambda>d (q, w). case wr d w of (m, e, w1) \<Rightarrow> (m, e, q, w1)) cw x p))\<^sup>*\<^sup>* (Reading, q, w) (Closing, q', w')"
  (is "?S\<^sup>*\<^sup>* _ _")
  using assms(1)
proof (induction k arbitrary: q w)
  case (Suc k)
  then obtain y q1 where y: "(y, q1) \<in> set (rd n q)" and o: "(e, q', w') \<in> set (case y of
         ReadFail e \<Rightarrow> [(if e = EOF then None else Some e, q1, w)]
       | ReadBytes d \<Rightarrow>
           (case wr d w of
              (m, Some e, w') \<Rightarrow> [(Some e, q1, w')]
            | (m, None, w') \<Rightarrow>
                if m \<noteq> length d then [(Some (Msg ''short write''), q1, w')]
                else io_Copy rd wr k n q1 w'))"
    by auto
  show ?case
  proof (cases y)
    case (ReadFail x)
    with y o have "?S (Reading, q, w) (Closing, q', w')" by (force simp: copier_step_def)
    then show ?thesis by (rule r_into_rtranclp)
  next
    case (ReadBytes d)
    with y assms(2) have d: "d \<noteq> []" by blast
    obtain m x w1 where w1: "wr d w = (m, x, w1)" by (cases "wr d w")
    let ?next = "if x = None \<and> m = length d then Reading else Closing"
    have "?S (Reading, q, w) (Writing d, q1, w)" using y d ReadBytes by (force simp: copier_step_def)
    moreover have "?S (Writing d, q1, w) (?next, q1, w1)" using w1 by (auto simp: copier_step_def)
    moreover have "?S\<^sup>*\<^sup>* (?next, q1, w1) (Closing, q', w')"
      using o ReadBytes w1 Suc.IH [of q1 w1] by (auto split: option.splits if_splits)
    ultimately show ?thesis by (meson converse_rtranclp_into_rtranclp)
  qed
qed simp

section \<open>The path\<close>

text \<open>
  The six ends of the path: the application's connection at the client and the client's stream, the streams of the server with the
  client (\<open>Inner\<close>) and with the exit (\<open>Outer\<close>), the exit's stream (\<open>Far\<close>) and its connection to the target. A relay joins an end
  with its \<open>mate\<close>, a session joins a stream with its \<open>peer\<close>. The goroutine \<open>pt_copier p a\<close> copies from \<open>a\<close> to its mate;
  \<open>pt_carried p a\<close> counts the bytes the network has carried of what the session of \<open>a\<close> has written.
\<close>

datatype port = App | Client | Inner | Outer | Far | Target

fun mate :: "port \<Rightarrow> port" where
  "mate App = Client"
| "mate Client = App"
| "mate Inner = Outer"
| "mate Outer = Inner"
| "mate Far = Target"
| "mate Target = Far"

fun peer :: "port \<Rightarrow> port" where
  "peer Client = Inner"
| "peer Inner = Client"
| "peer Outer = Far"
| "peer Far = Outer"
| "peer a = a"

definition is_socket :: "port \<Rightarrow> bool" where
  "is_socket a \<longleftrightarrow> a = App \<or> a = Target"

record path =
  pt_sock :: "port \<Rightarrow> socket"
  pt_sess :: "port \<Rightarrow> session"
  pt_ref :: "port \<Rightarrow> nat"
  pt_carried :: "port \<Rightarrow> nat"
  pt_copier :: "port \<Rightarrow> copier"
  pt_over :: "port \<Rightarrow> bool"

abbreviation pt_stream :: "path \<Rightarrow> port \<Rightarrow> stream" where
  "pt_stream p a \<equiv> deref (pt_sess p a) (pt_ref p a)"

abbreviation put_sock :: "port \<Rightarrow> socket \<Rightarrow> path \<Rightarrow> path" where
  "put_sock a k p \<equiv> p\<lparr>pt_sock := (pt_sock p)(a := k)\<rparr>"

abbreviation put_sess :: "port \<Rightarrow> session \<Rightarrow> path \<Rightarrow> path" where
  "put_sess a s p \<equiv> p\<lparr>pt_sess := (pt_sess p)(a := s)\<rparr>"

definition port_Read :: "port \<Rightarrow> path \<Rightarrow> (read_result \<times> path) list" where
  "port_Read a p =
     (if is_socket a then map (\<lambda>(x, k). (x, put_sock a k p)) (socket_Read copy_buffer (pt_sock p a))
      else map (\<lambda>(x, st). (x, put_sess a (upd (pt_ref p a) (\<lambda>_. st) (pt_sess p a)) p)) (Stream_Read copy_buffer (pt_stream p a)))"

definition port_Write :: "port \<Rightarrow> bytes \<Rightarrow> path \<Rightarrow> nat \<times> error option \<times> path" where
  "port_Write a d p =
     (if is_socket a then (case socket_Write d (pt_sock p a) of (m, e, k) \<Rightarrow> (m, e, put_sock a k p))
      else (case Stream_Write (pt_ref p a) d (pt_sess p a) of (m, e, s) \<Rightarrow> (m, e, put_sess a s p)))"

definition port_CloseWrite :: "port \<Rightarrow> path \<Rightarrow> path" where
  "port_CloseWrite a p =
     (if is_socket a then put_sock a (socket_CloseWrite (pt_sock p a)) p
      else put_sess a (snd (Stream_CloseWrite (pt_ref p a) (pt_sess p a))) p)"

definition socket_Close :: "socket \<Rightarrow> socket" where
  "socket_Close k = k\<lparr>sk_conn := conn_Close (sk_conn k), sk_half := True\<rparr>"

definition port_Close :: "port \<Rightarrow> path \<Rightarrow> path" where
  "port_Close a p =
     (if is_socket a then put_sock a (socket_Close (pt_sock p a)) p
      else put_sess a (snd (Stream_Close (pt_ref p a) (pt_sess p a))) p)"

text \<open>One step of the goroutine that copies from \<open>a\<close>, and the end of \<open>Relay\<close> once both have ended.\<close>

definition copyDirection_step :: "port \<Rightarrow> path \<Rightarrow> path list" where
  "copyDirection_step a p =
     map (\<lambda>(x, p'). p'\<lparr>pt_copier := (pt_copier p')(a := x)\<rparr>)
       (copier_step (port_Read a) (port_Write (mate a)) (port_CloseWrite (mate a)) (pt_copier p a) p)"

definition Relay_end :: "port \<Rightarrow> path \<Rightarrow> path list" where
  "Relay_end a p =
     (if pt_copier p a = Copied \<and> pt_copier p (mate a) = Copied \<and> \<not> pt_over p a
      then [(port_Close (mate a) (port_Close a p))\<lparr>pt_over := (pt_over p)(a := True, mate a := True)\<rparr>] else [])"

text \<open>What has arrived is enough for \<open>ReadFrame\<close> to return.\<close>

definition frame_ready :: "bytes \<Rightarrow> bool" where
  "frame_ready b \<longleftrightarrow> headerSize \<le> length b \<and>
     (let size = unat (Uint (take 4 (drop 9 (take headerSize b))) :: u32) in MaxFrameSize < size \<or> headerSize + size \<le> length b)"

definition read_waits :: "session \<Rightarrow> bool" where
  "read_waits s \<longleftrightarrow> ss_rpc s = RIdle \<and> (case ss_conn s of None \<Rightarrow> True | Some c \<Rightarrow> \<not> frame_ready (rbuf c))"

definition arrive :: "port \<Rightarrow> nat \<Rightarrow> path \<Rightarrow> path" where
  "arrive a k p =
     (let c = the (ss_conn (pt_sess p a)); s = pt_sess p (peer a); d = the (ss_conn s) in
      p\<lparr>pt_carried := (pt_carried p)(a := pt_carried p a + k),
        pt_sess := (pt_sess p)(peer a := s\<lparr>ss_conn := Some (d\<lparr>rbuf := rbuf d @ take k (drop (pt_carried p a) (wout c))\<rparr>)\<rparr>)\<rparr>)"

inductive path_step :: "path \<Rightarrow> path \<Rightarrow> bool" where
  path_arrive: "\<not> is_socket a \<Longrightarrow> 0 < k \<Longrightarrow> pt_carried p a + k \<le> length (wout (the (ss_conn (pt_sess p a)))) \<Longrightarrow> path_step p (arrive a k p)"
| path_read: "\<not> is_socket a \<Longrightarrow> \<not> read_waits (pt_sess p a) \<Longrightarrow> s \<in> set (readLoop_step (pt_sess p a)) \<Longrightarrow> path_step p (put_sess a s p)"
| path_copy: "p' \<in> set (copyDirection_step a p) \<Longrightarrow> path_step p p'"
| path_end: "p' \<in> set (Relay_end a p) \<Longrightarrow> path_step p p'"

section \<open>One direction of a session\<close>

text \<open>
  What a stream's sender has done (the bytes its session wrote, the ID, whether it is half-closed) and what its receiver holds
  (the bytes that arrived, the bytes to be read, whether the end has come, the data the read loop is delivering).
\<close>

definition out_view :: "session \<Rightarrow> nat \<Rightarrow> bytes \<times> u64 \<times> bool" where
  "out_view s r = (wout (the (ss_conn s)), st_id (deref s r), st_localEOF (deref s r))"

definition arriving :: "session \<Rightarrow> bytes" where
  "arriving s = (case ss_rpc s of RDeliver r x \<Rightarrow> x | _ \<Rightarrow> [])"

definition in_view :: "session \<Rightarrow> nat \<Rightarrow> bytes \<times> bytes \<times> bool \<times> bytes" where
  "in_view s r = (rbuf (the (ss_conn s)), pending (deref s r), st_remoteEOF (deref s r), arriving s)"

abbreviation data_bytes :: "u64 \<Rightarrow> bytes list \<Rightarrow> bytes" where
  "data_bytes i xs \<equiv> concat (map (\<lambda>x. frame_bytes (data_frame i x)) xs)"

text \<open>The bytes between a sender, of whose bytes \<open>n\<close> were carried, and a receiver: what will be read is \<open>b\<close>, and then the end.\<close>

fun hop :: "bytes \<times> u64 \<times> bool \<Rightarrow> nat \<Rightarrow> bytes \<times> bytes \<times> bool \<times> bytes \<Rightarrow> bytes \<Rightarrow> bool" where
  "hop (w, i, shut) n (rb, pd, eof, ar) b \<longleftrightarrow>
     (\<exists>xs. n \<le> length w \<and> rb @ drop n w = data_bytes i xs @ (if shut \<and> \<not> eof then frame_bytes (close_frame i) else [])
        \<and> (\<forall>x \<in> set xs. x \<noteq> [] \<and> length x \<le> MaxDataSize) \<and> b = pd @ ar @ concat xs
        \<and> (eof \<longrightarrow> shut \<and> xs = [] \<and> ar = []))"

declare hop.simps [simp del]

lemma hop_write:
  assumes "hop (w, i, False) n v b" and "\<forall>x \<in> set ys. x \<noteq> [] \<and> length x \<le> MaxDataSize"
  shows "hop (w @ data_bytes i ys, i, False) n v (b @ concat ys)"
proof -
  obtain rb pd eof ar where v: "v = (rb, pd, eof, ar)" by (cases v)
  from assms(1) obtain xs where "n \<le> length w" "rb @ drop n w = data_bytes i xs" "\<forall>x \<in> set xs. x \<noteq> [] \<and> length x \<le> MaxDataSize"
    "b = pd @ ar @ concat xs" "\<not> eof"
    by (auto simp: v hop.simps)
  with assms(2) show ?thesis by (auto simp: v hop.simps simp flip: append_assoc intro!: exI [of _ "xs @ ys"])
qed

lemma hop_shut:
  assumes "hop (w, i, False) n v b"
  shows "hop (w @ frame_bytes (close_frame i), i, True) n v b"
  using assms by (cases v) (auto simp: hop.simps simp flip: append_assoc)

lemma hop_arrive:
  assumes "hop (w, i, shut) n (rb, pd, eof, ar) b" and "n + k \<le> length w"
  shows "hop (w, i, shut) (n + k) (rb @ take k (drop n w), pd, eof, ar) b"
proof -
  have "take k (drop n w) @ drop (n + k) w = drop n w" by (metis add.commute append_take_drop_id drop_drop)
  with assms show ?thesis by (simp add: hop.simps)
qed

lemma hop_deliver: "hop u n (rb, pd, eof, ar) b \<Longrightarrow> hop u n (rb, pd @ ar, eof, []) b"
  by (cases u) (auto simp: hop.simps)

lemma hop_read: "hop u n (rb, d @ pd, eof, ar) (d @ b) \<longleftrightarrow> hop u n (rb, pd, eof, ar) b"
  by (cases u) (auto simp: hop.simps)

lemma hop_front: "hop u n (rb, pd, eof, ar) b \<Longrightarrow> \<exists>b'. b = pd @ b'"
  by (cases u) (auto simp: hop.simps)

lemma hop_ended: "hop u n (rb, pd, True, ar) b \<Longrightarrow> b = pd"
  by (cases u) (auto simp: hop.simps)

lemma header_size: "frame_ok f \<Longrightarrow> unat (Uint (drop 9 (frame_header f)) :: u32) = length (Payload f)"
  using header_fields(3) [of f] by (simp add: frame_ok_def MaxFrameSize_def unat_of_nat)

lemma frame_ready_bytes: "frame_ok f \<Longrightarrow> frame_ready (frame_bytes f @ r)"
  by (simp add: frame_ready_def frame_bytes_def headerSize_def header_size Let_def)

lemma frame_ready_first:
  assumes "frame_ready b" "b @ b' = frame_bytes f @ r" "frame_ok f"
  shows "\<exists>b''. b = frame_bytes f @ b'' \<and> b'' @ b' = r"
proof -
  have "13 \<le> length b" using assms(1) by (simp add: frame_ready_def headerSize_def)
  then have "take 13 b = take 13 (b @ b')" by simp
  also have "\<dots> = frame_header f" by (simp add: assms(2) frame_bytes_def)
  finally have "length (frame_bytes f) \<le> length b"
    using assms(1,3) by (auto simp: frame_ready_def headerSize_def header_size Let_def frame_bytes_def frame_ok_def)
  then have "take (length (frame_bytes f)) b = take (length (frame_bytes f)) (b @ b')"
    "drop (length (frame_bytes f)) b @ b' = drop (length (frame_bytes f)) (b @ b')" by simp_all
  then show ?thesis unfolding assms(2) by (metis append_eq_conv_conj append_take_drop_id)
qed

text \<open>The read loop finds a whole frame: data, or the end of the stream.\<close>

lemma hop_frame:
  assumes "hop (w, i, shut) n (rb, pd, eof, []) b" and "frame_ready rb"
  shows "(\<exists>x rb'. rb = frame_bytes (data_frame i x) @ rb' \<and> x \<noteq> [] \<and> length x \<le> MaxDataSize \<and> \<not> eof \<and> hop (w, i, shut) n (rb', pd, eof, x) b)
    \<or> (\<exists>rb'. rb = frame_bytes (close_frame i) @ rb' \<and> \<not> eof \<and> hop (w, i, shut) n (rb', pd, True, []) b)"
proof -
  from assms(1) obtain xs where xs: "n \<le> length w" "rb @ drop n w = data_bytes i xs @ (if shut \<and> \<not> eof then frame_bytes (close_frame i) else [])"
    "\<forall>x \<in> set xs. x \<noteq> [] \<and> length x \<le> MaxDataSize" "b = pd @ concat xs" "eof \<longrightarrow> shut \<and> xs = []"
    by (auto simp: hop.simps)
  have ne: "rb \<noteq> []" using assms(2) by (auto simp: frame_ready_def headerSize_def)
  then have eof: "\<not> eof" using xs(2,5) by auto
  show ?thesis
  proof (cases xs)
    case Nil
    with xs(2) ne eof have "shut" "rb @ drop n w = frame_bytes (close_frame i) @ []" by (auto split: if_splits)
    then obtain rb' where "rb = frame_bytes (close_frame i) @ rb'" "rb' @ drop n w = []"
      using frame_ready_first [OF assms(2) _ close_frame_ok] by blast
    with xs(1,4) Nil eof \<open>shut\<close> show ?thesis by (auto simp: hop.simps)
  next
    case (Cons x ys)
    then have ok: "frame_ok (data_frame i x)" using xs(3) by (simp add: data_frame_ok)
    have "rb @ drop n w = frame_bytes (data_frame i x) @ (data_bytes i ys @ (if shut \<and> \<not> eof then frame_bytes (close_frame i) else []))"
      using xs(2) Cons by simp
    from frame_ready_first [OF assms(2) this ok]
    obtain rb' where "rb = frame_bytes (data_frame i x) @ rb'"
      "rb' @ drop n w = data_bytes i ys @ (if shut \<and> \<not> eof then frame_bytes (close_frame i) else [])" by blast
    moreover from this(2) xs(1,3,4) Cons eof have "hop (w, i, shut) n (rb', pd, eof, x) b" by (auto simp: hop.simps)
    ultimately show ?thesis using xs(3) Cons eof by auto
  qed
qed

text \<open>Nothing is on the way: everything sent was delivered, the end as well.\<close>

lemma hop_quiet:
  assumes "hop (w, i, shut) n (rb, pd, eof, ar) b" and "length w \<le> n" and "\<not> frame_ready rb"
  shows "b = pd @ ar \<and> eof = shut"
proof -
  from assms(1,2) obtain xs where xs: "rb = data_bytes i xs @ (if shut \<and> \<not> eof then frame_bytes (close_frame i) else [])"
    "\<forall>x \<in> set xs. x \<noteq> [] \<and> length x \<le> MaxDataSize" "b = pd @ ar @ concat xs" "eof \<longrightarrow> shut \<and> xs = []"
    by (auto simp: hop.simps)
  have "xs = []"
    using xs(1,2) assms(3) frame_ready_bytes [OF data_frame_ok] by (cases xs) auto
  moreover have "\<not> (shut \<and> \<not> eof)"
    using xs(1) \<open>xs = []\<close> assms(3) frame_ready_bytes [OF close_frame_ok, of i "[]"] by (auto split: if_splits)
  ultimately show ?thesis using xs(3,4) by auto
qed

section \<open>The operations on a stream, by what they change\<close>

text \<open>A stream both ends of which work, on a session that works.\<close>

definition side_ok :: "session \<Rightarrow> nat \<Rightarrow> bool" where
  "side_ok s r \<longleftrightarrow> r < length (ss_heap s) \<and> (\<exists>c. healthy s c) \<and> stream_ok (ss_BufferSize s) (deref s r) \<and> \<not> st_closeOnce (deref s r)
     \<and> lookup (st_id (deref s r)) s = Some r \<and> 0 < ss_BufferSize s
     \<and> (case ss_rpc s of RIdle \<Rightarrow> True | RDeliver q x \<Rightarrow> q = r \<and> x \<noteq> [] \<and> \<not> st_remoteEOF (deref s r) | _ \<Rightarrow> False)"

lemma side_writable: "side_ok s r \<Longrightarrow> writable r s"
  by (auto simp: side_ok_def writable_def stream_ok_def)

lemma side_Read:
  assumes "side_ok s r" and "(x, st) \<in> set (Stream_Read n (deref s r))" and "0 < n"
  shows "side_ok (upd r (\<lambda>_. st) s) r" and "out_view (upd r (\<lambda>_. st) s) r = out_view s r"
    and "x = ReadBytes d \<Longrightarrow> d \<noteq> [] \<and> length d \<le> n \<and> (\<exists>rb pd eof ar. in_view s r = (rb, d @ pd, eof, ar) \<and> in_view (upd r (\<lambda>_. st) s) r = (rb, pd, eof, ar))"
    and "x = ReadFail e \<Longrightarrow> st = deref s r \<and> pending st = [] \<and> st_remoteEOF st"
proof -
  have r: "r < length (ss_heap s)" and st: "stream_ok (ss_BufferSize s) (deref s r)" "\<not> st_closeOnce (deref s r)"
    using assms(1) by (auto simp: side_ok_def)
  have f: "st_id st = st_id (deref s r)" "st_localEOF st = st_localEOF (deref s r)" "st_remoteEOF st = st_remoteEOF (deref s r)"
    "st_closeOnce st = st_closeOnce (deref s r)"
    using assms(2) st by (auto simp: Stream_Read_def read_fill.simps [of n "st_reads (deref s r)"] read_take_def stream_ok_def
        split: list.splits if_splits)
  have ok: "stream_ok (ss_BufferSize s) st" using Stream_Read_ok [OF st(1) assms(2)] by simp
  show "side_ok (upd r (\<lambda>_. st) s) r"
    using assms(1) r f ok by (auto simp: side_ok_def upd_def lookup_def healthy_def split: read_pc.splits)
  show "out_view (upd r (\<lambda>_. st) s) r = out_view s r" using r f by (simp add: out_view_def upd_def)
  show "d \<noteq> [] \<and> length d \<le> n \<and> (\<exists>rb pd eof ar. in_view s r = (rb, d @ pd, eof, ar) \<and> in_view (upd r (\<lambda>_. st) s) r = (rb, pd, eof, ar))" if "x = ReadBytes d"
    using sq.pop_bytes [OF st(1), of d st n] assms(2,3) that r f by (simp add: in_view_def upd_def arriving_def)
  show "st = deref s r \<and> pending st = [] \<and> st_remoteEOF st" if "x = ReadFail e"
    using assms(2) st that by (auto simp: Stream_Read_def read_fill.simps [of n "st_reads (deref s r)"] read_take_def stream_ok_def pending_def
        split: list.splits if_splits)
qed

lemma side_Write:
  assumes "side_ok s r" and "d \<noteq> []"
  shows "\<exists>s' w shut. Stream_Write r d s = (length d, None, s') \<and> side_ok s' r \<and> in_view s' r = in_view s r
    \<and> out_view s r = (w, st_id (deref s r), shut) \<and> out_view s' r = (w @ data_bytes (st_id (deref s r)) (chunks d), st_id (deref s r), shut)"
proof -
  obtain c where c: "healthy s c" using assms by (auto simp: side_ok_def)
  let ?s = "put_data r d s"
  have w: "Stream_Write r d s = (length d, None, ?s)" using Stream_Write_writable [OF side_writable [OF assms(1)] assms(2)] by simp
  have s: "?s = s\<lparr>ss_conn := Some (c\<lparr>wout := wout c @ data_bytes (st_id (deref s r)) (chunks d)\<rparr>)\<rparr>"
    using c by (simp add: put_data_def healthy_conn sent_def comp_def)
  have "side_ok ?s r" using assms(1) c unfolding s by (auto simp: side_ok_def healthy_def lookup_def split: read_pc.splits)
  moreover have "in_view ?s r = in_view s r" using c by (simp add: s in_view_def arriving_def healthy_def)
  ultimately show ?thesis using w c by (simp add: out_view_def s healthy_def)
qed

lemma side_CloseWrite:
  assumes "side_ok s r" and "\<not> st_localEOF (deref s r)"
  shows "\<exists>s' w. Stream_CloseWrite r s = (None, s') \<and> side_ok s' r \<and> in_view s' r = in_view s r
    \<and> out_view s r = (w, st_id (deref s r), False) \<and> out_view s' r = (w @ frame_bytes (close_frame (st_id (deref s r))), st_id (deref s r), True)"
proof -
  obtain c where c: "healthy s c" using assms by (auto simp: side_ok_def)
  have r: "r < length (ss_heap s)" "stream_ok (ss_BufferSize s) (deref s r)" "\<not> st_closeOnce (deref s r)" using assms by (auto simp: side_ok_def)
  let ?s = "sent [close_frame (st_id (deref s r))] (upd r (\<lambda>st. st\<lparr>st_localEOF := True\<rparr>) s) c"
  have w: "Stream_CloseWrite r s = (None, ?s)" using CloseWrite_healthy [OF c r(1) _ assms(2)] r by (simp add: stream_ok_def)
  have "side_ok ?s r" using assms(1) c r by (auto simp: side_ok_def healthy_def lookup_def sent_def upd_def stream_ok_def split: read_pc.splits)
  moreover have "in_view ?s r = in_view s r" using c r by (simp add: sent_def upd_def in_view_def arriving_def healthy_def pending_def)
  ultimately show ?thesis using w c r assms(2) by (simp add: out_view_def healthy_def sent_def upd_def)
qed

text \<open>The read loop, on a session where only this stream's frames arrive.\<close>

lemma side_readLoop:
  assumes "side_ok s r" and "hop (w, st_id (deref s r), shut) n (in_view s r) b" and "\<not> read_waits s" and "s' \<in> set (readLoop_step s)"
  shows "side_ok s' r \<and> out_view s' r = out_view s r \<and> hop (w, st_id (deref s r), shut) n (in_view s' r) b
    \<and> (st_remoteEOF (deref s r) \<longrightarrow> st_remoteEOF (deref s' r))
    \<and> (3 * length (fst (in_view s' r)) + 2 * length (arriving s') + length (pending (deref s' r))
       < 3 * length (fst (in_view s r)) + 2 * length (arriving s) + length (pending (deref s r)))"
proof -
  obtain c where c: "healthy s c" "ss_conn s = Some c" using assms(1) by (auto simp: side_ok_def healthy_def)
  have r: "r < length (ss_heap s)" "stream_ok (ss_BufferSize s) (deref s r)" "\<not> st_closeOnce (deref s r)"
    "lookup (st_id (deref s r)) s = Some r" using assms by (auto simp: side_ok_def)
  show ?thesis
  proof (cases "ss_rpc s")
    case RIdle
    let ?st = "deref s r"
    have v: "in_view s r = (rbuf c, pending ?st, st_remoteEOF ?st, [])" using c RIdle by (simp add: in_view_def arriving_def)
    have rdy: "frame_ready (rbuf c)" using assms(3) RIdle c by (simp add: read_waits_def)
    from hop_frame [OF assms(2) [unfolded v] rdy] show ?thesis
    proof (elim disjE exE conjE)
      fix x rb' assume x: "rbuf c = frame_bytes (data_frame (st_id ?st) x) @ rb'" "x \<noteq> []" "length x \<le> MaxDataSize" "\<not> st_remoteEOF ?st"
        "hop (w, st_id ?st, shut) n (rb', pending ?st, st_remoteEOF ?st, x) b"
      have "s' = s\<lparr>ss_conn := Some (c\<lparr>rbuf := rb'\<rparr>), ss_rpc := RDeliver r x\<rparr>"
        using readLoop_frame [OF RIdle c(2) data_frame_ok [OF x(3)] x(1)] assms(4) r
        by (simp add: handle_frame_def handle_data_def data_frame_def frame_types lookup_def)
      with x v RIdle c r assms(1) show ?thesis
        by (auto simp: side_ok_def healthy_def lookup_def out_view_def in_view_def arriving_def frame_bytes_def data_frame_def)
    next
      fix rb' assume x: "rbuf c = frame_bytes (close_frame (st_id ?st)) @ rb'" "\<not> st_remoteEOF ?st"
        "hop (w, st_id ?st, shut) n (rb', pending ?st, True, []) b"
      have "s' = upd r Stream_remoteClose (s\<lparr>ss_conn := Some (c\<lparr>rbuf := rb'\<rparr>)\<rparr>)"
        using readLoop_frame [OF RIdle c(2) close_frame_ok x(1)] assms(4) r
        by (simp add: handle_frame_def handle_close_def close_frame_def frame_types lookup_def)
      with x v RIdle c r assms(1) show ?thesis
        by (auto simp: side_ok_def healthy_def lookup_def out_view_def in_view_def arriving_def frame_bytes_def upd_def Stream_remoteClose_def
            stream_ok_def pending_def)
    qed
  next
    case (RDeliver q x)
    with assms(1) have q: "q = r" "x \<noteq> []" "\<not> st_remoteEOF (deref s r)" by (auto simp: side_ok_def)
    have room: "length (st_reads (deref s r)) < ss_BufferSize s" and
      s': "s' = (upd r (\<lambda>_. (deref s r)\<lparr>st_reads := st_reads (deref s r) @ [x]\<rparr>) s)\<lparr>ss_rpc := RIdle\<rparr>"
      using assms(4) RDeliver q r by (auto simp: readLoop_step_def Stream_deliver_def deliver_outcome_def stream_ok_def split: if_splits)
    have v: "in_view s r = (rbuf c, pending (deref s r), False, x)" "in_view s' r = (rbuf c, pending (deref s r) @ x, False, [])"
      using c r RDeliver q by (simp_all add: in_view_def arriving_def s' upd_def pending_def)
    have "side_ok s' r"
      using assms(1) r room q c by (auto simp: s' side_ok_def upd_def lookup_def healthy_def stream_ok_def)
    moreover have "out_view s' r = out_view s r" using r by (simp add: s' out_view_def upd_def)
    moreover have "length (pending (deref s' r)) = length (pending (deref s r)) + length x" "arriving s' = []" "arriving s = x"
      using r RDeliver by (simp_all add: s' upd_def pending_def arriving_def)
    ultimately show ?thesis using hop_deliver [OF assms(2) [unfolded v]] q(2,3) by (simp add: v)
  qed (use assms(1) in \<open>auto simp: side_ok_def\<close>)
qed

end
