(* ===== verification/PathProps.thy ===== *)
theory PathProps
  imports Path
begin

text \<open>
  Every interleaving of the steps of a path: nothing is lost, doubled or reordered, no run gets stuck or goes on for
  ever, and a run that has ended has moved every byte of both sides and closed both. The invariant says where the bytes
  are; each kind of step keeps it and leaves less work.
\<close>

section \<open>The invariant of the path\<close>

text \<open>
  \<open>B a\<close> are the bytes the goroutine at \<open>a\<close> has still to read. The flow towards one of the two connections: what it received,
  then what is held at the three places before it, in this order.
\<close>

definition buffered :: "copier \<Rightarrow> bytes" where
  "buffered x = (case x of Writing d \<Rightarrow> d | _ \<Rightarrow> [])"

definition port_queue :: "path \<Rightarrow> (port \<Rightarrow> bytes) \<Rightarrow> port \<Rightarrow> bytes" where
  "port_queue p B a = buffered (pt_copier p a) @ B a"

abbreviation received :: "path \<Rightarrow> port \<Rightarrow> bytes" where
  "received p a \<equiv> wout (sk_conn (pt_sock p a))"

definition upstream :: "port \<Rightarrow> port" where
  "upstream a = mate (peer a)"

definition flow :: "path \<Rightarrow> (port \<Rightarrow> bytes) \<Rightarrow> port \<Rightarrow> bytes" where
  "flow p B z = received p z @ port_queue p B (mate z) @ port_queue p B (upstream (mate z)) @ port_queue p B (upstream (upstream (mate z)))"

definition half_closed :: "path \<Rightarrow> port \<Rightarrow> bool" where
  "half_closed p a = (if is_socket a then sk_half (pt_sock p a) else st_localEOF (pt_stream p a))"

definition source_ended :: "path \<Rightarrow> port \<Rightarrow> bool" where
  "source_ended p a \<longleftrightarrow> is_socket a \<or> st_remoteEOF (pt_stream p a)"

definition port_ok :: "path \<Rightarrow> (port \<Rightarrow> bytes) \<Rightarrow> port \<Rightarrow> bool" where
  "port_ok p B a \<longleftrightarrow>
     (if is_socket a
      then wres (sk_conn (pt_sock p a)) = [] \<and> (\<not> pt_over p a \<longrightarrow> rend (sk_conn (pt_sock p a)) = EOF) \<and> B a = rbuf (sk_conn (pt_sock p a))
      else side_ok (pt_sess p a) (pt_ref p a) \<and> st_id (pt_stream p a) = st_id (pt_stream p (peer a))
        \<and> hop (out_view (pt_sess p (peer a)) (pt_ref p (peer a))) (pt_carried p (peer a)) (in_view (pt_sess p a) (pt_ref p a)) (B a))"

definition copier_ok :: "path \<Rightarrow> (port \<Rightarrow> bytes) \<Rightarrow> port \<Rightarrow> bool" where
  "copier_ok p B a \<longleftrightarrow> half_closed p (mate a) = (pt_copier p a = Copied) \<and> pt_copier p a \<noteq> Writing []
     \<and> (pt_copier p a \<in> {Closing, Copied} \<longrightarrow> B a = [] \<and> source_ended p a)
     \<and> (pt_over p a \<longrightarrow> pt_copier p a = Copied \<and> pt_over p (mate a))"

definition path_inv :: "path \<Rightarrow> (port \<Rightarrow> bytes) \<Rightarrow> bool" where
  "path_inv p B \<longleftrightarrow> (\<forall>a. port_ok p B a) \<and> (\<forall>a. copier_ok p B a)"

lemma port_simps [simp]:
  "mate (mate a) = a" "peer (peer a) = a" "mate a \<noteq> a" "a \<noteq> mate a" "is_socket (peer a) = is_socket a"
  "\<not> is_socket a \<Longrightarrow> peer a \<noteq> a" "\<not> is_socket a \<Longrightarrow> a \<noteq> peer a" "mate a \<noteq> peer a" "peer a \<noteq> mate a"
  by (cases a; simp add: is_socket_def)+

lemma port_simps2 [simp]:
  "peer (mate a) \<noteq> a"
  by (cases a; simp)

text \<open>How long the path still has to work: first the bytes by their distance and the open goroutines, then the work between two writes.\<close>

definition total :: "(port \<Rightarrow> nat) \<Rightarrow> nat" where
  "total f = f App + f Client + f Inner + f Outer + f Far + f Target"

fun depth :: "port \<Rightarrow> nat" where
  "depth App = 3" | "depth Inner = 2" | "depth Far = 1" | "depth Target = 3" | "depth Outer = 2" | "depth Client = 1"

definition far_work :: "path \<Rightarrow> (port \<Rightarrow> bytes) \<Rightarrow> nat" where
  "far_work p B = total (\<lambda>a. depth a * length (port_queue p B a) + (if pt_copier p a = Copied then 0 else 1))"

definition port_work :: "path \<Rightarrow> port \<Rightarrow> nat" where
  "port_work p a =
     (if is_socket a then length (rbuf (sk_conn (pt_sock p a)))
      else 4 * (length (wout (the (ss_conn (pt_sess p (peer a))))) - pt_carried p (peer a))
        + (3 * length (fst (in_view (pt_sess p a) (pt_ref p a))) + 2 * length (arriving (pt_sess p a)) + length (pending (pt_stream p a))))
     + (if pt_copier p a = Reading then 1 else 0) + (if pt_over p a then 0 else 1)"

definition less_work :: "path \<Rightarrow> (port \<Rightarrow> bytes) \<Rightarrow> path \<Rightarrow> (port \<Rightarrow> bytes) \<Rightarrow> bool" where
  "less_work p' B' p B \<longleftrightarrow> far_work p' B' < far_work p B \<or> far_work p' B' = far_work p B \<and> total (port_work p') < total (port_work p)"

lemma total_less:
  assumes "\<And>b. f b \<le> g b" and "f a < g a"
  shows "total f < total g"
  using assms(1) [of App] assms(1) [of Client] assms(1) [of Inner] assms(1) [of Outer] assms(1) [of Far] assms(1) [of Target] assms(2)
  by (cases a) (simp_all add: total_def)

lemma less_work_near:
  assumes "\<And>b. port_queue p' B' b = port_queue p B b" and "\<And>b. (pt_copier p' b = Copied) = (pt_copier p b = Copied)"
    and "\<And>b. b \<noteq> a \<Longrightarrow> port_work p' b \<le> port_work p b" and "port_work p' a < port_work p a"
  shows "less_work p' B' p B"
proof -
  have "total (port_work p') < total (port_work p)"
    by (rule total_less [of _ _ a]) (use assms(3,4) in \<open>metis less_imp_le\<close>, rule assms(4))
  then show ?thesis by (simp add: less_work_def far_work_def assms(1,2))
qed

lemma flow_same:
  assumes "\<And>b. port_queue p' B' b = port_queue p B b" and "\<And>b. received p' b = received p b"
  shows "flow p' B' z = flow p B z"
  by (simp add: flow_def assms)

text \<open>What the invariant says of one stream: its session, and the two directions between it and its peer.\<close>

lemma inv_ports: "path_inv p B \<Longrightarrow> port_ok p B b" "path_inv p B \<Longrightarrow> copier_ok p B b"
  by (simp_all add: path_inv_def)

lemma inv_stream:
  assumes "path_inv p B" and "\<not> is_socket a"
  shows "side_ok (pt_sess p a) (pt_ref p a)" and "st_id (pt_stream p a) = st_id (pt_stream p (peer a))"
    and "hop (out_view (pt_sess p (peer a)) (pt_ref p (peer a))) (pt_carried p (peer a)) (in_view (pt_sess p a) (pt_ref p a)) (B a)"
    and "hop (out_view (pt_sess p a) (pt_ref p a)) (pt_carried p a) (in_view (pt_sess p (peer a)) (pt_ref p (peer a))) (B (peer a))"
  using inv_ports(1) [OF assms(1), of a] inv_ports(1) [OF assms(1), of "peer a"] assms(2) by (simp_all add: port_ok_def)

text \<open>A change at one stream or at one connection keeps the rest of the path.\<close>

lemma ports_put_sess:
  assumes "path_inv p B" and "\<not> is_socket a" and "side_ok s (pt_ref p a)" and "st_id (deref s (pt_ref p a)) = st_id (pt_stream p a)"
    and "hop (out_view (pt_sess p (peer a)) (pt_ref p (peer a))) (pt_carried p (peer a)) (in_view s (pt_ref p a)) (B' a)"
    and "hop (out_view s (pt_ref p a)) (pt_carried p a) (in_view (pt_sess p (peer a)) (pt_ref p (peer a))) (B' (peer a))"
    and "\<And>b. b \<noteq> a \<Longrightarrow> b \<noteq> peer a \<Longrightarrow> B' b = B b"
  shows "port_ok (put_sess a s p) B' b"
proof -
  have id: "st_id (pt_stream p (peer a)) = st_id (pt_stream p a)" and side: "side_ok (pt_sess p (peer a)) (pt_ref p (peer a))"
    using inv_stream(1,2) [OF assms(1), of "peer a"] assms(2) by simp_all
  consider "b = a" | "b = peer a" | "b \<noteq> a" "b \<noteq> peer a" "peer b \<noteq> a" by (metis port_simps(2))
  then show ?thesis
  proof cases
    case 3
    then show ?thesis using inv_ports(1) [OF assms(1), of b] assms(7) [of b] by (simp add: port_ok_def)
  qed (use assms(2-6) id side in \<open>simp_all add: port_ok_def\<close>)
qed

lemma ports_put_sock:
  assumes "path_inv p B" and "is_socket a" and "wres (sk_conn k) = []" and "\<not> pt_over p a \<Longrightarrow> rend (sk_conn k) = EOF"
    and "\<And>b. B' b = (if b = a then rbuf (sk_conn k) else B b)"
  shows "port_ok (put_sock a k p) B' b"
  using inv_ports(1) [OF assms(1), of b] assms(2-4) assms(5) [of b] by (auto simp: port_ok_def)

section \<open>Every step keeps the invariant\<close>

text \<open>A step keeps the invariant and both flows, and leaves less work.\<close>

definition kept :: "path \<Rightarrow> (port \<Rightarrow> bytes) \<Rightarrow> path \<Rightarrow> bool" where
  "kept p B p' \<longleftrightarrow> (\<exists>B'. path_inv p' B' \<and> (\<forall>z. is_socket z \<longrightarrow> flow p' B' z = flow p B z) \<and> less_work p' B' p B)"

lemma keptI:
  assumes "\<And>a. port_ok p' B' a" "\<And>a. copier_ok p' B' a" "\<And>z. is_socket z \<Longrightarrow> flow p' B' z = flow p B z" "less_work p' B' p B"
  shows "kept p B p'"
  using assms by (auto simp: kept_def path_inv_def)

lemma copier_ok_mono:
  assumes "copier_ok p B b" and "half_closed p' (mate b) = half_closed p (mate b)" and "source_ended p b \<Longrightarrow> source_ended p' b"
    and "pt_copier p' b = pt_copier p b" and "pt_over p' b = pt_over p b" and "pt_over p' (mate b) = pt_over p (mate b)" and "B b = [] \<Longrightarrow> B' b = []"
  shows "copier_ok p' B' b"
  using assms by (auto simp: copier_ok_def)

lemma side_arrive:
  assumes "side_ok s r"
  shows "side_ok (s\<lparr>ss_conn := Some ((the (ss_conn s))\<lparr>rbuf := rb\<rparr>)\<rparr>) r"
    and "out_view (s\<lparr>ss_conn := Some ((the (ss_conn s))\<lparr>rbuf := rb\<rparr>)\<rparr>) r = out_view s r"
    and "in_view (s\<lparr>ss_conn := Some ((the (ss_conn s))\<lparr>rbuf := rb\<rparr>)\<rparr>) r = (rb, snd (in_view s r))"
  using assms by (auto simp: side_ok_def healthy_def lookup_def out_view_def in_view_def arriving_def split: read_pc.splits)

lemma arrive_kept:
  assumes "path_inv p B" and a: "\<not> is_socket a" and k: "0 < k" "pt_carried p a + k \<le> length (wout (the (ss_conn (pt_sess p a))))"
  shows "kept p B (arrive a k p)"
proof -
  let ?c = "the (ss_conn (pt_sess p a))" and ?s = "pt_sess p (peer a)" and ?q = "arrive a k p"
  let ?rb = "rbuf (the (ss_conn ?s)) @ take k (drop (pt_carried p a) (wout ?c))"
  let ?t = "?s\<lparr>ss_conn := Some ((the (ss_conn ?s))\<lparr>rbuf := ?rb\<rparr>)\<rparr>"
  have q: "?q = put_sess (peer a) ?t p\<lparr>pt_carried := (pt_carried p)(a := pt_carried p a + k)\<rparr>" by (simp add: arrive_def Let_def)
  have s: "side_ok ?s (pt_ref p (peer a))" using inv_stream(1) [OF assms(1), of "peer a"] a by simp
  note h = inv_stream(4) [OF assms(1) a] and P = inv_ports(1) [OF assms(1)] and C = inv_ports(2) [OF assms(1)] and v = side_arrive [OF s, of ?rb]
  have h': "hop (out_view (pt_sess p a) (pt_ref p a)) (pt_carried p a + k) (in_view ?t (pt_ref p (peer a))) (B (peer a))"
    using hop_arrive [of "wout ?c" _ _ "pt_carried p a" "rbuf (the (ss_conn ?s))" _ _ _ "B (peer a)" k] h k(2)
    unfolding v(3) by (simp add: out_view_def in_view_def)
  have "port_ok ?q B b" for b
  proof -
    consider "b = peer a" | "b = a" | "b \<noteq> a" "b \<noteq> peer a" "peer b \<noteq> a" by (metis port_simps(2))
    then show ?thesis
    proof cases
      case 1
      then show ?thesis using P [of "peer a"] v(1) h' a by (simp add: q port_ok_def)
    next
      case 2
      then show ?thesis using P [of a] v(2) a by (simp add: q port_ok_def)
    next
      case 3
      then have "peer b \<noteq> peer a" by (metis port_simps(2))
      with 3 show ?thesis using P [of b] by (simp add: q port_ok_def)
    qed
  qed
  moreover have "copier_ok ?q B b" for b
    by (rule copier_ok_mono [OF C [of b]]) (auto simp: half_closed_def source_ended_def q)
  moreover have same: "port_queue ?q B b = port_queue p B b" for b by (simp add: q port_queue_def)
  moreover have "less_work ?q B p B"
  proof (rule less_work_near [OF same, of "peer a"])
    show "port_work ?q b \<le> port_work p b" if "b \<noteq> peer a" for b
    proof -
      from that have "peer b \<noteq> a" by (metis port_simps(2))
      with that show ?thesis by (simp add: q port_work_def)
    qed
    show "port_work ?q (peer a) < port_work p (peer a)"
      using a k by (simp add: q port_work_def in_view_def arriving_def)
  qed (simp add: q)
  ultimately show ?thesis by (intro keptI flow_same) (auto simp: q)
qed

lemma read_kept:
  assumes "path_inv p B" and a: "\<not> is_socket a" and "\<not> read_waits (pt_sess p a)" and "s \<in> set (readLoop_step (pt_sess p a))"
  shows "kept p B (put_sess a s p)"
proof -
  let ?s = "pt_sess p a" and ?r = "pt_ref p a" and ?q = "put_sess a s p"
  note o = inv_stream(1-3) [OF assms(1) a] and h2 = inv_stream(4) [OF assms(1) a] and C = inv_ports(2) [OF assms(1)]
  obtain w shut where w: "out_view (pt_sess p (peer a)) (pt_ref p (peer a)) = (w, st_id (pt_stream p a), shut)" using o(2) by (simp add: out_view_def)
  note r = side_readLoop [OF o(1) o(3) [unfolded w] assms(3,4)]
  then have id: "st_id (deref s ?r) = st_id (pt_stream p a)" "st_localEOF (deref s ?r) = st_localEOF (pt_stream p a)" by (simp_all add: out_view_def)
  have ports: "port_ok ?q B b" for b
    by (rule ports_put_sess [OF assms(1) a _ id(1)]) (use r w h2 in simp_all)
  have eof: "st_remoteEOF (pt_stream p a) \<Longrightarrow> st_remoteEOF (deref s ?r)"
    using r by simp
  have "copier_ok ?q B b" for b
    by (rule copier_ok_mono [OF C [of b]]) (use id(2) eof in \<open>auto simp: half_closed_def source_ended_def\<close>)
  moreover have same: "port_queue ?q B b = port_queue p B b" for b by (simp add: port_queue_def)
  moreover have "less_work ?q B p B"
  proof (rule less_work_near [OF same, of a])
    show "port_work ?q b \<le> port_work p b" if "b \<noteq> a" for b
      using that r by (simp add: port_work_def out_view_def)
    show "port_work ?q a < port_work p a"
      using a r by (simp add: port_work_def)
  qed simp
  ultimately show ?thesis using ports by (intro keptI flow_same) auto
qed

text \<open>The steps of a copying goroutine.\<close>

lemma path_copier_simps [simp]:
  "port_ok (p\<lparr>pt_copier := f\<rparr>) B b = port_ok p B b" "half_closed (p\<lparr>pt_copier := f\<rparr>) b = half_closed p b"
  "source_ended (p\<lparr>pt_copier := f\<rparr>) b = source_ended p b"
  by (simp_all add: port_ok_def half_closed_def source_ended_def)

lemma reading_ok:
  assumes "copier_ok p B b" and "pt_copier p a = Reading" and "half_closed p' (mate b) = half_closed p (mate b)" and "source_ended p b \<Longrightarrow> source_ended p' b"
    and "pt_copier p' = (pt_copier p)(a := x)" and "x \<in> {Reading, Closing} \<or> (\<exists>d. d \<noteq> [] \<and> x = Writing d)" and "x = Closing \<Longrightarrow> B' a = [] \<and> source_ended p' a"
    and "pt_over p' = pt_over p" and "b \<noteq> a \<Longrightarrow> B b = [] \<Longrightarrow> B' b = []"
  shows "copier_ok p' B' b"
  using assms by (cases "b = a") (auto simp: copier_ok_def)

lemma socket_Read_bytes:
  assumes "(y, k') \<in> set (socket_Read n k)" "rbuf (sk_conn k) \<noteq> []" "0 < n"
  shows "\<exists>d. y = ReadBytes d \<and> d \<noteq> [] \<and> rbuf (sk_conn k) = d @ rbuf (sk_conn k') \<and> wres (sk_conn k') = wres (sk_conn k)
    \<and> rend (sk_conn k') = rend (sk_conn k) \<and> wout (sk_conn k') = wout (sk_conn k) \<and> sk_half k' = sk_half k"
proof -
  define m where "m = min n (min (length (rbuf (sk_conn k))) (max 1 (case sk_sizes k of [] \<Rightarrow> n | z # zs \<Rightarrow> z)))"
  have "0 < m" using assms(2,3) by (auto simp: m_def)
  with assms show ?thesis by (auto simp: socket_Read_def Let_def simp flip: m_def)
qed

lemma copy_eof_kept:
  assumes "path_inv p B" and cp: "pt_copier p a = Reading" and "B a = []" and "source_ended p a"
  shows "kept p B (p\<lparr>pt_copier := (pt_copier p)(a := Closing)\<rparr>)" (is "kept p B ?q")
proof -
  have same: "port_queue ?q B b = port_queue p B b" for b using cp by (simp add: port_queue_def buffered_def)
  have "copier_ok ?q B b" for b
    by (rule reading_ok [OF inv_ports(2) [OF assms(1), of b] cp]) (use assms(3,4) in auto)
  moreover have "less_work ?q B p B"
    by (rule less_work_near [OF same, of a]) (use cp in \<open>auto simp: port_work_def\<close>)
  ultimately show ?thesis using inv_ports(1) [OF assms(1)] same by (intro keptI flow_same) auto
qed

abbreviation after_read :: "read_result \<Rightarrow> copier" where
  "after_read y \<equiv> (case y of ReadBytes d \<Rightarrow> if d = [] then Reading else Writing d | ReadFail e \<Rightarrow> Closing)"

lemma copy_read_socket_kept:
  assumes "path_inv p B" and cp: "pt_copier p a = Reading" and "(y, p1) \<in> set (port_Read a p)" and a: "is_socket a"
  shows "kept p B (p1\<lparr>pt_copier := (pt_copier p1)(a := after_read y)\<rparr>)" (is "kept p B ?q")
proof -
  let ?k = "pt_sock p a"
  have k: "wres (sk_conn ?k) = []" "rend (sk_conn ?k) = EOF" "B a = rbuf (sk_conn ?k)"
    using inv_ports [OF assms(1), of a] a cp by (auto simp: port_ok_def copier_ok_def)
  obtain k' where k': "(y, k') \<in> set (socket_Read copy_buffer ?k)" "p1 = put_sock a k' p"
    using assms(3) a by (auto simp: port_Read_def)
  show ?thesis
  proof (cases "rbuf (sk_conn ?k) = []")
    case True
    then have "?q = p\<lparr>pt_copier := (pt_copier p)(a := Closing)\<rparr>" using k' by (simp add: socket_Read_def)
    with copy_eof_kept [OF assms(1) cp] True k a show ?thesis by (simp add: source_ended_def)
  next
    case False
    obtain d where d: "y = ReadBytes d" "p1 = put_sock a k' p" "d \<noteq> []" "rbuf (sk_conn ?k) = d @ rbuf (sk_conn k')"
      "wres (sk_conn k') = wres (sk_conn ?k)" "rend (sk_conn k') = rend (sk_conn ?k)" "wout (sk_conn k') = wout (sk_conn ?k)" "sk_half k' = sk_half ?k"
      using socket_Read_bytes [OF k'(1) False] k'(2) by (auto simp: copy_buffer_def)
    let ?B = "B(a := rbuf (sk_conn k'))"
    have q: "?q = put_sock a k' p\<lparr>pt_copier := (pt_copier p)(a := Writing d)\<rparr>" using d by simp
    have same: "port_queue ?q ?B b = port_queue p B b" for b using cp d k by (simp add: q port_queue_def buffered_def)
    have "port_ok ?q ?B b" for b
      unfolding q path_copier_simps by (rule ports_put_sock [OF assms(1) a]) (use d k in auto)
    moreover have "copier_ok ?q ?B b" for b
      by (rule reading_ok [OF inv_ports(2) [OF assms(1), of b] cp]) (use d in \<open>auto simp: q source_ended_def half_closed_def\<close>)
    moreover have "less_work ?q ?B p B"
      by (rule less_work_near [OF same, of a]) (use cp d a in \<open>auto simp: q port_work_def\<close>)
    ultimately show ?thesis using same d by (intro keptI flow_same) (auto simp: q)
  qed
qed

lemma copy_read_stream_kept:
  assumes "path_inv p B" and cp: "pt_copier p a = Reading" and "(y, p1) \<in> set (port_Read a p)" and a: "\<not> is_socket a"
  shows "kept p B (p1\<lparr>pt_copier := (pt_copier p1)(a := after_read y)\<rparr>)" (is "kept p B ?q")
proof -
  let ?s = "pt_sess p a" and ?r = "pt_ref p a"
  obtain st where st: "(y, st) \<in> set (Stream_Read copy_buffer (deref ?s ?r))" "p1 = put_sess a (upd ?r (\<lambda>_. st) ?s) p"
    using assms(3) a by (auto simp: port_Read_def)
  let ?t = "upd ?r (\<lambda>_. st) ?s"
  note o = inv_stream [OF assms(1) a]
  have "0 < copy_buffer" by (simp add: copy_buffer_def)
  note sr = side_Read [OF o(1) st(1) this]
  have id: "st_id (deref ?t ?r) = st_id (pt_stream p a)" "st_localEOF (deref ?t ?r) = st_localEOF (pt_stream p a)"
    using sr(2) by (simp_all add: out_view_def)
  show ?thesis
  proof (cases y)
    case (ReadFail e)
    have e: "st = deref ?s ?r" "pending st = []" "st_remoteEOF st" using sr(4) ReadFail by auto
    have "?q = p\<lparr>pt_copier := (pt_copier p)(a := Closing)\<rparr>" using st(2) e(1) ReadFail by (simp add: upd_def)
    moreover have "B a = []" using hop_ended o(3) e by (auto simp: in_view_def)
    ultimately show ?thesis using copy_eof_kept [OF assms(1) cp] e by (simp add: source_ended_def)
  next
    case (ReadBytes d)
    obtain rb pd eof ar where v: "d \<noteq> []" "in_view ?s ?r = (rb, d @ pd, eof, ar)" "in_view ?t ?r = (rb, pd, eof, ar)" using sr(3) [OF ReadBytes] by auto
    obtain b' where b': "B a = d @ b'" using hop_front [OF o(3) [unfolded v(2)]] by auto
    let ?B = "B(a := b')"
    have q: "?q = put_sess a ?t p\<lparr>pt_copier := (pt_copier p)(a := Writing d)\<rparr>" using st(2) v(1) ReadBytes by simp
    have same: "port_queue ?q ?B b = port_queue p B b" for b using cp b' by (simp add: q port_queue_def buffered_def)
    have "port_ok ?q ?B b" for b
      unfolding q path_copier_simps
      by (rule ports_put_sess [OF assms(1) a sr(1) id(1)]) (use o(3,4) sr(2) v b' a hop_read in auto)
    moreover have "copier_ok ?q ?B b" for b
      by (rule reading_ok [OF inv_ports(2) [OF assms(1), of b] cp]) (use v id in \<open>auto simp: q source_ended_def half_closed_def in_view_def\<close>)
    moreover have "less_work ?q ?B p B"
      by (rule less_work_near [OF same, of a]) (use cp v a sr(2) in \<open>auto simp: q port_work_def out_view_def in_view_def\<close>)
    ultimately show ?thesis using same by (intro keptI flow_same) (auto simp: q)
  qed
qed

lemmas copy_read_kept = copy_read_socket_kept copy_read_stream_kept

lemma depth_pos: "0 < depth a"
  by (cases a) simp_all

text \<open>A write takes its bytes one place further on, a half-close ends the goroutine.\<close>

lemma writing_ok:
  assumes "copier_ok p B b" and "pt_copier p a = Writing d" and "half_closed p' = half_closed p" and "source_ended p' = source_ended p" and "pt_over p' = pt_over p"
    and "pt_copier p' = (pt_copier p)(a := Reading)" and "B b = [] \<Longrightarrow> pt_copier p b \<in> {Closing, Copied} \<Longrightarrow> B' b = []"
  shows "copier_ok p' B' b"
  using assms by (cases "b = a") (auto simp: copier_ok_def)

abbreviation after_write :: "error option \<Rightarrow> nat \<Rightarrow> bytes \<Rightarrow> copier" where
  "after_write e m d \<equiv> (if e = None \<and> m = length d then Reading else Closing)"

lemma copy_write_socket_kept:
  assumes "path_inv p B" and cp: "pt_copier p a = Writing d" and w: "port_Write (mate a) d p = (m, e, p1)" and a: "is_socket (mate a)"
  shows "kept p B (p1\<lparr>pt_copier := (pt_copier p1)(a := after_write e m d)\<rparr>)" (is "kept p B ?q")
proof -
  let ?k = "pt_sock p (mate a)"
  let ?k' = "?k\<lparr>sk_conn := (sk_conn ?k)\<lparr>wout := wout (sk_conn ?k) @ d\<rparr>\<rparr>"
  have d: "d \<noteq> []" using inv_ports(2) [OF assms(1), of a] cp by (auto simp: copier_ok_def)
  have k: "wres (sk_conn ?k) = []" "B (mate a) = rbuf (sk_conn ?k)" "\<not> pt_over p (mate a) \<Longrightarrow> rend (sk_conn ?k) = EOF"
    using inv_ports(1) [OF assms(1), of "mate a"] a by (auto simp: port_ok_def)
  have q: "?q = put_sock (mate a) ?k' p\<lparr>pt_copier := (pt_copier p)(a := Reading)\<rparr>"
    using w a k by (auto simp: port_Write_def socket_Write_def io_Write_def)
  have "port_ok ?q B b" for b
    unfolding q path_copier_simps by (rule ports_put_sock [OF assms(1) a]) (use k in auto)
  moreover have "copier_ok ?q B b" for b
    by (rule writing_ok [OF inv_ports(2) [OF assms(1)] cp]) (auto simp: q half_closed_def source_ended_def fun_eq_iff)
  moreover have "flow ?q B z = flow p B z" if "is_socket z" for z
    unfolding q using a that cp by (cases a; cases z) (auto simp: flow_def upstream_def port_queue_def buffered_def is_socket_def)
  moreover have "far_work ?q B < far_work p B"
    unfolding far_work_def by (rule total_less [of _ _ a]) (use cp d in \<open>auto simp: q port_queue_def buffered_def depth_pos\<close>)
  ultimately show ?thesis by (intro keptI) (auto simp: less_work_def)
qed

lemma copy_write_stream_kept:
  assumes "path_inv p B" and cp: "pt_copier p a = Writing d" and w: "port_Write (mate a) d p = (m, e, p1)" and a: "\<not> is_socket (mate a)"
  shows "kept p B (p1\<lparr>pt_copier := (pt_copier p1)(a := after_write e m d)\<rparr>)" (is "kept p B ?q")
proof -
  let ?b = "mate a"
  let ?s = "pt_sess p ?b" and ?r = "pt_ref p ?b" and ?i = "st_id (pt_stream p (mate a))"
  have d: "d \<noteq> []" and open_: "\<not> half_closed p (mate a)" using inv_ports(2) [OF assms(1), of a] cp by (auto simp: copier_ok_def)
  note o = inv_stream [OF assms(1) a]
  obtain s' w' shut where s': "Stream_Write ?r d ?s = (length d, None, s')" "side_ok s' ?r" "in_view s' ?r = in_view ?s ?r"
    "out_view ?s ?r = (w', ?i, shut)" "out_view s' ?r = (w' @ data_bytes ?i (chunks d), ?i, shut)"
    using side_Write [OF o(1) d] by blast
  have id: "st_id (deref s' ?r) = ?i" "st_localEOF (deref s' ?r) = st_localEOF (pt_stream p ?b)" "st_remoteEOF (deref s' ?r) = st_remoteEOF (pt_stream p ?b)" "\<not> shut"
    using s'(3-5) open_ a by (auto simp: out_view_def in_view_def half_closed_def)
  let ?B = "B(peer ?b := B (peer ?b) @ d)"
  have q: "?q = put_sess ?b s' p\<lparr>pt_copier := (pt_copier p)(a := Reading)\<rparr>" using w a s'(1) by (auto simp: port_Write_def)
  have h': "hop (out_view s' ?r) (pt_carried p ?b) (in_view (pt_sess p (peer ?b)) (pt_ref p (peer ?b))) (B (peer ?b) @ d)"
    using hop_write [of w' ?i "pt_carried p ?b" _ "B (peer ?b)" "chunks d"] o(4) s'(4,5) id(4) chunks_bounded by auto
  have "port_ok ?q ?B b" for b
    unfolding q path_copier_simps by (rule ports_put_sess [OF assms(1) a s'(2) id(1)]) (use o(3) s'(3) h' a in auto)
  moreover have closed: "\<not> st_remoteEOF (pt_stream p (peer ?b))"
    using o(4) s'(4) id(4) by (auto simp: in_view_def hop.simps)
  have "copier_ok ?q ?B b" for b
  proof (rule writing_ok [OF inv_ports(2) [OF assms(1)] cp])
    show "?B b = []" if "B b = []" "pt_copier p b \<in> {Closing, Copied}"
      using that inv_ports(2) [OF assms(1), of b] closed a by (auto simp: copier_ok_def source_ended_def)
  qed (use id in \<open>auto simp: q half_closed_def source_ended_def fun_eq_iff\<close>)
  moreover have "flow ?q ?B z = flow p B z" if "is_socket z" for z
    unfolding q using a that cp by (cases a; cases z) (auto simp: flow_def upstream_def port_queue_def buffered_def is_socket_def)
  moreover have "far_work ?q ?B < far_work p B"
    unfolding q using a cp d by (cases a; cases d) (auto simp: far_work_def total_def port_queue_def buffered_def is_socket_def)
  ultimately show ?thesis by (intro keptI) (auto simp: less_work_def)
qed

lemmas copy_write_kept = copy_write_socket_kept copy_write_stream_kept

lemma closing_kept:
  assumes "path_inv p B" and cp: "pt_copier p a = Closing" and "\<And>b. port_ok q B b" and half: "\<And>b. half_closed q b = (b = mate a \<or> half_closed p b)"
    and "source_ended q = source_ended p" and "pt_over q = pt_over p" and cq: "pt_copier q = (pt_copier p)(a := Copied)" and "\<And>b. received q b = received p b"
  shows "kept p B q"
proof -
  have inj: "mate b = mate a \<longleftrightarrow> b = a" for b by (metis port_simps(1))
  have "copier_ok q B b" for b
    using inv_ports(2) [OF assms(1), of b] assms(5,6) cp cq half by (cases "b = a") (auto simp: copier_ok_def inj)
  moreover have "far_work q B < far_work p B"
    unfolding far_work_def by (rule total_less [of _ _ a]) (use cp cq in \<open>auto simp: port_queue_def buffered_def\<close>)
  moreover have "flow q B z = flow p B z" for z
    by (rule flow_same) (use cp cq assms(8) in \<open>auto simp: port_queue_def buffered_def\<close>)
  ultimately show ?thesis using assms(3) by (intro keptI) (auto simp: less_work_def)
qed

lemma copy_close_kept:
  assumes "path_inv p B" and cp: "pt_copier p a = Closing"
  shows "kept p B ((port_CloseWrite (mate a) p)\<lparr>pt_copier := (pt_copier (port_CloseWrite (mate a) p))(a := Copied)\<rparr>)"
    (is "kept p B ?q")
proof (cases "is_socket (mate a)")
  case True
  let ?k = "pt_sock p (mate a)"
  have q: "?q = put_sock (mate a) (?k\<lparr>sk_half := True\<rparr>) p\<lparr>pt_copier := (pt_copier p)(a := Copied)\<rparr>"
    using True by (simp add: port_CloseWrite_def socket_CloseWrite_def)
  have "port_ok ?q B b" for b
    unfolding q path_copier_simps
    by (rule ports_put_sock [OF assms(1) True]) (use inv_ports(1) [OF assms(1), of "mate a"] True in \<open>auto simp: port_ok_def\<close>)
  then show ?thesis
    by (rule closing_kept [OF assms]) (use True in \<open>auto simp: q half_closed_def source_ended_def fun_eq_iff\<close>)
next
  case False
  let ?b = "mate a"
  let ?s = "pt_sess p ?b" and ?r = "pt_ref p ?b" and ?i = "st_id (pt_stream p (mate a))"
  note o = inv_stream [OF assms(1) False]
  have "\<not> st_localEOF (deref ?s ?r)" using inv_ports(2) [OF assms(1), of a] cp False by (auto simp: copier_ok_def half_closed_def)
  then obtain s' w' where s': "Stream_CloseWrite ?r ?s = (None, s')" "side_ok s' ?r" "in_view s' ?r = in_view ?s ?r"
    "out_view ?s ?r = (w', ?i, False)" "out_view s' ?r = (w' @ frame_bytes (close_frame ?i), ?i, True)"
    using side_CloseWrite [OF o(1)] by blast
  have id: "st_id (deref s' ?r) = ?i" "st_localEOF (deref s' ?r)" "st_remoteEOF (deref s' ?r) = st_remoteEOF (pt_stream p ?b)"
    using s'(3-5) by (auto simp: out_view_def in_view_def)
  have q: "?q = put_sess ?b s' p\<lparr>pt_copier := (pt_copier p)(a := Copied)\<rparr>" using False s'(1) by (simp add: port_CloseWrite_def)
  have "port_ok ?q B b" for b
    unfolding q path_copier_simps
    by (rule ports_put_sess [OF assms(1) False s'(2) id(1)]) (use o(3) s'(3) hop_shut [OF o(4) [unfolded s'(4)]] s'(5) in auto)
  then show ?thesis
    by (rule closing_kept [OF assms]) (use False id in \<open>auto simp: q half_closed_def source_ended_def fun_eq_iff\<close>)
qed

text \<open>The end of a relay: its streams are half-closed already, so that only connections are closed.\<close>

lemma port_Close_closed:
  "half_closed p b \<Longrightarrow> port_Close b p = (if is_socket b then put_sock b (socket_Close (pt_sock p b)) p else p)"
  by (simp add: port_Close_def half_closed_def Stream_Close_def Stream_CloseWrite_def)

lemma end_kept:
  assumes "path_inv p B" and "p' \<in> set (Relay_end a p)"
  shows "kept p B p'"
proof -
  have P: "\<And>b. port_ok p B b" and C: "\<And>b. copier_ok p B b" using assms(1) by (auto simp: path_inv_def)
  have cp: "pt_copier p a = Copied" "pt_copier p (mate a) = Copied" "\<not> pt_over p a" "p' = (port_Close (mate a) (port_Close a p))\<lparr>pt_over := (pt_over p)(a := True, mate a := True)\<rparr>"
    using assms(2) by (auto simp: Relay_end_def split: if_splits)
  have hc: "half_closed p a" "half_closed p (mate a)" and em: "B a = []" "B (mate a) = []"
    using C [of a] C [of "mate a"] cp by (auto simp: copier_ok_def)
  let ?S = "\<lambda>b. if is_socket b \<and> (b = a \<or> b = mate a) then socket_Close (pt_sock p b) else pt_sock p b"
  have "half_closed (port_Close a p) (mate a)" using hc(2) by (simp add: port_Close_closed [OF hc(1)] half_closed_def)
  then have p': "p' = p\<lparr>pt_sock := ?S, pt_over := (pt_over p)(a := True, mate a := True)\<rparr>"
    by (intro path.equality) (auto simp: cp(4) port_Close_closed hc(1) fun_eq_iff)
  have half: "half_closed p' b = half_closed p b" "source_ended p' b = source_ended p b" for b
    using hc by (auto simp: p' half_closed_def source_ended_def socket_Close_def)
  have "port_ok p' B b" for b
    using P [of b] em by (auto simp: port_ok_def p' socket_Close_def conn_Close_def)
  moreover have "copier_ok p' B b" for b
    using C [of b] cp(1,2) unfolding copier_ok_def half by (auto simp: p')
  moreover have same: "port_queue p' B b = port_queue p B b" for b by (simp add: p' port_queue_def)
  moreover have "less_work p' B p B"
    by (rule less_work_near [OF same, of a]) (use cp(3) in \<open>auto simp: p' port_work_def socket_Close_def conn_Close_def\<close>)
  moreover have "flow p' B z = flow p B z" for z
    by (rule flow_same [OF same]) (simp add: p' socket_Close_def conn_Close_def)
  ultimately show ?thesis by (intro keptI)
qed

lemma step_kept:
  assumes "path_inv p B" and "path_step p p'"
  shows "kept p B p'"
  using assms(2)
proof cases
  case (path_copy a)
  show ?thesis
  proof (cases "pt_copier p a")
    case Reading
    then show ?thesis
      using path_copy copy_read_kept [OF assms(1) Reading] by (cases "is_socket a") (fastforce simp: copyDirection_step_def copier_step_def)+
  next
    case (Writing d)
    then show ?thesis
      using path_copy copy_write_kept [OF assms(1) Writing] by (cases "is_socket (mate a)") (auto simp: copyDirection_step_def copier_step_def split: prod.splits)
  next
    case Closing
    then show ?thesis
      using path_copy copy_close_kept [OF assms(1) Closing] by (auto simp: copyDirection_step_def copier_step_def)
  qed (use path_copy in \<open>simp add: copyDirection_step_def copier_step_def\<close>)
qed (auto intro: arrive_kept [OF assms(1)] read_kept [OF assms(1)] end_kept [OF assms(1)])

section \<open>No run gets stuck\<close>

lemma stuck_copier:
  assumes "path_inv p B" and stuck: "\<And>p'. \<not> path_step p p'"
  shows "pt_copier p a = Copied \<or> pt_copier p a = Reading \<and> \<not> is_socket a \<and> pending (pt_stream p a) = [] \<and> \<not> st_remoteEOF (pt_stream p a)"
proof -
  have none: "copyDirection_step a p = []" using path_copy stuck by (metis list.set_intros(1) neq_Nil_conv)
  then have cp: "pt_copier p a = Copied \<or> pt_copier p a = Reading \<and> port_Read a p = []"
    by (auto simp: copyDirection_step_def copier_step_def split: copier.splits prod.splits)
  moreover have "\<not> is_socket a \<and> pending (pt_stream p a) = [] \<and> \<not> st_remoteEOF (pt_stream p a)" if "port_Read a p = []"
  proof -
    have a: "\<not> is_socket a" using that by (auto simp: port_Read_def socket_Read_def Let_def split: if_splits)
    then have "side_ok (pt_sess p a) (pt_ref p a)" using assms(1) by (auto simp: path_inv_def port_ok_def)
    then have "stream_ok (ss_BufferSize (pt_sess p a)) (pt_stream p a)" "\<not> st_closeOnce (pt_stream p a)" by (auto simp: side_ok_def)
    moreover have "Stream_Read copy_buffer (pt_stream p a) = []" using that a by (simp add: port_Read_def)
    ultimately show ?thesis
      using a by (auto simp: Stream_Read_def read_fill.simps [of _ "st_reads (pt_stream p a)"] stream_ok_def pending_def split: if_splits list.splits)
  qed
  ultimately show ?thesis by blast
qed

lemma stuck_reading:
  assumes "path_inv p B" and stuck: "\<And>p'. \<not> path_step p p'" and "pt_copier p a = Reading"
  shows "\<not> is_socket a \<and> pt_copier p (upstream a) = Reading"
proof -
  let ?s = "pt_sess p a" and ?r = "pt_ref p a" and ?z = "peer a"
  have r: "\<not> is_socket a" "pending (pt_stream p a) = []" "\<not> st_remoteEOF (pt_stream p a)"
    using stuck_copier [OF assms(1,2), of a] assms(3) by auto
  have P: "port_ok p B a" "copier_ok p B (upstream a)" using assms(1) by (auto simp: path_inv_def)
  have o: "side_ok ?s ?r" "hop (out_view (pt_sess p ?z) (pt_ref p ?z)) (pt_carried p ?z) (in_view ?s ?r) (B a)"
    using P(1) r(1) by (simp_all add: port_ok_def)
  have carried: "length (wout (the (ss_conn (pt_sess p ?z)))) \<le> pt_carried p ?z"
  proof (rule ccontr)
    assume "\<not> ?thesis"
    then have "path_step p (arrive ?z 1 p)" using r(1) by (intro path_arrive) simp_all
    with stuck show False by blast
  qed
  have none: "readLoop_step ?s = []" if "\<not> read_waits ?s"
    using path_read [OF r(1) that] stuck by (cases "readLoop_step ?s") auto
  obtain c where c: "ss_conn ?s = Some c" using o(1) by (auto simp: side_ok_def healthy_def)
  have idle: "ss_rpc ?s = RIdle"
  proof (cases "ss_rpc ?s")
    case (RDeliver q x)
    with o(1) have q: "q = ?r" "x \<noteq> []" "0 < ss_BufferSize ?s" "stream_ok (ss_BufferSize ?s) (pt_stream p a)" by (auto simp: side_ok_def)
    have "readLoop_step ?s = []" by (rule none) (simp add: read_waits_def RDeliver)
    then have "length (st_reads (pt_stream p a)) \<ge> ss_BufferSize ?s" "[] \<notin> set (st_reads (pt_stream p a))"
      using RDeliver q r(3) by (auto simp: readLoop_step_def Stream_deliver_def stream_ok_def split: if_splits)
    with q(3) r(2) have False by (cases "st_reads (pt_stream p a)") (auto simp: pending_def)
    then show ?thesis ..
  qed (use o(1) in \<open>auto simp: side_ok_def\<close>)
  have "read_waits ?s"
  proof (rule ccontr)
    assume "\<not> ?thesis"
    from none [OF this] show False using idle c by (auto simp: readLoop_step_def split: prod.splits sum.splits)
  qed
  then have "\<not> frame_ready (rbuf c)" using idle c by (simp add: read_waits_def)
  from hop_quiet [OF _ carried this] o(2) c r(3) have "\<not> st_localEOF (pt_stream p ?z)" unfolding out_view_def in_view_def by fastforce
  then have "pt_copier p (upstream a) \<noteq> Copied" using P(2) r(1) by (simp add: copier_ok_def half_closed_def upstream_def)
  with stuck_copier [OF assms(1,2), of "upstream a"] r(1) show ?thesis by auto
qed

lemma stuck_over:
  assumes "path_inv p B" and stuck: "\<And>p'. \<not> path_step p p'"
  shows "pt_copier p a = Copied \<and> pt_over p a \<and> B a = [] \<and> half_closed p a"
proof -
  have "pt_copier p b \<noteq> Reading" for b
  proof
    assume r: "pt_copier p b = Reading"
    note s = stuck_reading [OF assms]
    from s [OF r] have "pt_copier p (upstream b) = Reading" ..
    moreover from s [OF this] have "pt_copier p (upstream (upstream b)) = Reading" ..
    ultimately show False using s [OF r] s [of "upstream b"] s [of "upstream (upstream b)"] by (cases b) (simp_all add: upstream_def is_socket_def)
  qed
  then have all: "pt_copier p b = Copied" for b using stuck_copier [OF assms] by blast
  moreover have "Relay_end a p = []" using path_end stuck by (metis list.set_intros(1) neq_Nil_conv)
  then have "pt_over p a" using all by (simp add: Relay_end_def split: if_splits)
  moreover have "copier_ok p B a" "copier_ok p B (mate a)" using assms(1) by (auto simp: path_inv_def)
  ultimately show ?thesis by (simp add: copier_ok_def)
qed

section \<open>Every run ends\<close>

lemma path_terminates: "path_inv p B \<Longrightarrow> Wellfounded.accp (\<lambda>q p. path_step p q) p"
proof (induction "(p, B)" arbitrary: p B rule: wf_induct_rule [OF wf_measures [of "[\<lambda>(p, B). far_work p B, \<lambda>(p, B). total (port_work p)]"]])
  case 1
  show ?case
  proof (rule accpI)
    fix q assume "path_step p q"
    from step_kept [OF 1(2) this] obtain B' where "path_inv q B'" "less_work q B' p B" by (auto simp: kept_def)
    then show "Wellfounded.accp (\<lambda>q p. path_step p q) q" by (intro 1(1)) (auto simp: less_work_def)
  qed
qed

lemma no_infinite_run:
  assumes "Wellfounded.accp (\<lambda>q p. path_step p q) p" shows "\<not> (\<exists>f. f 0 = p \<and> (\<forall>n. path_step (f n) (f (Suc n))))"
  using assms
proof (induction rule: accp.induct)
  case (accI p)
  show ?case
  proof
    assume "\<exists>f. f 0 = p \<and> (\<forall>n. path_step (f n) (f (Suc n)))"
    then obtain f where f: "f 0 = p" "\<And>n. path_step (f n) (f (Suc n))" by blast
    from accI.IH [of "f 1"] f(2) [of 0] f(1) have "\<not> (\<exists>g. g 0 = f 1 \<and> (\<forall>n. path_step (g n) (g (Suc n))))" by simp
    moreover have "\<exists>g. g 0 = f 1 \<and> (\<forall>n. path_step (g n) (g (Suc n)))" by (rule exI [of _ "\<lambda>n. f (Suc n)"]) (use f(2) in simp)
    ultimately show False by contradiction
  qed
qed

lemma run_to_end:
  assumes "Wellfounded.accp (\<lambda>q p. path_step p q) p" shows "\<exists>q. path_step\<^sup>*\<^sup>* p q \<and> \<not> (\<exists>r. path_step q r)"
  using assms
proof (induction rule: accp.induct)
  case (accI p)
  then show ?case by (cases "\<exists>q. path_step p q") (blast intro: converse_rtranclp_into_rtranclp)+
qed

section \<open>The connection from end to end\<close>

text \<open>
  How a path starts: the relays have just been entered, nothing of this connection is on the way, both connections and both sessions
  take every write, and both sides will end what they send.
\<close>

definition path_start :: "path \<Rightarrow> bool" where
  "path_start p \<longleftrightarrow> (\<forall>a. pt_copier p a = Reading \<and> \<not> pt_over p a)
     \<and> (\<forall>a. is_socket a \<longrightarrow> wres (sk_conn (pt_sock p a)) = [] \<and> rend (sk_conn (pt_sock p a)) = EOF \<and> \<not> sk_half (pt_sock p a))
     \<and> (\<forall>a. \<not> is_socket a \<longrightarrow> side_ok (pt_sess p a) (pt_ref p a) \<and> ss_rpc (pt_sess p a) = RIdle \<and> rbuf (the (ss_conn (pt_sess p a))) = []
          \<and> st_id (pt_stream p a) = st_id (pt_stream p (peer a)) \<and> pending (pt_stream p a) = []
          \<and> \<not> st_localEOF (pt_stream p a) \<and> \<not> st_remoteEOF (pt_stream p a) \<and> pt_carried p a = length (wout (the (ss_conn (pt_sess p a)))))"

lemma path_start_inv:
  assumes "path_start p"
  shows "path_inv p (\<lambda>a. if is_socket a then rbuf (sk_conn (pt_sock p a)) else [])"
proof -
  let ?B = "\<lambda>a. if is_socket a then rbuf (sk_conn (pt_sock p a)) else []"
  have r: "pt_copier p a = Reading" "\<not> pt_over p a" and sk: "is_socket a \<Longrightarrow> \<not> sk_half (pt_sock p a)" for a
    using assms unfolding path_start_def by blast+
  have st: "side_ok (pt_sess p a) (pt_ref p a) \<and> ss_rpc (pt_sess p a) = RIdle \<and> rbuf (the (ss_conn (pt_sess p a))) = []
          \<and> st_id (pt_stream p a) = st_id (pt_stream p (peer a)) \<and> pending (pt_stream p a) = []
          \<and> \<not> st_localEOF (pt_stream p a) \<and> \<not> st_remoteEOF (pt_stream p a) \<and> pt_carried p a = length (wout (the (ss_conn (pt_sess p a))))" if "\<not> is_socket a" for a
    using assms that unfolding path_start_def by blast
  have "port_ok p ?B a" for a
  proof (cases "is_socket a")
    case True
    moreover from this have "wres (sk_conn (pt_sock p a)) = [] \<and> rend (sk_conn (pt_sock p a)) = EOF" using assms unfolding path_start_def by blast
    ultimately show ?thesis by (simp add: port_ok_def)
  next
    case False
    note a = st [OF False] and b = st [of "peer a", THEN conjunct2, THEN conjunct2, THEN conjunct2, THEN conjunct2, THEN conjunct2]
    from a b False show ?thesis by (simp add: port_ok_def out_view_def in_view_def arriving_def hop.simps)
  qed
  moreover have "copier_ok p ?B a" for a
    using r [of a] sk [of "mate a"] st [of "mate a"] by (auto simp: copier_ok_def half_closed_def)
  ultimately show ?thesis by (simp add: path_inv_def)
qed

lemma run_kept:
  assumes "path_step\<^sup>*\<^sup>* p q" and "path_inv p B"
  shows "\<exists>B'. path_inv q B' \<and> (\<forall>z. is_socket z \<longrightarrow> flow q B' z = flow p B z)"
  using assms
proof (induction rule: rtranclp_induct)
  case (step q r)
  then obtain B' where "path_inv q B'" "\<forall>z. is_socket z \<longrightarrow> flow q B' z = flow p B z" by blast
  with step_kept [of q B' r] step(2) show ?case by (fastforce simp: kept_def)
qed blast

text \<open>
  C1 (end to end). An application and a target are joined by the relays of client, server and exit. However the goroutines
  of the relays, the read loops of the four ends of the sessions and the network, which may cut what it carries anywhere, are
  interleaved: at any time each side has received a prefix of what the other side has sent, and no read loop has
  stopped or panicked; no interleaving goes on for ever; and one that cannot go on, as there always is one, has delivered every
  byte of both sides and half-closed both connections, and every relay has returned.
\<close>

theorem path_carries_everything:
  assumes "path_start p" and "path_step\<^sup>*\<^sup>* p q"
  shows "(\<exists>rest. received q Target @ rest = received p Target @ rbuf (sk_conn (pt_sock p App)))
    \<and> (\<exists>rest. received q App @ rest = received p App @ rbuf (sk_conn (pt_sock p Target)))
    \<and> (\<forall>a. \<not> is_socket a \<longrightarrow> ss_rpc (pt_sess q a) \<notin> {RStopped, RPanicked})
    \<and> \<not> (\<exists>f. f 0 = q \<and> (\<forall>n. path_step (f n) (f (Suc n))))
    \<and> (\<exists>r. path_step\<^sup>*\<^sup>* q r \<and> \<not> (\<exists>r'. path_step r r'))
    \<and> (\<not> (\<exists>r. path_step q r) \<longrightarrow>
         received q Target = received p Target @ rbuf (sk_conn (pt_sock p App))
         \<and> received q App = received p App @ rbuf (sk_conn (pt_sock p Target))
         \<and> (\<forall>a. half_closed q a \<and> pt_over q a))"
proof -
  let ?B = "\<lambda>a. if is_socket a then rbuf (sk_conn (pt_sock p a)) else []"
  obtain B where B: "path_inv q B" "\<And>z. is_socket z \<Longrightarrow> flow q B z = flow p ?B z"
    using run_kept [OF assms(2) path_start_inv [OF assms(1)]] by blast
  have "pt_copier p a = Reading" for a using assms(1) by (simp add: path_start_def)
  then have fl: "flow q B Target = received p Target @ rbuf (sk_conn (pt_sock p App))" "flow q B App = received p App @ rbuf (sk_conn (pt_sock p Target))"
    using B(2) [of Target] B(2) [of App] by (simp_all add: flow_def port_queue_def upstream_def buffered_def is_socket_def)
  have rpc: "ss_rpc (pt_sess q a) \<notin> {RStopped, RPanicked}" if "\<not> is_socket a" for a
  proof -
    have "port_ok q B a" using B(1) by (simp add: path_inv_def)
    with that show ?thesis by (auto simp: port_ok_def side_ok_def)
  qed
  have fin: "received q z = flow q B z \<and> (\<forall>a. half_closed q a \<and> pt_over q a)" if "\<not> (\<exists>r. path_step q r)" for z
  proof -
    have "pt_copier q a = Copied \<and> pt_over q a \<and> B a = [] \<and> half_closed q a" for a using stuck_over [OF B(1)] that by blast
    then show ?thesis by (simp add: flow_def port_queue_def buffered_def)
  qed
  note acc = path_terminates [OF B(1)]
  show ?thesis
    using fl rpc fin [of Target] fin [of App] no_infinite_run [OF acc] run_to_end [OF acc] unfolding flow_def by metis
qed

definition ex_path :: path where
  "ex_path = \<lparr>pt_sock = (\<lambda>a. \<lparr>sk_conn = conn_of (if a = App then [1, 2, 3] else [9]), sk_sizes = [2], sk_half = False\<rparr>),
     pt_sess = (\<lambda>_. ex_session), pt_ref = (\<lambda>_. 0), pt_carried = (\<lambda>_. 0), pt_copier = (\<lambda>_. Reading), pt_over = (\<lambda>_. False)\<rparr>"

theorem path_carries_everything_witness:
  "\<exists>q. path_step\<^sup>*\<^sup>* ex_path q \<and> received q Target = [1, 2, 3] \<and> received q App = [9] \<and> (\<forall>a. pt_over q a)"
proof -
  have s: "path_start ex_path"
    by (simp add: path_start_def ex_path_def conn_of_def side_ok_def ex_session_def New_def healthy_def newStream_def stream_ok_def lookup_def gm_get_def
        pending_def)
  obtain q where q: "path_step\<^sup>*\<^sup>* ex_path q" "\<not> (\<exists>r. path_step q r)"
    using path_carries_everything [OF s rtranclp.rtrancl_refl] by blast
  from path_carries_everything [OF s q(1)] q show ?thesis
    by (intro exI [of _ q]) (simp add: ex_path_def conn_of_def)
qed

end
