(* ===== verification/Proxy.thy ===== *)
theory Proxy
  imports BigEndian GoNet
begin

text \<open>
  What the two local proxies share: how a TCP address is printed (\<open>net.IP.String\<close>), the outcome of
  handling one connection, and the listener of the SOCKS and HTTP servers
  (\<open>src/internal/proxy/socks5/socks5.go\<close>, \<open>src/internal/proxy/httpconnect/httpconnect.go\<close>).
\<close>

section \<open>Printing addresses\<close>

definition ipv4_String :: "bytes \<Rightarrow> string" where
  "ipv4_String b = (case map (\<lambda>x. show_nat (unat x)) b of
     [w, x, y, z] \<Rightarrow> w @ ''.'' @ x @ ''.'' @ y @ ''.'' @ z | _ \<Rightarrow> [])"

fun show_hex :: "nat \<Rightarrow> string" where
  "show_hex n = (if n < 16 then [''0123456789abcdef'' ! n] else show_hex (n div 16) @ [''0123456789abcdef'' ! (n mod 16)])"

declare show_hex.simps [simp del]

fun groups :: "bytes \<Rightarrow> nat list" where
  "groups (a # b # r) = (256 * unat a + unat b) # groups r"
| "groups _ = []"

text \<open>The longest run of two or more zero groups, the first one of that length.\<close>

definition zero_run :: "nat list \<Rightarrow> nat \<times> nat" where
  "zero_run gs = fold (\<lambda>i (s, e).
     let j = i + length (takeWhile (\<lambda>g. g = 0) (drop i gs))
     in if 2 \<le> j - i \<and> e - s < j - i then (i, j) else (s, e)) [0..<length gs] (255, 255)"

fun groups_text :: "nat list \<Rightarrow> nat \<Rightarrow> nat \<Rightarrow> nat \<Rightarrow> nat \<Rightarrow> string" where
  "groups_text gs s e i 0 = []"
| "groups_text gs s e i (Suc n) =
     (if length gs \<le> i then []
      else if i = s then
        (if length gs \<le> e then ''::'' else ''::'' @ show_hex (gs ! e) @ groups_text gs s e (Suc e) n)
      else (if 0 < i then '':'' else []) @ show_hex (gs ! i) @ groups_text gs s e (Suc i) n)"

definition ipv6_String :: "bytes \<Rightarrow> string" where
  "ipv6_String b = (let gs = groups b in case zero_run gs of (s, e) \<Rightarrow> groups_text gs s e 0 (length gs))"

text \<open>\<open>To4\<close>: four bytes, or sixteen that embed an IPv4 address.\<close>

definition To4 :: "bytes \<Rightarrow> bytes option" where
  "To4 b =
     (if length b = 4 then Some b
      else if length b = 16 \<and> take 12 b = replicate 10 0 @ [0xff, 0xff] then Some (drop 12 b)
      else None)"

definition To16 :: "bytes \<Rightarrow> bytes option" where
  "To16 b =
     (if length b = 4 then Some (replicate 10 0 @ [0xff, 0xff] @ b) else if length b = 16 then Some b else None)"

definition IP_String :: "bytes \<Rightarrow> string" where
  "IP_String b = (case To4 b of Some v \<Rightarrow> ipv4_String v | None \<Rightarrow> ipv6_String b)"

lemma show_hex_nonempty [simp]: "show_hex n \<noteq> []"
  by (subst show_hex.simps) simp

lemma length_groups: "length (groups b) = length b div 2"
  by (induction b rule: groups.induct) auto

lemma groups_text_nonempty: "gs \<noteq> [] \<Longrightarrow> groups_text gs s e 0 (length gs) \<noteq> []"
  by (cases "length gs") auto

lemma IP_String_nonempty: "length b = 4 \<or> length b = 16 \<Longrightarrow> IP_String b \<noteq> []"
proof -
  assume b: "length b = 4 \<or> length b = 16"
  have v4: "length v = 4 \<Longrightarrow> ipv4_String v \<noteq> []" for v
    by (simp add: ipv4_String_def numeral_eq_Suc length_Suc_conv) auto
  have "length v = 4" if "To4 b = Some v" for v using that by (auto simp: To4_def split: if_splits)
  moreover have "ipv6_String b \<noteq> []" if "To4 b = None"
  proof -
    have "length b = 16" using b that by (auto simp: To4_def)
    then have "length (groups b) = 8" by (simp add: length_groups)
    then have "groups b \<noteq> []" by auto
    then show ?thesis unfolding ipv6_String_def Let_def by (simp add: groups_text_nonempty split: prod.splits)
  qed
  ultimately show ?thesis using v4 by (auto simp: IP_String_def split: option.splits)
qed

section \<open>One connection\<close>

text \<open>
  How a handler leaves a connection: it is closed, or relayed to the stream \<open>t\<close> the dialer has
  returned. The dialer (\<open>proxy.Dialer\<close>) is a function of host and port.
\<close>

type_synonym 't dialer = "string \<Rightarrow> u16 \<Rightarrow> 't res"

datatype 't ending = Closed | Relayed 't

section \<open>The listener\<close>

record proxy_server =
  px_listener :: "string option"
  px_closed :: bool

definition proxy_New :: proxy_server where
  "proxy_New = \<lparr>px_listener = None, px_closed = False\<rparr>"

text \<open>\<open>listened\<close> is the outcome of \<open>net.Listen\<close>, by the address it has bound.\<close>

definition proxy_Start :: "string res \<Rightarrow> proxy_server \<Rightarrow> string res \<times> proxy_server" where
  "proxy_Start listened s =
     (case listened of Inl e \<Rightarrow> (Inl e, s) | Inr a \<Rightarrow> (Inr a, s\<lparr>px_listener := Some a\<rparr>))"

definition proxy_Addr :: "proxy_server \<Rightarrow> string option" where
  "proxy_Addr s = px_listener s"

definition proxy_Close :: "error option \<Rightarrow> proxy_server \<Rightarrow> error option \<times> proxy_server" where
  "proxy_Close closing s = (if px_listener s \<noteq> None then closing else None, s\<lparr>px_closed := True\<rparr>)"

text \<open>
  The accept loop over the outcomes of \<open>Accept\<close>: the connections handed to handlers, and whether the
  error that ended the loop was logged, as one that \<open>Close\<close> did not cause.
\<close>

fun proxy_serve :: "proxy_server \<Rightarrow> 'c res list \<Rightarrow> 'c list \<times> bool" where
  "proxy_serve s [] = ([], False)"
| "proxy_serve s (Inl e # as) = ([], \<not> px_closed s)"
| "proxy_serve s (Inr c # as) = (case proxy_serve s as of (cs, l) \<Rightarrow> (c # cs, l))"

end
