(* ===== verification/Socks5.thy ===== *)
theory Socks5
  imports Proxy Frame
begin

text \<open>
  \<open>src/internal/proxy/socks5/socks5.go\<close>: the SOCKS5 server for local applications. Each step reads
  from and writes to the application's connection; the deadline set on it is not modelled.
\<close>

section \<open>The protocol\<close>

definition version5 :: byte where "version5 = 5"
definition methodNoAuth :: byte where "methodNoAuth = 0"
definition methodNone :: byte where "methodNone = 0xff"
definition commandConnect :: byte where "commandConnect = 1"
definition addressIPv4 :: byte where "addressIPv4 = 1"
definition addressDomain :: byte where "addressDomain = 3"
definition addressIPv6 :: byte where "addressIPv6 = 4"

lemmas socks_consts = version5_def methodNoAuth_def methodNone_def commandConnect_def addressIPv4_def addressDomain_def
  addressIPv6_def

definition negotiate :: "conn \<Rightarrow> error option \<times> conn" where
  "negotiate c =
     (case ReadFull 2 c of
        (Inl e, c1) \<Rightarrow> (Some e, c1)
      | (Inr hdr, c1) \<Rightarrow>
          if hdr ! 0 \<noteq> version5 \<or> hdr ! 1 = 0 then (Some (Msg ''invalid SOCKS5 greeting''), c1)
          else
            (case ReadFull (unat (hdr ! 1)) c1 of
               (Inl e, c2) \<Rightarrow> (Some e, c2)
             | (Inr methods, c2) \<Rightarrow>
                 if methodNoAuth \<in> set methods then io_Write [version5, methodNoAuth] c2
                 else (Some (Msg ''no supported SOCKS5 authentication method''), snd (io_Write [version5, methodNone] c2))))"

text \<open>The address part of a request, by its type.\<close>

definition readHost :: "byte \<Rightarrow> conn \<Rightarrow> string res \<times> conn" where
  "readHost atyp c =
     (if atyp = addressIPv4 then
        (case ReadFull 4 c of (Inl e, c1) \<Rightarrow> (Inl e, c1) | (Inr v, c1) \<Rightarrow> (Inr (IP_String v), c1))
      else if atyp = addressIPv6 then
        (case ReadFull 16 c of (Inl e, c1) \<Rightarrow> (Inl e, c1) | (Inr v, c1) \<Rightarrow> (Inr (IP_String v), c1))
      else if atyp = addressDomain then
        (case ReadFull 1 c of
           (Inl e, c1) \<Rightarrow> (Inl e, c1)
         | (Inr l, c1) \<Rightarrow>
             if l ! 0 = 0 then (Inl (Msg ''empty SOCKS5 destination''), c1)
             else (case ReadFull (unat (l ! 0)) c1 of
                     (Inl e, c2) \<Rightarrow> (Inl e, c2) | (Inr v, c2) \<Rightarrow> (Inr (string_of v), c2)))
      else (Inl (Msg ''unsupported SOCKS5 address type''), c))"

definition readRequest :: "conn \<Rightarrow> (string \<times> u16) res \<times> conn" where
  "readRequest c =
     (case ReadFull 4 c of
        (Inl e, c1) \<Rightarrow> (Inl e, c1)
      | (Inr hdr, c1) \<Rightarrow>
          if hdr ! 0 \<noteq> version5 \<or> hdr ! 1 \<noteq> commandConnect \<or> hdr ! 2 \<noteq> 0
          then (Inl (Msg ''unsupported SOCKS5 request''), c1)
          else
            (case readHost (hdr ! 3) c1 of
               (Inl e, c2) \<Rightarrow> (Inl e, c2)
             | (Inr host, c2) \<Rightarrow>
                 (case ReadFull 2 c2 of
                    (Inl e, c3) \<Rightarrow> (Inl e, c3)
                  | (Inr portBytes, c3) \<Rightarrow>
                      let port = (Uint portBytes :: u16) in
                      if port = 0 then (Inl (Msg ''invalid SOCKS5 destination port''), c3)
                      else (Inr (host, port), c3))))"

text \<open>\<open>writeReply\<close>; the address is the IP of a \<open>*net.TCPAddr\<close>, or \<open>None\<close> for any other.\<close>

definition reply_bytes :: "byte \<Rightarrow> bytes option \<Rightarrow> bytes" where
  "reply_bytes status address =
     (let plain = (\<lambda>ip. [version5, status, 0, addressIPv4] @ ip @ [0, 0]) in
      case address of
        None \<Rightarrow> plain [0, 0, 0, 0]
      | Some ip \<Rightarrow>
          (case To4 ip of
             Some ipv4 \<Rightarrow> plain ipv4
           | None \<Rightarrow>
               (case To16 ip of
                  Some ipv6 \<Rightarrow> [version5, status, 0, addressIPv6] @ ipv6 @ [0, 0]
                | None \<Rightarrow> plain [0, 0, 0, 0])))"

definition writeReply :: "byte \<Rightarrow> bytes option \<Rightarrow> conn \<Rightarrow> error option \<times> conn" where
  "writeReply status address c = io_Write (reply_bytes status address) c"

definition socks_handle :: "'t dialer \<Rightarrow> conn \<Rightarrow> 't ending \<times> conn" where
  "socks_handle dial c =
     (case negotiate c of
        (Some e, c1) \<Rightarrow> (Closed, c1)
      | (None, c1) \<Rightarrow>
          (case readRequest c1 of
             (Inl e, c2) \<Rightarrow> (Closed, snd (writeReply 7 None c2))
           | (Inr (host, port), c2) \<Rightarrow>
               (case dial host port of
                  Inl e \<Rightarrow> (Closed, snd (writeReply 5 None c2))
                | Inr target \<Rightarrow>
                    (case writeReply 0 None c2 of
                       (Some e, c3) \<Rightarrow> (Closed, c3)
                     | (None, c3) \<Rightarrow> (Relayed target, c3)))))"

section \<open>The client's side of the protocol\<close>

text \<open>What a client that speaks SOCKS5 (RFC 1928) sends.\<close>

datatype destination = IPv4 bytes | IPv6 bytes | Domain string

fun destination_ok :: "destination \<Rightarrow> bool" where
  "destination_ok (IPv4 b) \<longleftrightarrow> length b = 4"
| "destination_ok (IPv6 b) \<longleftrightarrow> length b = 16"
| "destination_ok (Domain s) \<longleftrightarrow> s \<noteq> [] \<and> length s \<le> 255"

fun destination_host :: "destination \<Rightarrow> string" where
  "destination_host (IPv4 b) = IP_String b"
| "destination_host (IPv6 b) = IP_String b"
| "destination_host (Domain s) = s"

fun address_bytes :: "destination \<Rightarrow> bytes" where
  "address_bytes (IPv4 b) = addressIPv4 # b"
| "address_bytes (IPv6 b) = addressIPv6 # b"
| "address_bytes (Domain s) = addressDomain # of_nat (length s) # bytes_of s"

definition greeting :: "bytes \<Rightarrow> bytes" where
  "greeting methods = version5 # of_nat (length methods) # methods"

definition connect_request :: "destination \<Rightarrow> u16 \<Rightarrow> bytes" where
  "connect_request d port = [version5, commandConnect, 0] @ address_bytes d @ PutUint 2 port"

lemma length_string_of: "length (string_of b) = length b"
  by (simp add: string_of_def)

lemma unat_byte: "unat (b :: byte) \<le> 255"
  using unsigned_less [where ?'a = nat and w = b] by simp

lemma unat_length: "length (xs :: 'a list) \<le> 255 \<Longrightarrow> unat (of_nat (length xs) :: byte) = length xs"
  by (simp add: unat_of_nat)

lemma negotiate_greeting:
  assumes "0 < length methods" and "length methods \<le> 255" and "rbuf c = greeting methods @ rest" and "wres c = []"
  shows "negotiate c =
    (if 0 \<in> set methods then (None, c\<lparr>rbuf := rest, wout := wout c @ [5, 0]\<rparr>)
     else (Some (Msg ''no supported SOCKS5 authentication method''), c\<lparr>rbuf := rest, wout := wout c @ [5, 255]\<rparr>))"
proof -
  have n: "unat (of_nat (length methods) :: byte) = length methods" by (rule unat_length [OF assms(2)])
  have nz: "(of_nat (length methods) :: byte) \<noteq> 0" using n assms(1) by auto
  have h: "ReadFull 2 c = (Inr [version5, of_nat (length methods)], c\<lparr>rbuf := methods @ rest\<rparr>)"
    by (rule ReadFull_enough) (simp_all add: assms(3) greeting_def)
  have m: "ReadFull (length methods) (c\<lparr>rbuf := methods @ rest\<rparr>) = (Inr methods, c\<lparr>rbuf := rest\<rparr>)"
    using ReadFull_enough [of methods "length methods" "c\<lparr>rbuf := methods @ rest\<rparr>" rest] by simp
  show ?thesis using assms(4) nz by (simp add: negotiate_def h n m io_Write_def socks_consts)
qed

lemma readHost_address:
  assumes "destination_ok d" and "rbuf c = tl (address_bytes d) @ rest"
  shows "readHost (hd (address_bytes d)) c = (Inr (destination_host d), c\<lparr>rbuf := rest\<rparr>)"
proof (cases d)
  case (Domain s)
  let ?c = "c\<lparr>rbuf := bytes_of s @ rest\<rparr>"
  have n: "unat (of_nat (length s) :: byte) = length s" using assms(1) Domain by (simp add: unat_length)
  have nz: "(of_nat (length s) :: byte) \<noteq> 0" using n assms(1) Domain by auto
  have "ReadFull 1 c = (Inr [of_nat (length s)], ?c)"
    by (rule ReadFull_enough) (simp_all add: assms(2) Domain)
  moreover have "ReadFull (length s) ?c = (Inr (bytes_of s), c\<lparr>rbuf := rest\<rparr>)"
    using ReadFull_enough [of "bytes_of s" "length s" ?c rest] by (simp add: bytes_of_def)
  ultimately show ?thesis using n nz by (simp add: Domain readHost_def socks_consts)
next
  case (IPv4 b)
  then have "ReadFull 4 c = (Inr b, c\<lparr>rbuf := rest\<rparr>)" using assms by (intro ReadFull_enough) simp_all
  then show ?thesis by (simp add: IPv4 readHost_def)
next
  case (IPv6 b)
  then have "ReadFull 16 c = (Inr b, c\<lparr>rbuf := rest\<rparr>)" using assms by (intro ReadFull_enough) simp_all
  then show ?thesis by (simp add: IPv6 readHost_def socks_consts)
qed

lemma readRequest_connect:
  assumes "destination_ok d" and "port \<noteq> 0" and "rbuf c = connect_request d port @ rest"
  shows "readRequest c = (Inr (destination_host d, port), c\<lparr>rbuf := rest\<rparr>)"
proof -
  have a: "address_bytes d = hd (address_bytes d) # tl (address_bytes d)" by (cases d) auto
  let ?c1 = "c\<lparr>rbuf := tl (address_bytes d) @ PutUint 2 port @ rest\<rparr>"
  have h: "ReadFull 4 c = (Inr [version5, commandConnect, 0, hd (address_bytes d)], ?c1)"
    using assms(3) a by (intro ReadFull_enough) (simp_all add: connect_request_def)
  have r: "readHost (hd (address_bytes d)) ?c1 = (Inr (destination_host d), ?c1\<lparr>rbuf := PutUint 2 port @ rest\<rparr>)"
    by (rule readHost_address [OF assms(1)]) simp
  have p: "ReadFull 2 (c\<lparr>rbuf := PutUint 2 port @ rest\<rparr>) = (Inr (PutUint 2 port), c\<lparr>rbuf := rest\<rparr>)"
    using ReadFull_enough [of "PutUint 2 port" 2 "c\<lparr>rbuf := PutUint 2 port @ rest\<rparr>" rest] by simp
  have u: "(Uint (PutUint 2 port) :: u16) = port" by (rule Uint_PutUint) simp
  show ?thesis using assms(2) r by (simp add: readRequest_def h p u Let_def del: PutUint.simps)
qed


section \<open>Where a request comes from\<close>

lemma negotiate_noauth:
  assumes "negotiate c = (None, c')"
  shows "\<exists>ms. rbuf c = greeting ms @ rbuf c' \<and> 0 \<in> set ms \<and> length ms \<le> 255"
proof -
  obtain hdr c1 where h: "ReadFull 2 c = (Inr hdr, c1)" and v: "hdr ! 0 = version5" "hdr ! 1 \<noteq> 0"
    using assms by (auto simp: negotiate_def split: prod.splits sum.splits if_splits)
  obtain ms c2 where m: "ReadFull (unat (hdr ! 1)) c1 = (Inr ms, c2)" "methodNoAuth \<in> set ms"
    and w: "io_Write [version5, methodNoAuth] c2 = (None, c')"
    using assms h v by (auto simp: negotiate_def split: prod.splits sum.splits if_splits)
  note a = ReadFull_InrD [OF h] and b = ReadFull_InrD [OF m(1)]
  have "hdr = [version5, hdr ! 1]" using a v by (auto simp: numeral_eq_Suc length_Suc_conv)
  moreover have "hdr ! 1 = of_nat (length ms)" using b by simp
  ultimately have hdr: "hdr = [version5, of_nat (length ms)]" by simp
  have "rbuf c' = rbuf c2" using io_Write_reader(1) [of "[version5, methodNoAuth]" c2] w by simp
  then have "rbuf c = hdr @ ms @ rbuf c'" using a b by simp
  then have "rbuf c = greeting ms @ rbuf c'" unfolding hdr greeting_def by simp
  moreover have "length ms \<le> 255" using b unat_byte [of "hdr ! 1"] by simp
  ultimately show ?thesis using m(2) by (auto simp: methodNoAuth_def)
qed

lemma readHost_host:
  assumes "readHost atyp c = (Inr host, c')"
  shows "\<exists>d. destination_ok d \<and> host = destination_host d \<and> atyp # rbuf c = address_bytes d @ rbuf c'"
proof -
  consider "atyp = addressIPv4" | "atyp = addressIPv6" | "atyp = addressDomain"
    using assms by (auto simp: readHost_def split: if_splits)
  then show ?thesis
  proof cases
    case 1
    then obtain v where "ReadFull 4 c = (Inr v, c')" "host = IP_String v"
      using assms by (auto simp: readHost_def split: prod.splits sum.splits)
    with 1 show ?thesis using ReadFull_InrD [of 4 c v c'] by (intro exI [of _ "IPv4 v"]) auto
  next
    case 2
    then obtain v where "ReadFull 16 c = (Inr v, c')" "host = IP_String v"
      using assms by (auto simp: readHost_def socks_consts split: prod.splits sum.splits)
    with 2 show ?thesis using ReadFull_InrD [of 16 c v c'] by (intro exI [of _ "IPv6 v"]) auto
  next
    case 3
    then obtain l c1 v where l: "ReadFull 1 c = (Inr l, c1)" "l ! 0 \<noteq> 0" and v: "ReadFull (unat (l ! 0)) c1 = (Inr v, c')" "host = string_of v"
      using assms by (auto simp: readHost_def socks_consts split: prod.splits sum.splits if_splits)
    note a = ReadFull_InrD [OF l(1)] and b = ReadFull_InrD [OF v(1)]
    have "l = [l ! 0]" using a by (auto simp: length_Suc_conv)
    moreover have "l ! 0 = of_nat (length v)" using b by simp
    ultimately have le: "l = [of_nat (length v)]" by simp
    have "length v \<le> 255" "v \<noteq> []" using b l(2) unat_byte [of "l ! 0"] by (auto simp: unat_eq_zero)
    then have "destination_ok (Domain host)" using v(2) by (simp add: string_of_def)
    moreover have "rbuf c = l @ v @ rbuf c'" using a b by simp
    then have "atyp # rbuf c = address_bytes (Domain host) @ rbuf c'"
      using 3 v(2) unfolding le by (simp add: length_string_of)
    ultimately show ?thesis by (intro exI [of _ "Domain host"]) simp
  qed
qed

lemma destination_nonempty: "destination_ok d \<Longrightarrow> destination_host d \<noteq> []"
  by (cases d) (auto simp: IP_String_nonempty)

section \<open>Properties\<close>

text \<open>
  C25 (SOCKS5). For a client that offers the no-authentication method and asks for a connection to an
  address or a name, the server dials exactly that host and port, answers the greeting and the
  request, with success exactly if the dialer succeeded, and has read not one byte of the data the
  client may have sent behind its request.
\<close>

theorem socks_connects:
  assumes "0 \<in> set methods" and "length methods \<le> 255" and "destination_ok d" and "port \<noteq> 0"
    and "rbuf c = greeting methods @ connect_request d port @ rest" and "wres c = []"
  shows "socks_handle dial c =
    (case dial (destination_host d) port of
       Inr t \<Rightarrow> (Relayed t, c\<lparr>rbuf := rest, wout := wout c @ [5, 0] @ [5, 0, 0, 1, 0, 0, 0, 0, 0, 0]\<rparr>)
     | Inl e \<Rightarrow> (Closed, c\<lparr>rbuf := rest, wout := wout c @ [5, 0] @ [5, 5, 0, 1, 0, 0, 0, 0, 0, 0]\<rparr>))"
proof -
  have "0 < length methods" using assms(1) by auto
  from negotiate_greeting [OF this assms(2,5,6)]
  have n: "negotiate c = (None, c\<lparr>rbuf := connect_request d port @ rest, wout := wout c @ [5, 0]\<rparr>)"
    using assms(1) by simp
  have r: "readRequest (c\<lparr>rbuf := connect_request d port @ rest, wout := wout c @ [5, 0]\<rparr>)
      = (Inr (destination_host d, port), c\<lparr>rbuf := rest, wout := wout c @ [5, 0]\<rparr>)"
    using readRequest_connect [OF assms(3,4), of "c\<lparr>rbuf := connect_request d port @ rest, wout := wout c @ [5, 0]\<rparr>" rest] by simp
  show ?thesis
    using assms(6) by (simp add: socks_handle_def n r writeReply_def reply_bytes_def io_Write_def socks_consts split: sum.splits)
qed

theorem socks_connects_witness:
  "socks_handle (\<lambda>h p. if h = ''a.b'' \<and> p = 80 then Inr True else Inl EOF)
     (conn_of ([5, 2, 1, 0] @ [5, 1, 0, 3, 3, 97, 46, 98, 0, 80] @ [71, 69, 84]))
   = (Relayed True, conn_of [71, 69, 84]\<lparr>wout := [5, 0, 5, 0, 0, 1, 0, 0, 0, 0, 0, 0]\<rparr>)"
proof -
  have "connect_request (Domain ''a.b'') 80 = [5, 1, 0, 3, 3, 97, 46, 98, 0, 80]" by code_simp
  moreover have "greeting [1, 0] = [5, 2, 1, 0]" by (simp add: greeting_def version5_def)
  ultimately show ?thesis
    using socks_connects [of "[1, 0]" "Domain ''a.b''" 80 "conn_of ([5, 2, 1, 0] @ [5, 1, 0, 3, 3, 97, 46, 98, 0, 80] @ [71, 69, 84])"
        "[71, 69, 84]" "\<lambda>h p. if h = ''a.b'' \<and> p = 80 then Inr True else Inl EOF"]
    by (simp add: conn_of_def)
qed

text \<open>
  C26 (SOCKS5 requests). Whatever an application sends, a connection is relayed only if what it sent is
  a greeting that offers no authentication followed by a well-formed connect request; the stream it
  is relayed to is the dialer's answer for the host and port of that request, a host that is never
  empty and a port that is never 0.
\<close>

theorem socks_relays_only_requests:
  assumes "socks_handle dial c = (Relayed t, c')"
  shows "\<exists>ms d port. 0 \<in> set ms \<and> destination_ok d \<and> destination_host d \<noteq> [] \<and> port \<noteq> 0 \<and> dial (destination_host d) port = Inr t
    \<and> rbuf c = greeting ms @ connect_request d port @ rbuf c'"
proof -
  obtain c1 host port c2 where n: "negotiate c = (None, c1)" and r: "readRequest c1 = (Inr (host, port), c2)"
    and t: "dial host port = Inr t" and w: "writeReply 0 None c2 = (None, c')"
    using assms by (auto simp: socks_handle_def split: prod.splits option.splits sum.splits)
  obtain ms where ms: "rbuf c = greeting ms @ rbuf c1" "0 \<in> set ms" using negotiate_noauth [OF n] by blast
  obtain hdr c3 where h: "ReadFull 4 c1 = (Inr hdr, c3)" "hdr ! 0 = version5" "hdr ! 1 = commandConnect" "hdr ! 2 = 0"
    using r by (auto simp: readRequest_def split: prod.splits sum.splits if_splits)
  obtain c4 pb where rh: "readHost (hdr ! 3) c3 = (Inr host, c4)" and rp: "ReadFull 2 c4 = (Inr pb, c2)"
    and p: "port = Uint pb" "port \<noteq> 0"
    using r h by (auto simp: readRequest_def Let_def split: prod.splits sum.splits if_splits)
  obtain d where d: "destination_ok d" "host = destination_host d" "hdr ! 3 # rbuf c3 = address_bytes d @ rbuf c4"
    using readHost_host [OF rh] by blast
  note a = ReadFull_InrD [OF h(1)] and b = ReadFull_InrD [OF rp]
  have "hdr = [version5, commandConnect, 0, hdr ! 3]"
    using a h by (auto simp: numeral_eq_Suc length_Suc_conv)
  moreover have "PutUint 2 port = pb" using b p PutUint_Uint [of pb, where ?'a = 16] by simp
  moreover have "rbuf c' = rbuf c2"
    using w io_Write_reader(1) [of "reply_bytes 0 None" c2] by (simp add: writeReply_def)
  ultimately have "rbuf c1 = connect_request d port @ rbuf c'"
    using a b d(3) by (simp add: connect_request_def) (metis append_Cons append_Nil append_assoc)
  with ms d t p destination_nonempty [OF d(1)] show ?thesis
    by (intro exI [of _ ms] exI [of _ d] exI [of _ port]) simp
qed


theorem socks_relays_only_requests_witness:
  "\<exists>ms d port. 0 \<in> set ms \<and> destination_host d \<noteq> [] \<and> port \<noteq> 0 \<and>
     [5, 1, 0, 5, 1, 0, 1, 10, 0, 0, 1, 1, 187] = greeting ms @ connect_request d port"
proof -
  have "connect_request (IPv4 [10, 0, 0, 1]) 443 = [5, 1, 0, 1, 10, 0, 0, 1, 1, 187]" by code_simp
  moreover have "greeting [0] = [5, 1, 0]" by (simp add: greeting_def version5_def)
  ultimately have rb: "rbuf (conn_of [5, 1, 0, 5, 1, 0, 1, 10, 0, 0, 1, 1, 187]) = greeting [0] @ connect_request (IPv4 [10, 0, 0, 1]) 443 @ []"
    by (simp add: conn_of_def)
  let ?c = "conn_of [5, 1, 0, 5, 1, 0, 1, 10, 0, 0, 1, 1, 187]"
  define c1 where "c1 = ?c\<lparr>rbuf := connect_request (IPv4 [10, 0, 0, 1]) 443 @ [], wout := [5, 0]\<rparr>"
  have n: "negotiate ?c = (None, c1)" using negotiate_greeting [OF _ _ rb] by (simp add: conn_of_def c1_def)
  have w: "wres c1 = []" by (simp add: c1_def conn_of_def)
  have r: "readRequest c1 = (Inr (IP_String [10, 0, 0, 1], 443), c1\<lparr>rbuf := []\<rparr>)"
    using readRequest_connect [of "IPv4 [10, 0, 0, 1]" 443 c1 "[]"] by (simp add: c1_def)
  have "\<exists>c'. socks_handle (\<lambda>h p. Inr True) ?c = (Relayed True, c') \<and> rbuf c' = []"
    by (simp add: socks_handle_def n r writeReply_def io_Write_def w)
  then obtain c' where c': "socks_handle (\<lambda>h p. Inr True) ?c = (Relayed True, c')" "rbuf c' = []" by blast
  from socks_relays_only_requests [OF c'(1)] c'(2) show ?thesis by (auto simp: conn_of_def)
qed

end
