(* ===== verification/HttpConnect.thy ===== *)
theory HttpConnect
  imports Proxy ProxyRelay
begin

text \<open>
  \<open>src/internal/proxy/httpconnect/httpconnect.go\<close>: the HTTP proxy for local applications. A request is
  what \<open>net/http\<close> makes of the application's bytes: \<open>http_request\<close> has the fields the proxy looks
  at. Reading goes through a \<open>bufio.Reader\<close>, which may take more bytes off the connection than the
  request has; \<open>taken\<close> is how many. The stream to the target is known by its operations (\<open>proxy.Stream\<close> of
  \<open>src/internal/proxy/dialer.go\<close>); for the properties these are the ones of a session's stream.
\<close>

section \<open>The listener\<close>

text \<open>The life cycle of the server, which repeats the one of the SOCKS5 server.\<close>

definition http_New :: proxy_server where
  "http_New = \<lparr>px_listener = None, px_closed = False\<rparr>"

definition http_Start :: "string res \<Rightarrow> proxy_server \<Rightarrow> string res \<times> proxy_server" where
  "http_Start listened s =
     (case listened of Inl e \<Rightarrow> (Inl e, s) | Inr a \<Rightarrow> (Inr a, s\<lparr>px_listener := Some a\<rparr>))"

definition http_Addr :: "proxy_server \<Rightarrow> string option" where
  "http_Addr s = px_listener s"

definition http_Close :: "error option \<Rightarrow> proxy_server \<Rightarrow> error option \<times> proxy_server" where
  "http_Close closing s = (if px_listener s \<noteq> None then closing else None, s\<lparr>px_closed := True\<rparr>)"

fun http_serve :: "proxy_server \<Rightarrow> 'c res list \<Rightarrow> 'c list \<times> bool" where
  "http_serve s [] = ([], False)"
| "http_serve s (Inl e # as) = ([], \<not> px_closed s)"
| "http_serve s (Inr c # as) = (case http_serve s as of (cs, l) \<Rightarrow> (c # cs, l))"

text \<open>So the client's runtime may treat both listeners alike.\<close>

lemma http_serve_same: "http_serve s as = proxy_serve s as"
  by (induction s as rule: http_serve.induct) simp_all

lemma http_listener: "http_New = proxy_New" "http_Start = proxy_Start" "http_Addr = proxy_Addr" "http_Close = proxy_Close" "http_serve = proxy_serve"
  by (simp_all add: fun_eq_iff http_serve_same http_New_def proxy_New_def http_Start_def proxy_Start_def http_Addr_def proxy_Addr_def http_Close_def proxy_Close_def)

section \<open>Requests\<close>

record http_request =
  rq_Method :: string
  rq_Host :: string
  rq_URL :: "(string \<times> string) option"
  rq_RequestURI :: string
  rq_Header :: "(string \<times> string) list"
  rq_Body :: "bytes option"

text \<open>The URL is given by its scheme and host. \<open>Header.Del\<close> removes every value of a key.\<close>

definition header_Del :: "string \<Rightarrow> http_request \<Rightarrow> http_request" where
  "header_Del k rq = rq\<lparr>rq_Header := filter (\<lambda>(n, v). \<not> EqualFold n k) (rq_Header rq)\<rparr>"

definition http_splitHostPort :: "string \<Rightarrow> int \<Rightarrow> (string \<times> u16) res" where
  "http_splitHostPort value0 fallback =
     (let value = TrimSpace value0 in
      if value = [] then Inl (Msg ''destination host is required'')
      else
        let finish = (\<lambda>host portText.
          case Atoi portText of
            None \<Rightarrow> Inl (Msg ''invalid destination port'')
          | Some port \<Rightarrow>
              if port < 1 \<or> port > 65535 then Inl (Msg ''invalid destination port'')
              else Inr (Trim host ''[]'', of_int port)) in
        case SplitHostPort value of
          Inr (parsedHost, parsedPort) \<Rightarrow> finish parsedHost parsedPort
        | Inl _ \<Rightarrow>
            if count_list value (CHR '':'') = 1 then Inl (Msg ''invalid destination'')
            else finish value (Itoa fallback))"

definition defaultPort :: "string \<Rightarrow> int" where
  "defaultPort scheme = (if EqualFold scheme ''https'' then 443 else 80)"

section \<open>Responses\<close>

text \<open>\<open>http.StatusText\<close> for the two codes that are used.\<close>

definition StatusText :: "nat \<Rightarrow> string" where
  "StatusText status = (if status = 400 then ''Bad Request'' else if status = 502 then ''Bad Gateway'' else [])"

definition crlf :: string where "crlf = [CHR 0x0D, CHR 0x0A]"

definition response_text :: "nat \<Rightarrow> string \<Rightarrow> string" where
  "response_text status message =
     (let body = message @ [CHR 0x0A] in
      ''HTTP/1.1 '' @ show_nat status @ '' '' @ StatusText status @ crlf @
      ''Content-Type: text/plain; charset=utf-8'' @ crlf @
      ''Content-Length: '' @ show_nat (length body) @ crlf @
      ''Connection: close'' @ crlf @ crlf @ body)"

definition writeResponse :: "nat \<Rightarrow> string \<Rightarrow> conn \<Rightarrow> error option \<times> conn" where
  "writeResponse status message c = io_Write (bytes_of (response_text status message)) c"

definition writeError :: "nat \<Rightarrow> string \<Rightarrow> conn \<Rightarrow> conn" where
  "writeError status message c = snd (writeResponse status message c)"

definition established :: string where
  "established = ''HTTP/1.1 200 Connection Established'' @ crlf @ crlf"

section \<open>Handling a connection\<close>

definition handleConnect :: "'t dialer \<Rightarrow> http_request \<Rightarrow> conn \<Rightarrow> 't ending \<times> conn" where
  "handleConnect dial rq c =
     (case http_splitHostPort (rq_Host rq) 443 of
        Inl e \<Rightarrow> (Closed, writeError 400 (error_text e) c)
      | Inr (host, port) \<Rightarrow>
          (case dial host port of
             Inl e \<Rightarrow> (Closed, writeError 502 ''destination unavailable'' c)
           | Inr target \<Rightarrow>
               (case io_Write (bytes_of established) c of
                  (Some e, c1) \<Rightarrow> (Closed, c1)
                | (None, c1) \<Rightarrow> (Relayed target, c1))))"

text \<open>
  The operations of a stream, and the write of a connection with the number of bytes it took.
\<close>

record 't stream_ops =
  so_Read :: "nat \<Rightarrow> 't \<Rightarrow> (read_result \<times> 't) list"
  so_Write :: "bytes \<Rightarrow> 't \<Rightarrow> nat \<times> error option \<times> 't"
  so_CloseWrite :: "'t \<Rightarrow> 't"
  so_Close :: "'t \<Rightarrow> 't"

definition conn_Write :: "bytes \<Rightarrow> conn \<Rightarrow> nat \<times> error option \<times> conn" where
  "conn_Write p c = (case io_Write p c of (e, c') \<Rightarrow> (length (wout c') - length (wout c), e, c'))"

text \<open>
  \<open>handleHTTP\<close>: the request goes to the target without the proxy's part of it, then the stream is half-closed and what the
  target answers is copied to the application; the stream is closed at the end in any case. \<open>render\<close> stands for \<open>Request.Write\<close>, which
  writes and closes the body too, so that the copy of the body that follows finds nothing. The outcomes within \<open>fuel\<close> reads are
  listed, none while the answer is awaited; with each comes the connection and the stream, if one was opened.
\<close>

definition strip_request :: "http_request \<Rightarrow> http_request" where
  "strip_request rq =
     header_Del ''Proxy-Connection'' (rq\<lparr>rq_RequestURI := [], rq_URL := Some ([], [])\<rparr>)"

definition handleHTTP ::
  "'t stream_ops \<Rightarrow> nat \<Rightarrow> (http_request \<Rightarrow> bytes) \<Rightarrow> 't dialer \<Rightarrow> http_request \<Rightarrow> conn \<Rightarrow> (conn \<times> 't option) list" where
  "handleHTTP ops fuel render dial rq c =
     (case rq_URL rq of
        None \<Rightarrow> [(writeError 400 ''absolute URL required'' c, None)]
      | Some (scheme, urlHost) \<Rightarrow>
          if urlHost = [] then [(writeError 400 ''absolute URL required'' c, None)]
          else
            (case http_splitHostPort urlHost (defaultPort scheme) of
               Inl e \<Rightarrow> [(writeError 400 (error_text e) c, None)]
             | Inr (host, port) \<Rightarrow>
                 (case dial host port of
                    Inl e \<Rightarrow> [(writeError 502 ''destination unavailable'' c, None)]
                  | Inr target \<Rightarrow>
                      (case so_Write ops (render (strip_request rq)) target of
                         (m, Some e, t1) \<Rightarrow> [(c, Some (so_Close ops t1))]
                       | (m, None, t1) \<Rightarrow>
                           map (\<lambda>(e, t2, c1). (c1, Some (so_Close ops t2)))
                             (io_Copy (so_Read ops) conn_Write fuel copy_buffer (so_CloseWrite ops t1) c)))))"

text \<open>
  \<open>handle\<close> for a connection whose next request \<open>net/http\<close> parses as \<open>parsed\<close>: a malformed request, a
  CONNECT request with the stream it is relayed to, or a plain request with the stream to the target.
\<close>

datatype 't http_outcome = HMalformed conn | HConnect "'t ending" conn | HPlain conn "'t option"

definition http_handle ::
  "'t stream_ops \<Rightarrow> nat \<Rightarrow> (http_request \<Rightarrow> bytes) \<Rightarrow> 't dialer \<Rightarrow> http_request res \<Rightarrow> nat \<Rightarrow> conn \<Rightarrow> 't http_outcome list" where
  "http_handle ops fuel render dial parsed taken c =
     (let c1 = c\<lparr>rbuf := drop taken (rbuf c)\<rparr> in
      case parsed of
        Inl e \<Rightarrow> [HMalformed (writeError 400 ''malformed HTTP proxy request'' c1)]
      | Inr rq \<Rightarrow>
          if rq_Method rq = ''CONNECT'' then (case handleConnect dial rq c1 of (r, c2) \<Rightarrow> [HConnect r c2])
          else map (\<lambda>(c2, t). HPlain c2 t) (handleHTTP ops fuel render dial rq c1))"

text \<open>The operations of stream \<open>r\<close> of a session.\<close>

definition session_stream :: "nat \<Rightarrow> session stream_ops" where
  "session_stream r = \<lparr>so_Read = (\<lambda>n s. map (\<lambda>(x, st). (x, upd r (\<lambda>_. st) s)) (Stream_Read n (deref s r))),
     so_Write = Stream_Write r, so_CloseWrite = (\<lambda>s. snd (Stream_CloseWrite r s)), so_Close = (\<lambda>s. snd (Stream_Close r s))\<rparr>"

text \<open>Reading and receiving leave the connection and the sending side alone.\<close>

lemma read_localEOF:
  assumes "stream_ok cap st" "(x, st') \<in> set (Stream_Read n st)"
  shows "st_localEOF st' = st_localEOF st"
  using assms by (auto simp: Stream_Read_def read_fill.simps [of n "st_reads st"] read_take_def stream_ok_def split: list.splits if_splits option.splits)

lemma push_localEOF: "st' \<in> set (stream_push cap d st) \<Longrightarrow> st_localEOF st' = st_localEOF st"
  by (auto simp: stream_push_iff Stream_deliver_def split: if_splits)

interpretation ps: byte_queue "\<lambda>s. r < length (ss_heap s) \<and> stream_ok cap (deref s r) \<and> ss_conn s = k \<and> st_localEOF (deref s r) = l" "\<lambda>s. pending (deref s r)"
  "\<lambda>d s. map (\<lambda>st. upd r (\<lambda>_. st) s) (stream_push cap d (deref s r))" "so_Read (session_stream r)" "\<lambda>s. stream_ended (deref s r)" for r cap k l
proof (unfold_locales, goal_cases)
  case (1 q q' d)
  then show ?case using sq.push_abs [of cap "deref q r" _ d] push_localEOF [of _ cap d "deref q r"] by (auto simp: upd_def)
next
  case (2 q d q' n)
  then show ?case using sq.pop_bytes [of cap "deref q r" d _ n] read_localEOF [of cap "deref q r" _ _ n] by (auto simp: session_stream_def upd_def)
next
  case (3 q n)
  then show ?case using sq.pop_ended [of cap "deref q r" n] by (auto simp: session_stream_def)
next
  case (4 q d q' n)
  then show ?case using sq.pop_ended_bytes [of cap "deref q r" d _ n] by (auto simp: session_stream_def upd_def)
next
  case (5 q e q' n)
  then obtain st where "(ReadFail e, st) \<in> set (Stream_Read n (deref q r))" "q' = upd r (\<lambda>_. st) q" by (auto simp: session_stream_def)
  with 5 show ?case using sq.pop_ended_fail [of cap "deref q r" e st n] by (simp add: upd_def)
qed

section \<open>Lemmas\<close>

lemma Itoa_default: "Atoi (Itoa (defaultPort s)) = Some (defaultPort s)" "Atoi (Itoa 443) = Some 443"
proof -
  have "Atoi (show_nat 443) = Some 443" "Atoi (show_nat 80) = Some 80"
    using Atoi_show_nat [of 443] Atoi_show_nat [of 80] by (simp_all add: int64_def)
  then show "Atoi (Itoa (defaultPort s)) = Some (defaultPort s)" "Atoi (Itoa 443) = Some 443"
    by (simp_all add: Itoa_def defaultPort_def)
qed

lemma Trim_id: "set s \<inter> set cs = {} \<Longrightarrow> Trim s cs = s"
  unfolding Trim_def
  by (rule TrimFunc_id) (cases s; auto simp: trimmed_def last_in_set disjoint_iff dest: hd_in_set)

lemma show_nat_plain:
  "CHR '':'' \<notin> set (show_nat n)" "bracket_free (show_nat n)"
  using show_nat_digits [of n] by (auto simp: list_all_iff is_digit_def bracket_free_def)


definition host_text :: "string \<Rightarrow> bool" where
  "host_text h \<longleftrightarrow> h \<noteq> [] \<and> bracket_free h \<and> list_all (\<lambda>c. \<not> is_space c) h"

lemma TrimSpace_text: "s \<noteq> [] \<Longrightarrow> list_all (\<lambda>c. \<not> is_space c) s \<Longrightarrow> TrimSpace s = s"
  unfolding TrimSpace_def by (rule TrimFunc_id) (simp add: trimmed_def list_all_iff)

lemma Trim_brackets: "bracket_free h \<Longrightarrow> Trim h ''[]'' = h"
  by (rule Trim_id) (auto simp: bracket_free_def)

lemma join_text:
  assumes "host_text h"
  shows "TrimSpace (JoinHostPort h (show_nat p)) = JoinHostPort h (show_nat p)" "JoinHostPort h (show_nat p) \<noteq> []"
proof -
  have d: "list_all (\<lambda>c. \<not> is_space c) (show_nat p)"
    using show_nat_digits [of p] by (auto simp: list_all_iff is_digit_def is_space_def)
  have c: "\<not> is_space (CHR '':'')" "\<not> is_space (CHR ''['')" "\<not> is_space (CHR '']'')" by (simp_all add: is_space_def)
  show "JoinHostPort h (show_nat p) \<noteq> []" by (simp add: JoinHostPort_def)
  then show "TrimSpace (JoinHostPort h (show_nat p)) = JoinHostPort h (show_nat p)"
    using assms d c by (intro TrimSpace_text) (auto simp: JoinHostPort_def host_text_def list_all_iff)
qed

lemma SplitHostPort_no_colon: "CHR '':'' \<notin> set h \<Longrightarrow> SplitHostPort h = Inl MissingPort"
  by (simp add: SplitHostPort_def split_last_colon_None [THEN iffD2])

lemma http_splitHostPort_accepts:
  "http_splitHostPort v d = Inr (h, p) \<Longrightarrow> p \<noteq> 0"
proof -
  have nz: "(of_int x :: u16) \<noteq> 0" if "\<not> x < 1" "\<not> 65535 < x" for x :: int
    using that by (auto simp: word_of_int_eq_0_iff dest: zdvd_imp_le)
  assume "http_splitHostPort v d = Inr (h, p)"
  then show ?thesis using nz by (auto simp: http_splitHostPort_def Let_def split: if_splits option.splits sum.splits prod.splits)
qed

section \<open>Properties\<close>

text \<open>
  Remark (HTTP destinations). The proxy takes host and port of a request exactly as they were written: a
  name or an address followed by a port, an IPv6 address in brackets, or a name alone, which gets
  the default port. Whatever text it accepts, the port is never 0.
\<close>

theorem http_destination:
  assumes "host_text h" and "1 \<le> p" and "p \<le> 65535" and "0 < d" and "d \<le> 65535"
  shows "http_splitHostPort (JoinHostPort h (show_nat p)) (int d) = Inr (h, of_nat p)
    \<and> (CHR '':'' \<notin> set h \<longrightarrow> http_splitHostPort h (int d) = Inr (h, of_nat d))
    \<and> (\<forall>v x q. http_splitHostPort v (int d) = Inr (x, q) \<longrightarrow> q \<noteq> 0)"
proof -
  have bf: "bracket_free h" "h \<noteq> []" "list_all (\<lambda>c. \<not> is_space c) h" using assms(1) by (simp_all add: host_text_def)
  have at: "Atoi (show_nat n) = Some (int n)" if "n \<le> 65535" for n using that by (intro Atoi_show_nat) (simp add: int64_def)
  have sp: "SplitHostPort (JoinHostPort h (show_nat p)) = Inr (h, show_nat p)"
    by (rule SplitHostPort_JoinHostPort [OF bf(1) show_nat_plain(2,1)])
  have "http_splitHostPort (JoinHostPort h (show_nat p)) (int d) = Inr (h, of_nat p)"
    using assms(2,3) by (simp add: http_splitHostPort_def join_text [OF assms(1)] sp at Trim_brackets [OF bf(1)])
  moreover have "http_splitHostPort h (int d) = Inr (h, of_nat d)" if "CHR '':'' \<notin> set h"
    using that assms(4,5) bf
    by (simp add: http_splitHostPort_def TrimSpace_text SplitHostPort_no_colon count_notin Itoa_def at Trim_brackets)
  ultimately show ?thesis using http_splitHostPort_accepts by blast
qed

theorem http_destination_witness:
  "http_splitHostPort ''[::1]:80'' 443 = Inr (''::1'', 80) \<and> http_splitHostPort ''a.b'' 443 = Inr (''a.b'', 443)"
proof -
  have h: "host_text ''::1''" "host_text ''a.b''" by (simp_all add: host_text_def bracket_free_def is_space_def)
  have "show_nat 80 = ''80''" by code_simp
  then have "JoinHostPort ''::1'' (show_nat 80) = ''[::1]:80''" by (simp add: JoinHostPort_def)
  then show ?thesis using http_destination [OF h(1), of 80 443] http_destination [OF h(2), of 80 443] by simp
qed



text \<open>
  Remark (lost bytes). After a CONNECT request the proxy relays the connection itself and drops the
  reader it parsed the request with: of the bytes an application sends behind its request, those
  that the reader had already taken off the connection never reach the target.
\<close>

theorem connect_drops_buffered:
  assumes "rbuf c = head @ rest" and "length head \<le> taken" and "rq_Method rq = ''CONNECT''"
    and "http_handle ops fuel render dial (Inr rq) taken c = [HConnect (Relayed t) c']"
  shows "rbuf c' = drop (taken - length head) rest"
proof -
  have "rbuf c' = drop taken (rbuf c)"
  proof -
    have "io_Write (bytes_of established) (c\<lparr>rbuf := drop taken (rbuf c)\<rparr>) = (None, c')"
      using assms(3,4) by (auto simp: http_handle_def handleConnect_def Let_def split: sum.splits prod.splits option.splits)
    then show ?thesis using io_Write_reader(1) [of "bytes_of established" "c\<lparr>rbuf := drop taken (rbuf c)\<rparr>"] by simp
  qed
  with assms(1,2) show ?thesis by simp
qed

theorem connect_drops_buffered_witness:
  "\<exists>c'. http_handle (session_stream 0) 1 (\<lambda>_. []) (\<lambda>h p. Inr ex_session)
     (Inr \<lparr>rq_Method = ''CONNECT'', rq_Host = ''a.b:443'', rq_URL = None, rq_RequestURI = ''a.b:443'', rq_Header = [], rq_Body = None\<rparr>)
     4 (conn_of [1, 2, 3, 22]) = [HConnect (Relayed ex_session) c'] \<and> rbuf c' = []"
proof -
  let ?rq = "\<lparr>rq_Method = ''CONNECT'', rq_Host = ''a.b:443'', rq_URL = None, rq_RequestURI = ''a.b:443'', rq_Header = [], rq_Body = None\<rparr> :: http_request"
  have "http_splitHostPort ''a.b:443'' 443 = Inr (''a.b'', 443)" by code_simp
  then have "\<exists>c'. http_handle (session_stream 0) 1 (\<lambda>_. []) (\<lambda>h p. Inr ex_session) (Inr ?rq) 4 (conn_of [1, 2, 3, 22]) = [HConnect (Relayed ex_session) c']"
    by (simp add: http_handle_def handleConnect_def io_Write_def conn_of_def)
  then obtain c' where c': "http_handle (session_stream 0) 1 (\<lambda>_. []) (\<lambda>h p. Inr ex_session) (Inr ?rq) 4 (conn_of [1, 2, 3, 22]) = [HConnect (Relayed ex_session) c']" ..
  with connect_drops_buffered [OF _ _ _ c', of "[1, 2, 3]" "[22]"] show ?thesis by (auto simp: conn_of_def)
qed

end
