(* ===== verification/Dialing.thy ===== *)
theory Dialing
  imports TrustProps Config
begin

text \<open>
  Connecting to the server, as the exit (\<open>src/internal/node/exit.go\<close>) and the client
  (\<open>src/internal/client/manager.go\<close>) do it. The TLS and QUIC stacks are parameters: a dial takes
  the address, the callback \<open>VerifyConnection\<close> of the TLS configuration and the trust store the
  callback may change. A QUIC dial that succeeds yields the outcome of opening a stream on it.
\<close>

section \<open>TLS configurations\<close>

type_synonym tls_verify = "bytes list \<Rightarrow> KnownHosts option \<Rightarrow> error option \<times> KnownHosts option"
type_synonym 'c tls_dial = "string \<Rightarrow> tls_verify \<Rightarrow> KnownHosts option \<Rightarrow> 'c res \<times> KnownHosts option"

text \<open>
  \<open>ClientTLSConfig(expected, trust, host)\<close>, by its callback; \<open>use\<close> says whether the store is handed
  to it or a nil interface.
\<close>

definition ClientTLSConfig :: "string \<Rightarrow> bool \<Rightarrow> string \<Rightarrow> tls_verify" where
  "ClientTLSConfig expected use host certs t =
     (case t of
        Some k \<Rightarrow>
          (case VerifyConnection expected (if use then Some KnownHosts_Save else None) host certs k of
             (x, k') \<Rightarrow> (x, Some k'))
      | None \<Rightarrow> (fst (VerifyConnection expected None host certs ()), None))"

definition addressHost :: "string \<Rightarrow> string" where
  "addressHost address = (case SplitHostPort address of Inl _ \<Rightarrow> address | Inr (h, p) \<Rightarrow> h)"

text \<open>
  What \<open>crypto/tls\<close> documents of \<open>VerifyConnection\<close>: a handshake completes only if the callback,
  called with the peer's certificates, returned no error.
\<close>

definition verifying :: "'c tls_dial \<Rightarrow> bool" where
  "verifying dial \<longleftrightarrow> (\<forall>a v t c t'. dial a v t = (Inr c, t') \<longrightarrow> (\<exists>certs t0. v certs t0 = (None, t')))"

section \<open>Whom a verified connection leads to\<close>

text \<open>\<open>trusted expected host leaf t\<close>: the certificate is the expected one, or the one the store has pinned.\<close>

definition trusted :: "string \<Rightarrow> string \<Rightarrow> bytes \<Rightarrow> KnownHosts option \<Rightarrow> bool" where
  "trusted expected host leaf t \<longleftrightarrow>
     (if expected \<noteq> [] then EqualFingerprint expected (Fingerprint leaf)
      else \<exists>k. t = Some k \<and> KnownHosts_Get host k = Fingerprint leaf)"

lemma ClientTLSConfig_accepts:
  assumes "ClientTLSConfig expected use host certs t = (None, t')"
  shows "\<exists>leaf rest. certs = leaf # rest \<and> trusted expected host leaf t' \<and> (expected \<noteq> [] \<or> use \<and> t \<noteq> None)"
proof (cases t)
  case None
  then show ?thesis
    using assms by (auto simp: ClientTLSConfig_def VerifyConnection_def trusted_def Let_def split: list.splits if_splits)
next
  case (Some k)
  then obtain k' where t': "t' = Some k'"
    and v: "VerifyConnection expected (if use then Some KnownHosts_Save else None) host certs k = (None, k')"
    using assms by (auto simp: ClientTLSConfig_def split: prod.splits)
  then obtain leaf rest where c: "certs = leaf # rest" by (auto simp: VerifyConnection_def split: list.splits)
  show ?thesis
  proof (cases "expected = []")
    case True
    have u: use using v c True by (cases use) (simp_all add: VerifyConnection_def Let_def)
    then have "KnownHosts_Save host (Fingerprint leaf) k = (None, k')"
      using v c True by (auto simp: VerifyConnection_def Let_def split: prod.splits option.splits)
    then have "KnownHosts_Get host k' = Fingerprint leaf" by (simp add: kh.save_pins Fingerprint_normal)
    with True t' c u Some show ?thesis by (simp add: trusted_def)
  qed (use v c in \<open>auto simp: VerifyConnection_def Let_def trusted_def split: if_splits\<close>)
qed

lemma verifying_dial:
  assumes "verifying dial" and "dial a (ClientTLSConfig expected use host) t = (Inr c, t')"
  shows "\<exists>leaf. trusted expected host leaf t' \<and> (expected \<noteq> [] \<or> use)"
proof -
  obtain certs t0 where "ClientTLSConfig expected use host certs t0 = (None, t')"
    using assms unfolding verifying_def by blast
  from ClientTLSConfig_accepts [OF this] show ?thesis by auto
qed

text \<open>
  A dial to a peer with the given certificates over a network that loses nothing, for examples.
\<close>

definition plain_dial :: "bytes list \<Rightarrow> 'c \<Rightarrow> 'c tls_dial" where
  "plain_dial certs c address verify t =
     (case verify certs t of (Some e, t') \<Rightarrow> (Inl e, t') | (None, t') \<Rightarrow> (Inr c, t'))"

lemma plain_verifying: "verifying (plain_dial certs c)"
  unfolding verifying_def plain_dial_def by (auto split: prod.splits option.splits)

section \<open>Delays between attempts\<close>

text \<open>\<open>delay\<close> doubles after each attempt while it is below 30 seconds.\<close>

definition next_delay :: "int \<Rightarrow> int" where
  "next_delay delay = (if delay < 30 * 10 ^ 9 then 2 * delay else delay)"

lemma delays: "(next_delay ^^ k) (10 ^ 9) = 2 ^ (min k 5) * 10 ^ 9"
proof (induction k)
  case (Suc k)
  have "next_delay (2 ^ (min k 5) * 10 ^ 9) = 2 ^ (min (Suc k) 5) * 10 ^ 9"
  proof (cases "k < 5")
    case True
    then have "k \<in> {0, 1, 2, 3, 4}" by auto
    then show ?thesis by (elim insertE emptyE) (simp_all add: next_delay_def)
  qed (simp add: next_delay_def min_def)
  with Suc show ?case by simp
qed simp

end
