(* ===== verification/Manager.thy ===== *)
theory Manager
  imports Dialing Server
begin

text \<open>
  \<open>src/internal/client/manager.go\<close>: the client's connection to the server. Calls of \<open>Reconnect\<close> and the
  goroutines that watch a session or retry run concurrently; each has a program counter, and a step
  runs from one critical section of the manager's mutex to the next. Sessions are numbered in the
  order they are created. Callbacks are recorded in the order in which they are called.
\<close>

section \<open>State\<close>

datatype State = StateDisconnected | StateConnecting | StateConnected

text \<open>\<open>Reconnect\<close>: about to dial, about to install the session, returned.\<close>

datatype attempt_pc = ADial string string bool | AInstall string nat | AReturned "error option"

text \<open>\<open>sessionLoop\<close> waiting and after its first critical section; \<open>reconnectLoop\<close> sleeping and in a call.\<close>

datatype loop_pc = LWait nat | LCheck | LSleep nat int | LCall nat int nat | LEnded

record Manager =
  mg_address :: string
  mg_passphrase :: string
  mg_trust :: "KnownHosts option"
  mg_forceTCP :: bool
  mg_transport :: string
  mg_session :: "nat option"
  mg_state :: State
  mg_lastError :: "error option"
  mg_onState :: bool
  mg_states :: "(State \<times> error option) list"
  mg_onCatalog :: bool
  mg_catalogs :: "ExitInfo list list"
  mg_catalog :: "ExitInfo list"
  mg_reconnect :: bool
  mg_closed :: bool
  mg_sessions :: "session list"
  mg_attempts :: "attempt_pc list"
  mg_loops :: "loop_pc list"

definition NewManager :: "KnownHosts option \<Rightarrow> Manager" where
  "NewManager trust =
     \<lparr>mg_address = [], mg_passphrase = [], mg_trust = trust, mg_forceTCP = False, mg_transport = [], mg_session = None,
      mg_state = StateDisconnected, mg_lastError = None, mg_onState = False, mg_states = [], mg_onCatalog = False,
      mg_catalogs = [], mg_catalog = [], mg_reconnect = True, mg_closed = False, mg_sessions = [], mg_attempts = [],
      mg_loops = []\<rparr>"

definition SetReconnect :: "bool \<Rightarrow> Manager \<Rightarrow> Manager" where
  "SetReconnect enabled m = m\<lparr>mg_reconnect := enabled\<rparr>"

definition SetStateCallback :: "bool \<Rightarrow> Manager \<Rightarrow> Manager" where
  "SetStateCallback b m = m\<lparr>mg_onState := b\<rparr>"

text \<open>\<open>append([]T(nil), xs...)\<close> of an empty list is nil, so an empty catalogue is not reported.\<close>

definition SetCatalogCallback :: "bool \<Rightarrow> Manager \<Rightarrow> Manager" where
  "SetCatalogCallback b m =
     m\<lparr>mg_onCatalog := b, mg_catalogs := (if b \<and> mg_catalog m \<noteq> [] then mg_catalogs m @ [mg_catalog m] else mg_catalogs m)\<rparr>"

definition notify :: "State \<Rightarrow> error option \<Rightarrow> Manager \<Rightarrow> Manager" where
  "notify st e m = (if mg_onState m then m\<lparr>mg_states := mg_states m @ [(st, e)]\<rparr> else m)"

definition setError :: "error \<Rightarrow> Manager \<Rightarrow> Manager" where
  "setError e m = notify StateDisconnected (Some e) (m\<lparr>mg_state := StateDisconnected, mg_lastError := Some e\<rparr>)"

abbreviation mg_sess :: "Manager \<Rightarrow> nat \<Rightarrow> session" where
  "mg_sess m i \<equiv> mg_sessions m ! i"

definition put_session :: "nat \<Rightarrow> session \<Rightarrow> Manager \<Rightarrow> Manager" where
  "put_session i s m = m\<lparr>mg_sessions := (mg_sessions m)[i := s]\<rparr>"

definition put_attempt :: "nat \<Rightarrow> attempt_pc \<Rightarrow> Manager \<Rightarrow> Manager" where
  "put_attempt a x m = m\<lparr>mg_attempts := (mg_attempts m)[a := x]\<rparr>"

definition put_loop :: "nat \<Rightarrow> loop_pc \<Rightarrow> Manager \<Rightarrow> Manager" where
  "put_loop l x m = m\<lparr>mg_loops := (mg_loops m)[l := x]\<rparr>"

section \<open>Connecting\<close>

text \<open>\<open>Reconnect\<close> up to the dial: the new call is the last of \<open>mg_attempts\<close>.\<close>

definition Reconnect :: "Manager \<Rightarrow> Manager" where
  "Reconnect m =
     (if mg_closed m then m\<lparr>mg_attempts := mg_attempts m @ [AReturned (Some (Msg ''client manager is closed''))]\<rparr>
      else
        let m1 = m\<lparr>mg_session := None, mg_state := StateConnecting, mg_lastError := None\<rparr>;
            m2 = (case mg_session m of
                    None \<Rightarrow> m1 | Some i \<Rightarrow> put_session i (snd (Session_Close None (mg_sess m1 i))) m1)
        in if mg_address m = [] \<or> mg_passphrase m = []
           then (setError (Msg ''not configured'') m2)\<lparr>mg_attempts := mg_attempts m @ [AReturned (Some (Msg ''not configured''))]\<rparr>
           else (notify StateConnecting None m2)
                  \<lparr>mg_attempts := mg_attempts m @ [ADial (mg_address m) (mg_passphrase m) (mg_forceTCP m)]\<rparr>)"

text \<open>\<open>Connect\<close> and \<open>ConnectTCP\<close>.\<close>

definition Connect :: "bool \<Rightarrow> string \<Rightarrow> string \<Rightarrow> Manager \<Rightarrow> error option \<times> Manager" where
  "Connect force address passphrase m =
     (case NormalizeServerAddress address of
        Inl e \<Rightarrow> (Some e, m)
      | Inr normalized \<Rightarrow>
          if passphrase = [] then (Some (Msg ''passphrase cannot be empty''), m)
          else (None, Reconnect (m\<lparr>mg_address := normalized, mg_passphrase := passphrase, mg_forceTCP := force\<rparr>)))"

definition connectTransport ::
  "conn res tls_dial \<Rightarrow> conn tls_dial \<Rightarrow> string \<Rightarrow> bool \<Rightarrow> KnownHosts option \<Rightarrow> (string \<times> conn) res \<times> KnownHosts option" where
  "connectTransport DialQUIC DialTLS address force t =
     (let host = addressHost address;
          expected = (case t of None \<Rightarrow> [] | Some k \<Rightarrow> KnownHosts_Get host k);
          config = ClientTLSConfig expected (t \<noteq> None) host;
          tcp = (\<lambda>quicErr t1.
            case DialTLS address config t1 of
              (Inr c, t2) \<Rightarrow> (Inr (ProtocolTLS, c), t2)
            | (Inl e, t2) \<Rightarrow> (Inl (Wrapped (''QUIC failed: '' @ quicErr @ ''; TLS failed: '') e), t2))
      in if force then tcp ''<nil>'' t
         else
           (case DialQUIC address config t of
              (Inr opened, t1) \<Rightarrow>
                (case OpenControlStream opened of
                   (Inr stream, _) \<Rightarrow> (Inr (ProtocolQUIC, stream), t1)
                 | (Inl e, _) \<Rightarrow> (Inl e, t1))
            | (Inl e, t1) \<Rightarrow> tcp (error_text e) t1))"

definition startSession :: "conn \<Rightarrow> session res" where
  "startSession c =
     (case Start (Some (Inr c)) False (SetControlHandler True (New (5 * minute) 0)) of
        (Some e, s) \<Rightarrow> Inl e
      | (None, s) \<Rightarrow> Inr s)"

text \<open>The part of \<open>Reconnect\<close> between its critical sections: dial, handshake, session.\<close>

definition attempt_connect :: "conn res tls_dial \<Rightarrow> conn tls_dial \<Rightarrow> kdf \<Rightarrow> nat \<Rightarrow> Manager \<Rightarrow> Manager" where
  "attempt_connect DialQUIC DialTLS kdf a m =
     (case mg_attempts m ! a of
        ADial address passphrase force \<Rightarrow>
          (case connectTransport DialQUIC DialTLS address force (mg_trust m) of
             (Inl e, t) \<Rightarrow> put_attempt a (AReturned (Some e)) (setError e (m\<lparr>mg_trust := t\<rparr>))
           | (Inr (name, c), t) \<Rightarrow>
               (case ClientHandshakePassword kdf passphrase RoleClient c of
                  (Some e, c1) \<Rightarrow> put_attempt a (AReturned (Some e)) (setError e (m\<lparr>mg_trust := t\<rparr>))
                | (None, c1) \<Rightarrow>
                    (case startSession c1 of
                       Inl e \<Rightarrow> put_attempt a (AReturned (Some e)) (setError e (m\<lparr>mg_trust := t\<rparr>))
                     | Inr s \<Rightarrow>
                         put_attempt a (AInstall name (length (mg_sessions m)))
                           (m\<lparr>mg_trust := t, mg_sessions := mg_sessions m @ [s]\<rparr>))))
      | _ \<Rightarrow> m)"

definition attempt_install :: "nat \<Rightarrow> Manager \<Rightarrow> Manager" where
  "attempt_install a m =
     (case mg_attempts m ! a of
        AInstall name i \<Rightarrow>
          put_attempt a (AReturned None)
            ((notify StateConnected None (m\<lparr>mg_session := Some i, mg_transport := name, mg_state := StateConnected, mg_lastError := None\<rparr>))
               \<lparr>mg_loops := mg_loops m @ [LWait i]\<rparr>)
      | _ \<Rightarrow> m)"

section \<open>The catalogue\<close>

definition manager_control :: "Frame \<Rightarrow> Manager \<Rightarrow> Manager" where
  "manager_control f m =
     (if Type f \<noteq> FrameCatalog then m
      else case DecodeJSON json_Catalog f of
        Inl e \<Rightarrow> m
      | Inr c \<Rightarrow> m\<lparr>mg_catalog := Exits c, mg_catalogs := (if mg_onCatalog m then mg_catalogs m @ [Exits c] else mg_catalogs m)\<rparr>)"

definition manager_read :: "nat \<Rightarrow> Manager \<Rightarrow> Manager list" where
  "manager_read i m =
     map (\<lambda>t. fold manager_control (ss_ctl t) (put_session i (t\<lparr>ss_ctl := []\<rparr>) m)) (readLoop_step (mg_sess m i))"

section \<open>The end of a session\<close>

definition sessionLoop :: "nat \<Rightarrow> Manager \<Rightarrow> Manager" where
  "sessionLoop l m =
     (case mg_loops m ! l of
        LWait i \<Rightarrow>
          if \<not> ss_done (mg_sess m i) then m
          else if mg_session m \<noteq> Some i then put_loop l LEnded m
          else put_loop l LCheck (notify StateDisconnected (ss_err (mg_sess m i))
                 (m\<lparr>mg_session := None, mg_state := StateDisconnected, mg_lastError := ss_err (mg_sess m i)\<rparr>))
      | LCheck \<Rightarrow> put_loop l (if mg_reconnect m \<and> \<not> mg_closed m then LSleep 0 (10 ^ 9) else LEnded) m
      | _ \<Rightarrow> m)"

text \<open>
  \<open>reconnectLoop\<close>: the timer fires and \<open>Reconnect\<close> is called; the call returns. \<open>LSleep n d\<close> is the wait
  of \<open>d\<close> before attempt \<open>n\<close>.
\<close>

definition reconnectLoop :: "nat \<Rightarrow> Manager \<Rightarrow> Manager" where
  "reconnectLoop l m =
     (case mg_loops m ! l of
        LSleep n delay \<Rightarrow>
          if mg_closed m then put_loop l LEnded m
          else put_loop l (LCall n delay (length (mg_attempts m))) (Reconnect m)
      | LCall n delay a \<Rightarrow>
          (case mg_attempts m ! a of
             AReturned None \<Rightarrow> put_loop l LEnded m
           | AReturned (Some e) \<Rightarrow> put_loop l (if Suc n < 6 then LSleep (Suc n) (next_delay delay) else LEnded) m
           | _ \<Rightarrow> m)
      | _ \<Rightarrow> m)"

section \<open>Using and closing the connection\<close>

definition Manager_Dial :: "OpenRequest \<Rightarrow> Manager \<Rightarrow> (nat \<times> nat) res \<times> Manager" where
  "Manager_Dial request m =
     (case mg_session m of
        None \<Rightarrow> (Inl (Msg ''not connected to S''), m)
      | Some i \<Rightarrow>
          (case Open_send request (mg_sess m i) of
             (Inl e, s) \<Rightarrow> (Inl e, put_session i s m)
           | (Inr r, s) \<Rightarrow> (Inr (i, r), put_session i s m)))"

definition Manager_Close :: "Manager \<Rightarrow> Manager" where
  "Manager_Close m =
     (let m1 = m\<lparr>mg_session := None, mg_closed := True, mg_state := StateDisconnected\<rparr> in
      case mg_session m of
        None \<Rightarrow> m1
      | Some i \<Rightarrow> put_session i (snd (Session_Close None (mg_sess m i))) m1)"

definition Manager_State :: "Manager \<Rightarrow> State \<times> string \<times> error option" where
  "Manager_State m = (mg_state m, mg_transport m, mg_lastError m)"

definition Manager_Catalog :: "Manager \<Rightarrow> ExitInfo list" where
  "Manager_Catalog m = mg_catalog m"

end
