(* ===== verification/SystemProxy.thy ===== *)
theory SystemProxy
  imports Config
begin

text \<open>
  \<open>src/internal/systemproxy\<close>: the proxy settings of the desktop, on Linux (\<open>platform_linux.go\<close>: GNOME
  and KDE), on Windows (\<open>platform_windows.go\<close>) and elsewhere (\<open>unsupported.go\<close>), behind one interface,
  and the journal from which they are recovered (\<open>systemproxy.go\<close>). The programs that read and write
  the settings on Linux and the Windows registry are parameters; \<open>'w\<close> is the state they work on.
\<close>

section \<open>Data\<close>

record Endpoint =
  ep_HTTP :: string
  ep_HTTPS :: string
  ep_SOCKS :: string

text \<open>\<open>Values\<close> is a \<open>json.RawMessage\<close>, given by the value it denotes; \<open>None\<close> when nil.\<close>

record Snapshot =
  sn_Version :: int
  sn_Values :: "json option"

text \<open>A \<open>time.Time\<close> is given by its text in the format RFC 3339.\<close>

record Journal =
  jr_Version :: int
  jr_PID :: int
  jr_Applied :: Endpoint
  jr_Before :: Snapshot
  jr_Time :: string

definition ErrUnsupported :: error where
  "ErrUnsupported = Msg ''system proxy settings are unsupported in this environment''"

text \<open>An implementation of \<open>SystemProxy\<close>; \<open>Matches\<close> is there if it is a \<open>StateMatcher\<close>.\<close>

record 'w SystemProxy =
  sp_Snapshot :: "'w \<Rightarrow> Snapshot res \<times> 'w"
  sp_Apply :: "Endpoint \<Rightarrow> 'w \<Rightarrow> error option \<times> 'w"
  sp_Restore :: "Snapshot \<Rightarrow> 'w \<Rightarrow> error option \<times> 'w"
  sp_Matches :: "(Snapshot \<Rightarrow> Endpoint \<Rightarrow> 'w \<Rightarrow> bool res) option"

definition zero_endpoint :: Endpoint where
  "zero_endpoint = \<lparr>ep_HTTP = [], ep_HTTPS = [], ep_SOCKS = []\<rparr>"

definition HTTPSOrDefault :: "Endpoint \<Rightarrow> string" where
  "HTTPSOrDefault e = (if ep_HTTPS e \<noteq> [] then ep_HTTPS e else ep_HTTP e)"

section \<open>The journal\<close>

definition digits_in :: "nat \<Rightarrow> nat \<Rightarrow> string \<Rightarrow> bool" where
  "digits_in lo hi s \<longleftrightarrow> list_all is_digit s \<and> lo \<le> read_nat s \<and> read_nat s \<le> hi"

definition daysIn :: "nat \<Rightarrow> nat \<Rightarrow> nat" where
  "daysIn year month =
     (if month = 2 then (if year mod 4 = 0 \<and> (year mod 100 \<noteq> 0 \<or> year mod 400 = 0) then 29 else 28)
      else if month \<in> {4, 6, 9, 11} then 30 else 31)"

definition rfc3339_zone :: "string \<Rightarrow> bool" where
  "rfc3339_zone r \<longleftrightarrow>
     r = ''Z'' \<or> length r = 6 \<and> (r ! 0 = CHR ''-'' \<or> r ! 0 = CHR ''+'') \<and> digits_in 0 23 (take 2 (drop 1 r))
       \<and> r ! 3 = CHR '':'' \<and> digits_in 0 59 (drop 4 r)"

text \<open>What \<open>time.Time\<close> accepts from JSON: a date, a time, a fraction of a second and a zone.\<close>

definition rfc3339 :: "string \<Rightarrow> bool" where
  "rfc3339 s \<longleftrightarrow>
     (let at = (\<lambda>i n. take n (drop i s)); r = drop 19 s in
      19 \<le> length s \<and> digits_in 0 9999 (at 0 4) \<and> s ! 4 = CHR ''-'' \<and> digits_in 1 12 (at 5 2) \<and> s ! 7 = CHR ''-''
      \<and> digits_in 1 (daysIn (read_nat (at 0 4)) (read_nat (at 5 2))) (at 8 2) \<and> s ! 10 = CHR ''T''
      \<and> digits_in 0 23 (at 11 2) \<and> s ! 13 = CHR '':'' \<and> digits_in 0 59 (at 14 2) \<and> s ! 16 = CHR '':''
      \<and> digits_in 0 59 (at 17 2)
      \<and> rfc3339_zone (if HasPrefix r ''.'' \<and> 1 < length r \<and> is_digit (r ! 1) then dropWhile is_digit (tl r) else r))"

definition zero_time :: string where "zero_time = ''0001-01-01T00:00:00Z''"

text \<open>
  Fields that are structs themselves: \<open>conv\<close> decodes into the value the field has so far. A raw
  message takes every value, null included.
\<close>

fun jinto :: "('a \<Rightarrow> json \<Rightarrow> 'a option) \<Rightarrow> string \<Rightarrow> 'a option \<Rightarrow> (string \<times> json) list \<Rightarrow> 'a option" where
  "jinto conv name acc [] = acc"
| "jinto conv name acc ((k, v) # fs) =
     jinto conv name (if EqualFold k name then (case acc of None \<Rightarrow> None | Some x \<Rightarrow> conv x v) else acc) fs"

definition Endpoint_json :: "Endpoint \<Rightarrow> json" where
  "Endpoint_json e = JObj
     ([(''http'', JStr (ep_HTTP e))] @ omit_if (ep_HTTPS e = []) ''https'' (JStr (ep_HTTPS e))
      @ omit_if (ep_SOCKS e = []) ''socks'' (JStr (ep_SOCKS e)))"

definition json_Endpoint :: "Endpoint \<Rightarrow> json \<Rightarrow> Endpoint option" where
  "json_Endpoint e v =
     (case jstruct v of
        None \<Rightarrow> None
      | Some fs \<Rightarrow>
          (case (jfield j_string ''http'' (Some (ep_HTTP e)) fs, jfield j_string ''https'' (Some (ep_HTTPS e)) fs,
                 jfield j_string ''socks'' (Some (ep_SOCKS e)) fs) of
             (Some a, Some b, Some c) \<Rightarrow> Some \<lparr>ep_HTTP = a, ep_HTTPS = b, ep_SOCKS = c\<rparr>
           | _ \<Rightarrow> None))"

definition Snapshot_json :: "Snapshot \<Rightarrow> json" where
  "Snapshot_json s = JObj [(''version'', JInt (sn_Version s)),
     (''values'', case sn_Values s of None \<Rightarrow> JNull | Some v \<Rightarrow> v)]"

definition json_Snapshot :: "Snapshot \<Rightarrow> json \<Rightarrow> Snapshot option" where
  "json_Snapshot s v =
     (case jstruct v of
        None \<Rightarrow> None
      | Some fs \<Rightarrow>
          (case (jfield j_int ''version'' (Some (sn_Version s)) fs,
                 jinto (\<lambda>_ x. Some (Some x)) ''values'' (Some (sn_Values s)) fs) of
             (Some a, Some b) \<Rightarrow> Some \<lparr>sn_Version = a, sn_Values = b\<rparr>
           | _ \<Rightarrow> None))"

definition Journal_json :: "Journal \<Rightarrow> json" where
  "Journal_json j = JObj
     [(''version'', JInt (jr_Version j)), (''pid'', JInt (jr_PID j)), (''applied'', Endpoint_json (jr_Applied j)),
      (''before'', Snapshot_json (jr_Before j)), (''timestamp'', JStr (jr_Time j))]"

definition j_time :: "json \<Rightarrow> string option" where
  "j_time v = (case v of JStr s \<Rightarrow> if rfc3339 s then Some s else None | _ \<Rightarrow> None)"

definition json_Journal :: "json \<Rightarrow> Journal option" where
  "json_Journal v =
     (case jstruct v of
        None \<Rightarrow> None
      | Some fs \<Rightarrow>
          (case (jfield j_int ''version'' (Some 0) fs, jfield j_int ''pid'' (Some 0) fs,
                 jinto json_Endpoint ''applied'' (Some zero_endpoint) fs,
                 jinto json_Snapshot ''before'' (Some \<lparr>sn_Version = 0, sn_Values = None\<rparr>) fs,
                 jfield j_time ''timestamp'' (Some zero_time) fs) of
             (Some a, Some b, Some c, Some d, Some e) \<Rightarrow>
               Some \<lparr>jr_Version = a, jr_PID = b, jr_Applied = c, jr_Before = d, jr_Time = e\<rparr>
           | _ \<Rightarrow> None))"

definition JournalPath :: "string \<Rightarrow> string" where
  "JournalPath dataDir = path_Join dataDir ''system-proxy-journal.json''"

definition WriteJournal :: "string \<Rightarrow> Journal \<Rightarrow> fs \<Rightarrow> error option \<times> fs" where
  "WriteJournal path j = replace_file path None (MarshalIndent (Journal_json j) @ [10]) mode_600"

definition ReadJournal :: "string \<Rightarrow> fs \<Rightarrow> Journal res \<times> fs" where
  "ReadJournal path s =
     (case os_ReadFile path s of
        (Inl e, s1) \<Rightarrow> (Inl e, s1)
      | (Inr d, s1) \<Rightarrow>
          (case Option.bind (Unmarshal d) json_Journal of
             None \<Rightarrow> (Inl (Wrapped ''parse proxy journal: '' (Msg ''json'')), s1)
           | Some j \<Rightarrow>
               if jr_Version j \<noteq> 1 then (Inl (Msg (''unsupported journal version '' @ Itoa (jr_Version j))), s1)
               else (Inr j, s1)))"

definition RemoveJournal :: "string \<Rightarrow> fs \<Rightarrow> error option \<times> fs" where
  "RemoveJournal path s =
     (case os_Remove path s of
        (None, s1) \<Rightarrow> (None, s1)
      | (Some e, s1) \<Rightarrow> (if errors_Is e ErrNotExist then None else Some e, s1))"

section \<open>Calls in a row\<close>

text \<open>Reads that stop at the first error, writes that do, and writes whose errors are dropped.\<close>

fun reads :: "('w \<Rightarrow> string res \<times> 'w) list \<Rightarrow> 'w \<Rightarrow> string list res \<times> 'w" where
  "reads [] w = (Inr [], w)"
| "reads (f # fs) w =
     (case f w of
        (Inl e, w1) \<Rightarrow> (Inl e, w1)
      | (Inr v, w1) \<Rightarrow> (case reads fs w1 of (Inl e, w2) \<Rightarrow> (Inl e, w2) | (Inr vs, w2) \<Rightarrow> (Inr (v # vs), w2)))"

fun writes :: "('w \<Rightarrow> error option \<times> 'w) list \<Rightarrow> 'w \<Rightarrow> error option \<times> 'w" where
  "writes [] w = (None, w)"
| "writes (f # fs) w = (case f w of (Some e, w1) \<Rightarrow> (Some e, w1) | (None, w1) \<Rightarrow> writes fs w1)"

definition tries :: "('w \<Rightarrow> error option \<times> 'w) list \<Rightarrow> 'w \<Rightarrow> 'w" where
  "tries fs w = fold (\<lambda>f v. snd (f v)) fs w"

text \<open>\<open>json.Marshal\<close> replaces bytes that are no UTF-8, so the text may denote another value.\<close>

definition marshalSnapshot :: "json \<Rightarrow> Snapshot res" where
  "marshalSnapshot v = Inr \<lparr>sn_Version = 1, sn_Values = Unmarshal (Marshal v)\<rparr>"

text \<open>\<open>json.Unmarshal\<close> of the values of a snapshot.\<close>

definition unmarshal_values :: "(json \<Rightarrow> 'a option) \<Rightarrow> Snapshot \<Rightarrow> 'a res" where
  "unmarshal_values conv s =
     (case Option.bind (sn_Values s) conv of None \<Rightarrow> Inl (Msg ''json'') | Some x \<Rightarrow> Inr x)"

section \<open>Linux\<close>

datatype linuxMode = linuxUnsupported | linuxGSettings | linuxKDE

text \<open>
  \<open>exec.CommandContext(name, args...)\<close> by the program and its arguments; the output counts for
  \<open>Output\<close> only. \<open>exec.LookPath\<close> and \<open>os.Getenv\<close> are the same throughout a run.
\<close>

record 'w linux_tools =
  lt_exec :: "string list \<Rightarrow> 'w \<Rightarrow> string res \<times> 'w"
  lt_LookPath :: "string \<Rightarrow> string res"
  lt_Getenv :: "string \<Rightarrow> string"

definition cmd_Run :: "'w linux_tools \<Rightarrow> string list \<Rightarrow> 'w \<Rightarrow> error option \<times> 'w" where
  "cmd_Run T c w = (case lt_exec T c w of (Inl e, w') \<Rightarrow> (Some e, w') | (Inr _, w') \<Rightarrow> (None, w'))"

record gnomeSnapshot =
  gs_Mode :: string
  gs_HTTP :: string
  gs_HTTPS :: string
  gs_SOCKS :: string
  gs_Ignore :: string
  gs_Autoconf :: string

record kdeSnapshot =
  ks_ProxyType :: string
  ks_HTTP :: string
  ks_HTTPS :: string
  ks_SOCKS :: string
  ks_NoProxy :: string
  ks_PAC :: string

definition six_json :: "string list \<Rightarrow> string list \<Rightarrow> json" where
  "six_json names vs = JObj (zip names (map JStr vs))"

definition json_six :: "string list \<Rightarrow> json \<Rightarrow> string list option" where
  "json_six names v =
     (case jstruct v of None \<Rightarrow> None | Some fs \<Rightarrow> those (map (\<lambda>n. jfield j_string n (Some []) fs) names))"

definition gnome_names :: "string list" where
  "gnome_names = [''mode'', ''http'', ''https'', ''socks'', ''ignore'', ''autoconf'']"

definition kde_names :: "string list" where
  "kde_names = [''proxy_type'', ''http'', ''https'', ''socks'', ''no_proxy'', ''pac'']"

definition json_gnome :: "json \<Rightarrow> gnomeSnapshot option" where
  "json_gnome v =
     (case json_six gnome_names v of
        Some [a, b, c, d, e, f] \<Rightarrow>
          Some \<lparr>gs_Mode = a, gs_HTTP = b, gs_HTTPS = c, gs_SOCKS = d, gs_Ignore = e, gs_Autoconf = f\<rparr>
      | _ \<Rightarrow> None)"

definition json_kde :: "json \<Rightarrow> kdeSnapshot option" where
  "json_kde v =
     (case json_six kde_names v of
        Some [a, b, c, d, e, f] \<Rightarrow>
          Some \<lparr>ks_ProxyType = a, ks_HTTP = b, ks_HTTPS = c, ks_SOCKS = d, ks_NoProxy = e, ks_PAC = f\<rparr>
      | _ \<Rightarrow> None)"

definition netSplitHostPort :: "string \<Rightarrow> (string \<times> string) res" where
  "netSplitHostPort value =
     (case SplitHostPort value of Inl _ \<Rightarrow> Inl (Msg ''invalid proxy endpoint'') | Inr hp \<Rightarrow> Inr hp)"

definition splitEndpoint :: "string \<Rightarrow> (string \<times> string) res" where
  "splitEndpoint endpoint = (if endpoint = [] then Inr ([], ''0'') else netSplitHostPort endpoint)"

definition split_or_empty :: "string \<Rightarrow> string \<times> string" where
  "split_or_empty endpoint = (case splitEndpoint endpoint of Inl _ \<Rightarrow> ([], []) | Inr hp \<Rightarrow> hp)"

definition gsettingsGet :: "'w linux_tools \<Rightarrow> string \<Rightarrow> string \<Rightarrow> 'w \<Rightarrow> string res \<times> 'w" where
  "gsettingsGet T schema key w =
     (case lt_exec T [''gsettings'', ''get'', schema, key] w of
        (Inl e, w') \<Rightarrow> (Inl e, w')
      | (Inr out, w') \<Rightarrow> (Inr (Trim (TrimSpace out) [CHR 0x27]), w'))"

definition gsettingsSet :: "'w linux_tools \<Rightarrow> string \<Rightarrow> string \<Rightarrow> string \<Rightarrow> 'w \<Rightarrow> error option \<times> 'w" where
  "gsettingsSet T schema key value = cmd_Run T [''gsettings'', ''set'', schema, key, value]"

definition kdeCommand :: "'w linux_tools \<Rightarrow> string list \<Rightarrow> string list option" where
  "kdeCommand T args =
     (case lt_LookPath T ''kwriteconfig6'' of
        Inr path \<Rightarrow> Some (path # args)
      | Inl _ \<Rightarrow> (case lt_LookPath T ''kwriteconfig5'' of Inr path \<Rightarrow> Some (path # args) | Inl _ \<Rightarrow> None))"

definition kde_args :: "string \<Rightarrow> string list" where
  "kde_args key = [''--file'', ''kioslaverc'', ''--group'', ''Proxy Settings'', ''--key'', key]"

text \<open>\<open>strings.Replace(s, old, new, 1)\<close> for a nonempty \<open>old\<close>, and \<open>strings.Contains\<close>.\<close>

fun Replace1 :: "string \<Rightarrow> string \<Rightarrow> string \<Rightarrow> string" where
  "Replace1 [] old new = []"
| "Replace1 (c # s) old new =
     (if HasPrefix (c # s) old then new @ drop (length old) (c # s) else c # Replace1 s old new)"

fun Contains :: "string \<Rightarrow> string \<Rightarrow> bool" where
  "Contains [] sub \<longleftrightarrow> sub = []"
| "Contains (c # s) sub \<longleftrightarrow> HasPrefix (c # s) sub \<or> Contains s sub"

definition kread :: "'w linux_tools \<Rightarrow> string \<Rightarrow> 'w \<Rightarrow> string res \<times> 'w" where
  "kread T key w =
     (case kdeCommand T (kde_args key) of
        None \<Rightarrow> (Inl ErrUnsupported, w)
      | Some [] \<Rightarrow> (Inl ErrUnsupported, w)
      | Some (c # cs) \<Rightarrow>
          (case lt_exec T (Replace1 c ''kwriteconfig'' ''kreadconfig'' # cs @ [''--read'']) w of
             (Inl e, w') \<Rightarrow> (Inl e, w')
           | (Inr out, w') \<Rightarrow> (Inr (TrimSpace out), w')))"

definition kwrite :: "'w linux_tools \<Rightarrow> string \<Rightarrow> string \<Rightarrow> 'w \<Rightarrow> error option \<times> 'w" where
  "kwrite T key value w =
     (case kdeCommand T (kde_args key) of
        None \<Rightarrow> (Some ErrUnsupported, w)
      | Some c \<Rightarrow> cmd_Run T (c @ [value]) w)"

definition gnome_root :: string where "gnome_root = ''org.gnome.system.proxy''"
definition gnome_http :: string where "gnome_http = ''org.gnome.system.proxy.http''"
definition gnome_https :: string where "gnome_https = ''org.gnome.system.proxy.https''"
definition gnome_socks :: string where "gnome_socks = ''org.gnome.system.proxy.socks''"

definition Linux_Snapshot :: "'w linux_tools \<Rightarrow> linuxMode \<Rightarrow> 'w \<Rightarrow> Snapshot res \<times> 'w" where
  "Linux_Snapshot T mode w =
     (case mode of
        linuxGSettings \<Rightarrow>
          (case reads [gsettingsGet T gnome_root ''mode'', gsettingsGet T gnome_http ''host'',
                       gsettingsGet T gnome_https ''host'', gsettingsGet T gnome_socks ''host'',
                       gsettingsGet T gnome_root ''ignore-hosts'', gsettingsGet T gnome_root ''autoconfig-url''] w of
             (Inl e, w1) \<Rightarrow> (Inl e, w1)
           | (Inr vs, w1) \<Rightarrow> (marshalSnapshot (six_json gnome_names vs), w1))
      | linuxKDE \<Rightarrow>
          (case reads [kread T ''ProxyType'', kread T ''httpProxy'', kread T ''httpsProxy'', kread T ''socksProxy'',
                       kread T ''NoProxyFor'', kread T ''Proxy Config Script''] w of
             (Inl e, w1) \<Rightarrow> (Inl e, w1)
           | (Inr vs, w1) \<Rightarrow> (marshalSnapshot (six_json kde_names vs), w1))
      | linuxUnsupported \<Rightarrow> (Inl ErrUnsupported, w))"

definition Linux_Apply :: "'w linux_tools \<Rightarrow> linuxMode \<Rightarrow> Endpoint \<Rightarrow> 'w \<Rightarrow> error option \<times> 'w" where
  "Linux_Apply T mode ep w =
     (case mode of
        linuxGSettings \<Rightarrow>
          (case gsettingsSet T gnome_root ''mode'' ''manual'' w of
             (Some e, w1) \<Rightarrow> (Some e, w1)
           | (None, w1) \<Rightarrow>
               (case splitEndpoint (ep_HTTP ep) of
                  Inl e \<Rightarrow> (Some e, w1)
                | Inr (host, port) \<Rightarrow>
                    let https = (case splitEndpoint (ep_HTTPS ep) of Inl _ \<Rightarrow> (host, port) | Inr hp \<Rightarrow> hp) in
                    writes [gsettingsSet T gnome_http ''host'' host, gsettingsSet T gnome_http ''port'' port,
                            gsettingsSet T gnome_https ''host'' (fst https), gsettingsSet T gnome_https ''port'' (snd https)] w1))
      | linuxKDE \<Rightarrow>
          (case splitEndpoint (ep_HTTP ep) of
             Inl e \<Rightarrow> (Some e, w)
           | Inr _ \<Rightarrow>
               writes ([kwrite T ''ProxyType'' ''1'', kwrite T ''httpProxy'' (ep_HTTP ep), kwrite T ''httpsProxy'' (HTTPSOrDefault ep)]
                       @ (if ep_SOCKS ep \<noteq> [] then [kwrite T ''socksProxy'' (ep_SOCKS ep)] else [])) w)
      | linuxUnsupported \<Rightarrow> (Some ErrUnsupported, w))"

definition Linux_Matches :: "linuxMode \<Rightarrow> Snapshot \<Rightarrow> Endpoint \<Rightarrow> 'w \<Rightarrow> bool res" where
  "Linux_Matches mode sn ep w =
     (case mode of
        linuxGSettings \<Rightarrow>
          (case unmarshal_values json_gnome sn of
             Inl e \<Rightarrow> Inl e
           | Inr v \<Rightarrow>
               (case splitEndpoint (ep_HTTP ep) of
                  Inl e \<Rightarrow> Inl e
                | Inr (httpHost, httpPort) \<Rightarrow>
                    (case splitEndpoint (HTTPSOrDefault ep) of
                       Inl e \<Rightarrow> Inl e
                     | Inr (httpsHost, httpsPort) \<Rightarrow>
                         Inr (gs_Mode v = ''manual'' \<and> gs_HTTP v = httpHost \<and> gs_HTTPS v = httpsHost
                              \<and> gs_Autoconf v = [] \<and> httpPort = httpsPort))))
      | linuxKDE \<Rightarrow>
          (case unmarshal_values json_kde sn of
             Inl e \<Rightarrow> Inl e
           | Inr v \<Rightarrow> Inr (ks_ProxyType v = ''1'' \<and> ks_HTTP v = ep_HTTP ep \<and> ks_HTTPS v = HTTPSOrDefault ep))
      | linuxUnsupported \<Rightarrow> Inl ErrUnsupported)"

definition Linux_Restore :: "'w linux_tools \<Rightarrow> linuxMode \<Rightarrow> Snapshot \<Rightarrow> 'w \<Rightarrow> error option \<times> 'w" where
  "Linux_Restore T mode sn w =
     (case mode of
        linuxGSettings \<Rightarrow>
          (case unmarshal_values json_gnome sn of
             Inl e \<Rightarrow> (Some e, w)
           | Inr v \<Rightarrow>
               (case gsettingsSet T gnome_root ''mode'' (gs_Mode v) w of
                  (Some e, w1) \<Rightarrow> (Some e, w1)
                | (None, w1) \<Rightarrow>
                    let http = split_or_empty (gs_HTTP v); https = split_or_empty (gs_HTTPS v) in
                    gsettingsSet T gnome_root ''autoconfig-url'' (gs_Autoconf v)
                      (tries [gsettingsSet T gnome_http ''host'' (fst http), gsettingsSet T gnome_http ''port'' (snd http),
                              gsettingsSet T gnome_https ''host'' (fst https), gsettingsSet T gnome_https ''port'' (snd https)] w1)))
      | linuxKDE \<Rightarrow>
          (case unmarshal_values json_kde sn of
             Inl e \<Rightarrow> (Some e, w)
           | Inr v \<Rightarrow>
               (case kwrite T ''ProxyType'' (ks_ProxyType v) w of
                  (Some e, w1) \<Rightarrow> (Some e, w1)
                | (None, w1) \<Rightarrow>
                    (None, tries [kwrite T ''httpProxy'' (ks_HTTP v), kwrite T ''httpsProxy'' (ks_HTTPS v),
                                  kwrite T ''socksProxy'' (ks_SOCKS v), kwrite T ''NoProxyFor'' (ks_NoProxy v),
                                  kwrite T ''Proxy Config Script'' (ks_PAC v)] w1)))
      | linuxUnsupported \<Rightarrow> (Some ErrUnsupported, w))"

definition Linux :: "'w linux_tools \<Rightarrow> linuxMode \<Rightarrow> 'w SystemProxy" where
  "Linux T mode = \<lparr>sp_Snapshot = Linux_Snapshot T mode, sp_Apply = Linux_Apply T mode,
     sp_Restore = Linux_Restore T mode, sp_Matches = Some (Linux_Matches mode)\<rparr>"

section \<open>Where settings are not supported\<close>

definition Unsupported :: "'w SystemProxy" where
  "Unsupported = \<lparr>sp_Snapshot = (\<lambda>w. (Inr \<lparr>sn_Version = 1, sn_Values = Some (JObj [])\<rparr>, w)),
     sp_Apply = (\<lambda>ep w. (Some ErrUnsupported, w)), sp_Restore = (\<lambda>sn w. (None, w)),
     sp_Matches = Some (\<lambda>sn ep w. Inl ErrUnsupported)\<rparr>"

text \<open>\<open>New\<close> on Linux.\<close>

definition systemproxy_New :: "'w linux_tools \<Rightarrow> 'w SystemProxy" where
  "systemproxy_New T =
     (let desktop = ToUpper (lt_Getenv T ''XDG_CURRENT_DESKTOP'');
          sessionType = ToLower (lt_Getenv T ''XDG_SESSION_TYPE'');
          display = lt_Getenv T ''DISPLAY'';
          odd_session = sessionType \<notin> {''x11'', ''wayland'', []};
          kde = (if Contains desktop ''KDE'' \<and> display \<noteq> []
                 then (if odd_session then Unsupported
                       else if kdeCommand T [] \<noteq> None then Linux T linuxKDE else Unsupported)
                 else Unsupported)
      in if (Contains desktop ''GNOME'' \<or> Contains desktop ''UNITY'') \<and> display \<noteq> []
         then (if odd_session then Unsupported
               else case lt_LookPath T ''gsettings'' of Inr _ \<Rightarrow> Linux T linuxGSettings | Inl _ \<Rightarrow> kde)
         else kde)"

section \<open>Windows\<close>

text \<open>
  The registry key \<open>Internet Settings\<close> through \<open>golang.org/x/sys/windows/registry\<close>, and the call that
  announces a change (\<open>InternetSetOptionW\<close>).
\<close>

record 'w registry =
  rk_OpenKey :: "'w \<Rightarrow> error option"
  rk_CreateKey :: "'w \<Rightarrow> error option \<times> 'w"
  rk_GetInteger :: "string \<Rightarrow> 'w \<Rightarrow> u64 res"
  rk_GetString :: "string \<Rightarrow> 'w \<Rightarrow> string res"
  rk_SetString :: "string \<Rightarrow> string \<Rightarrow> 'w \<Rightarrow> error option \<times> 'w"
  rk_SetDWord :: "string \<Rightarrow> u32 \<Rightarrow> 'w \<Rightarrow> error option \<times> 'w"
  rk_Delete :: "string \<Rightarrow> 'w \<Rightarrow> error option \<times> 'w"
  rk_Notify :: "'w \<Rightarrow> 'w"

record windowsSnapshot =
  ws_ProxyEnable :: u32
  ws_ProxyServer :: string
  ws_ProxyOverride :: string
  ws_AutoConfigURL :: string

definition windows_json :: "windowsSnapshot \<Rightarrow> json" where
  "windows_json v = JObj [(''proxy_enable'', word_j (ws_ProxyEnable v)), (''proxy_server'', JStr (ws_ProxyServer v)),
     (''proxy_override'', JStr (ws_ProxyOverride v)), (''auto_config_url'', JStr (ws_AutoConfigURL v))]"

definition json_windows :: "json \<Rightarrow> windowsSnapshot option" where
  "json_windows v =
     (case jstruct v of
        None \<Rightarrow> None
      | Some fs \<Rightarrow>
          (case (jfield j_word ''proxy_enable'' (Some 0) fs, jfield j_string ''proxy_server'' (Some []) fs,
                 jfield j_string ''proxy_override'' (Some []) fs, jfield j_string ''auto_config_url'' (Some []) fs) of
             (Some a, Some b, Some c, Some d) \<Rightarrow>
               Some \<lparr>ws_ProxyEnable = a, ws_ProxyServer = b, ws_ProxyOverride = c, ws_AutoConfigURL = d\<rparr>
           | _ \<Rightarrow> None))"

definition or_zero :: "'a \<Rightarrow> 'a res \<Rightarrow> 'a" where
  "or_zero z r = (case r of Inl _ \<Rightarrow> z | Inr x \<Rightarrow> x)"

definition windows_values :: "'w registry \<Rightarrow> 'w \<Rightarrow> windowsSnapshot" where
  "windows_values R w =
     \<lparr>ws_ProxyEnable = ucast (or_zero 0 (rk_GetInteger R ''ProxyEnable'' w)),
      ws_ProxyServer = or_zero [] (rk_GetString R ''ProxyServer'' w),
      ws_ProxyOverride = or_zero [] (rk_GetString R ''ProxyOverride'' w),
      ws_AutoConfigURL = or_zero [] (rk_GetString R ''AutoConfigURL'' w)\<rparr>"

definition Windows_Snapshot :: "'w registry \<Rightarrow> 'w \<Rightarrow> Snapshot res" where
  "Windows_Snapshot R w =
     (case rk_OpenKey R w of
        Some e \<Rightarrow> Inl e
      | None \<Rightarrow> Inr \<lparr>sn_Version = 1, sn_Values = Unmarshal (Marshal (windows_json (windows_values R w)))\<rparr>)"

definition windows_server :: "Endpoint \<Rightarrow> string" where
  "windows_server ep =
     ''http='' @ ep_HTTP ep @ (if ep_HTTPS ep \<noteq> [] then '';https='' @ ep_HTTPS ep else [])
       @ (if ep_SOCKS ep \<noteq> [] then '';socks='' @ ep_SOCKS ep else [])"

definition Windows_Apply :: "'w registry \<Rightarrow> Endpoint \<Rightarrow> 'w \<Rightarrow> error option \<times> 'w" where
  "Windows_Apply R ep w =
     (case writes [rk_CreateKey R, rk_SetString R ''ProxyServer'' (windows_server ep), rk_SetDWord R ''ProxyEnable'' 1] w of
        (Some e, w1) \<Rightarrow> (Some e, w1)
      | (None, w1) \<Rightarrow> (None, rk_Notify R (snd (rk_Delete R ''AutoConfigURL'' w1))))"

definition Windows_Matches :: "'w registry \<Rightarrow> Snapshot \<Rightarrow> Endpoint \<Rightarrow> 'w \<Rightarrow> bool res" where
  "Windows_Matches R sn ep w =
     (case unmarshal_values json_windows sn of
        Inl e \<Rightarrow> Inl e
      | Inr _ \<Rightarrow>
          (case Windows_Snapshot R w of
             Inl e \<Rightarrow> Inl e
           | Inr current \<Rightarrow>
               (case unmarshal_values json_windows current of
                  Inl e \<Rightarrow> Inl e
                | Inr v \<Rightarrow> Inr (ws_ProxyEnable v = 1 \<and> ws_ProxyServer v = windows_server ep \<and> ws_AutoConfigURL v = []))))"

definition Windows_Restore :: "'w registry \<Rightarrow> Snapshot \<Rightarrow> 'w \<Rightarrow> error option \<times> 'w" where
  "Windows_Restore R sn w =
     (case unmarshal_values json_windows sn of
        Inl e \<Rightarrow> (Some e, w)
      | Inr v \<Rightarrow>
          (case writes [rk_CreateKey R, rk_SetDWord R ''ProxyEnable'' (ws_ProxyEnable v),
                        rk_SetString R ''ProxyServer'' (ws_ProxyServer v), rk_SetString R ''ProxyOverride'' (ws_ProxyOverride v),
                        (if ws_AutoConfigURL v = [] then (\<lambda>x. (None, snd (rk_Delete R ''AutoConfigURL'' x)))
                         else rk_SetString R ''AutoConfigURL'' (ws_AutoConfigURL v))] w of
             (Some e, w1) \<Rightarrow> (Some e, w1)
           | (None, w1) \<Rightarrow> (None, rk_Notify R w1)))"

definition Windows :: "'w registry \<Rightarrow> 'w SystemProxy" where
  "Windows R = \<lparr>sp_Snapshot = (\<lambda>w. (Windows_Snapshot R w, w)), sp_Apply = Windows_Apply R,
     sp_Restore = Windows_Restore R, sp_Matches = Some (Windows_Matches R)\<rparr>"

end
