(* ===== verification/Runtime.thy ===== *)
theory Runtime
  imports Manager SystemProxy Proxy
begin

text \<open>
  \<open>src/internal/client/runtime.go\<close>: the client's life around the manager: the local proxies, the proxy
  settings of the desktop with the journal that allows to undo them after a crash, the choice of an
  exit, the streams handed to the proxies. Outcomes of the system (listening, dialing) are
  arguments; what survives the process is \<open>'w environment\<close>: the files and the desktop.
\<close>

section \<open>State\<close>

record 'w environment =
  en_fs :: fs
  en_desktop :: 'w

record 'w Runtime =
  rt_DataDirectory :: string
  rt_SOCKS5 :: bool
  rt_IdleTimeout :: int
  rt_manager :: Manager
  rt_systemProxy :: "'w SystemProxy"
  rt_httpServer :: "proxy_server option"
  rt_socksServer :: "proxy_server option"
  rt_journalPath :: string
  rt_journal :: "Journal option"
  rt_hasJournal :: bool
  rt_httpAddr :: string
  rt_socksAddr :: string
  rt_exitID :: string
  rt_fallback :: bool
  rt_started :: bool
  rt_stopped :: bool
  rt_closed :: bool
  rt_active :: int
  rt_counted :: "bool list"

text \<open>
  \<open>rt_journal\<close> is \<open>None\<close> for the zero journal. \<open>rt_counted\<close> has the \<open>countedStream\<close>s in the order they were
  made, each by whether its \<open>once\<close> has run.
\<close>

definition NewRuntime :: "string \<Rightarrow> bool \<Rightarrow> int \<Rightarrow> 'w SystemProxy \<Rightarrow> Manager \<Rightarrow> 'w Runtime" where
  "NewRuntime dataDirectory socks5 idle sp manager =
     \<lparr>rt_DataDirectory = dataDirectory, rt_SOCKS5 = socks5, rt_IdleTimeout = (if idle \<le> 0 then 5 * minute else idle),
      rt_manager = manager, rt_systemProxy = sp, rt_httpServer = None, rt_socksServer = None, rt_journalPath = [],
      rt_journal = None, rt_hasJournal = False, rt_httpAddr = [], rt_socksAddr = [], rt_exitID = ''auto'',
      rt_fallback = False, rt_started = False, rt_stopped = False, rt_closed = False, rt_active = 0, rt_counted = []\<rparr>"

definition markStopped :: "'w Runtime \<Rightarrow> 'w Runtime" where
  "markStopped r = r\<lparr>rt_stopped := True\<rparr>"

definition ProxyAddress :: "'w Runtime \<Rightarrow> string" where "ProxyAddress r = rt_httpAddr r"
definition SOCKSAddress :: "'w Runtime \<Rightarrow> string" where "SOCKSAddress r = rt_socksAddr r"

section \<open>Starting\<close>

text \<open>A call of \<open>Manager.Connect\<close> that no other goroutine interferes with.\<close>

definition Connect_call ::
  "conn res tls_dial \<Rightarrow> conn tls_dial \<Rightarrow> kdf \<Rightarrow> string \<Rightarrow> string \<Rightarrow> Manager \<Rightarrow> error option \<times> Manager" where
  "Connect_call DialQUIC DialTLS kdf address passphrase m =
     (case Connect False address passphrase m of
        (Some e, m1) \<Rightarrow> (Some e, m1)
      | (None, m1) \<Rightarrow>
          let a = length (mg_attempts m1) - 1; m2 = attempt_install a (attempt_connect DialQUIC DialTLS kdf a m1) in
          (case mg_attempts m2 ! a of AReturned x \<Rightarrow> (x, m2) | _ \<Rightarrow> (None, m2)))"

definition recoverJournal :: "'w Runtime \<Rightarrow> 'w environment \<Rightarrow> error option \<times> 'w environment" where
  "recoverJournal r en =
     (let path = JournalPath (rt_DataDirectory r) in
      case ReadJournal path (en_fs en) of
        (Inl e, s1) \<Rightarrow> (if errors_Is e ErrNotExist then None else Some e, en\<lparr>en_fs := s1\<rparr>)
      | (Inr journal, s1) \<Rightarrow>
          (case sp_Restore (rt_systemProxy r) (jr_Before journal) (en_desktop en) of
             (Some e, w1) \<Rightarrow> (Some e, en\<lparr>en_fs := s1, en_desktop := w1\<rparr>)
           | (None, w1) \<Rightarrow> (case RemoveJournal path s1 of (x, s2) \<Rightarrow> (x, en\<lparr>en_fs := s2, en_desktop := w1\<rparr>))))"

text \<open>The second half of \<open>Start\<close>: the settings of the desktop.\<close>

definition start_settings :: "int \<Rightarrow> string \<Rightarrow> 'w Runtime \<Rightarrow> 'w environment \<Rightarrow> error option \<times> 'w Runtime \<times> 'w environment" where
  "start_settings pid now r en =
     (let endpoint = \<lparr>ep_HTTP = rt_httpAddr r, ep_HTTPS = rt_httpAddr r, ep_SOCKS = rt_socksAddr r\<rparr>;
          sp = rt_systemProxy r
      in case sp_Snapshot sp (en_desktop en) of
           (Inl e, w1) \<Rightarrow>
             (if errors_Is e ErrUnsupported then (None, r, en\<lparr>en_desktop := w1\<rparr>)
              else (Some e, markStopped r, en\<lparr>en_desktop := w1\<rparr>))
         | (Inr snapshot, w1) \<Rightarrow>
             let journal = \<lparr>jr_Version = 1, jr_PID = pid, jr_Applied = endpoint, jr_Before = snapshot, jr_Time = now\<rparr>;
                 journalPath = JournalPath (rt_DataDirectory r)
             in (case WriteJournal journalPath journal (en_fs en) of
                   (Some e, s1) \<Rightarrow>
                     (Some (Wrapped ''write proxy journal: '' e), markStopped r, en\<lparr>en_fs := s1, en_desktop := w1\<rparr>)
                 | (None, s1) \<Rightarrow>
                     (case sp_Apply sp endpoint w1 of
                        (Some e, w2) \<Rightarrow>
                          let en2 = en\<lparr>en_fs := snd (RemoveJournal journalPath s1), en_desktop := w2\<rparr> in
                          if errors_Is e ErrUnsupported then (None, r, en2)
                          else (Some (Wrapped ''apply system proxy: '' e), markStopped r, en2)
                      | (None, w2) \<Rightarrow>
                          (None, r\<lparr>rt_journalPath := journalPath, rt_journal := Some journal, rt_hasJournal := True\<rparr>,
                           en\<lparr>en_fs := s1, en_desktop := w2\<rparr>))))"

definition start_listeners :: "string res \<Rightarrow> string res \<Rightarrow> 'w Runtime \<Rightarrow> error option \<times> 'w Runtime" where
  "start_listeners listenHTTP listenSOCKS r =
     (case proxy_Start listenHTTP proxy_New of
        (Inl e, _) \<Rightarrow> (Some e, markStopped (r\<lparr>rt_manager := Manager_Close (rt_manager r)\<rparr>))
      | (Inr a, h) \<Rightarrow>
          let r1 = r\<lparr>rt_httpServer := Some h, rt_httpAddr := a\<rparr> in
          if \<not> rt_SOCKS5 r then (None, r1)
          else (case proxy_Start listenSOCKS proxy_New of
                  (Inl e, _) \<Rightarrow>
                    (Some e, markStopped (r1\<lparr>rt_httpServer := Some (snd (proxy_Close None h)), rt_manager := Manager_Close (rt_manager r)\<rparr>))
                | (Inr b, k) \<Rightarrow> (None, r1\<lparr>rt_socksServer := Some k, rt_socksAddr := b\<rparr>)))"

definition Runtime_Start ::
  "conn res tls_dial \<Rightarrow> conn tls_dial \<Rightarrow> kdf \<Rightarrow> string \<Rightarrow> string \<Rightarrow> string res \<Rightarrow> string res \<Rightarrow> int \<Rightarrow> string \<Rightarrow>
   'w Runtime \<Rightarrow> 'w environment \<Rightarrow> error option \<times> 'w Runtime \<times> 'w environment" where
  "Runtime_Start DialQUIC DialTLS kdf sAddress passphrase listenHTTP listenSOCKS pid now r en =
     (if rt_closed r then (Some (Msg ''client runtime is shut down''), r, en)
      else if rt_started r then (Some (Msg ''client runtime is already started''), r, en)
      else case recoverJournal r en of
        (Some e, en1) \<Rightarrow> (Some (Wrapped ''recover stale proxy journal: '' e), markStopped r, en1)
      | (None, en1) \<Rightarrow>
          (case Connect_call DialQUIC DialTLS kdf sAddress passphrase (rt_manager r) of
             (Some e, m1) \<Rightarrow> (Some e, markStopped (r\<lparr>rt_manager := m1\<rparr>), en1)
           | (None, m1) \<Rightarrow>
               (case start_listeners listenHTTP listenSOCKS (r\<lparr>rt_manager := m1, rt_started := True\<rparr>) of
                  (Some e, r1) \<Rightarrow> (Some e, r1, en1)
                | (None, r1) \<Rightarrow> start_settings pid now r1 en1)))"

section \<open>Stopping\<close>

definition proxyMatches :: "'w SystemProxy \<Rightarrow> Snapshot \<Rightarrow> Endpoint \<Rightarrow> 'w \<Rightarrow> bool res" where
  "proxyMatches sp snapshot endpoint w =
     (case sp_Matches sp of
        Some f \<Rightarrow> f snapshot endpoint w
      | None \<Rightarrow> Inl (Msg ''system proxy implementation cannot verify applied settings''))"

definition restoreProxy :: "'w Runtime \<Rightarrow> 'w environment \<Rightarrow> error option \<times> 'w Runtime \<times> 'w environment" where
  "restoreProxy r en =
     (case (rt_hasJournal r, rt_journal r) of
        (True, Some journal) \<Rightarrow>
          let sp = rt_systemProxy r in
          (case sp_Snapshot sp (en_desktop en) of
             (Inl e, w1) \<Rightarrow> (Some (Wrapped ''snapshot current proxy settings: '' e), r, en\<lparr>en_desktop := w1\<rparr>)
           | (Inr current, w1) \<Rightarrow>
               (case proxyMatches sp current (jr_Applied journal) w1 of
                  Inl e \<Rightarrow> (Some (Wrapped ''verify applied proxy settings: '' e), r, en\<lparr>en_desktop := w1\<rparr>)
                | Inr applied \<Rightarrow>
                    if \<not> applied
                    then (Some (Msg ''system proxy settings changed externally; journal preserved''), r, en\<lparr>en_desktop := w1\<rparr>)
                    else (case sp_Restore sp (jr_Before journal) w1 of
                            (Some e, w2) \<Rightarrow> (Some (Wrapped ''restore system proxy settings: '' e), r, en\<lparr>en_desktop := w2\<rparr>)
                          | (None, w2) \<Rightarrow>
                              (case RemoveJournal (rt_journalPath r) (en_fs en) of
                                 (Some e, s1) \<Rightarrow> (Some e, r, en\<lparr>en_fs := s1, en_desktop := w2\<rparr>)
                               | (None, s1) \<Rightarrow> (None, r\<lparr>rt_hasJournal := False\<rparr>, en\<lparr>en_fs := s1, en_desktop := w2\<rparr>)))))
      | _ \<Rightarrow> (None, r, en))"

section \<open>Exits and streams\<close>

definition SetExit :: "string \<Rightarrow> bool \<Rightarrow> 'w Runtime \<Rightarrow> error option \<times> 'w Runtime" where
  "SetExit exitID0 fallback r =
     (let exitID = TrimSpace exitID0 in
      if exitID = [] then (Some (Msg ''exit ID is required''), r)
      else if exitID \<noteq> ''auto'' \<and> \<not> list_ex (\<lambda>e. ei_ID e = exitID) (Manager_Catalog (rt_manager r))
      then (Some (Msg (''unknown exit '' @ quoted exitID)), r)
      else (None, r\<lparr>rt_exitID := exitID, rt_fallback := fallback\<rparr>))"

text \<open>
  \<open>managerDialer.Dial\<close>: \<open>dial\<close> has the outcome of \<open>Manager.Dial\<close> for a request. The result is the number of
  the counted stream with the stream it wraps; the requests that were made are listed.
\<close>

definition dialer_request :: "string \<Rightarrow> u16 \<Rightarrow> string \<Rightarrow> OpenRequest" where
  "dialer_request host port exitID = \<lparr>or_RequestID = 0, or_ExitID = exitID, or_Destination = host, or_Port = port,
     or_Protocol = ProtocolTCP, or_ClientSelected = False\<rparr>"

definition count_stream :: "'w Runtime \<Rightarrow> nat \<times> 'w Runtime" where
  "count_stream r = (length (rt_counted r), r\<lparr>rt_active := rt_active r + 1, rt_counted := rt_counted r @ [False]\<rparr>)"

definition dialer_Dial ::
  "(OpenRequest \<Rightarrow> 't res) \<Rightarrow> string \<Rightarrow> u16 \<Rightarrow> 'w Runtime \<Rightarrow> (nat \<times> 't) res \<times> OpenRequest list \<times> 'w Runtime" where
  "dialer_Dial dial host port r =
     (let q = dialer_request host port (rt_exitID r); q2 = q\<lparr>or_ExitID := ''auto''\<rparr> in
      case dial q of
        Inr t \<Rightarrow> (case count_stream r of (k, r1) \<Rightarrow> (Inr (k, t), [q], r1))
      | Inl e \<Rightarrow>
          if rt_fallback r \<and> or_ExitID q \<noteq> ''auto'' then
            (case dial q2 of
               Inr t \<Rightarrow> (case count_stream r of (k, r1) \<Rightarrow> (Inr (k, t), [q, q2], r1))
             | Inl e2 \<Rightarrow> (Inl e2, [q, q2], r))
          else (Inl e, [q], r))"

definition counted_Close :: "nat \<Rightarrow> 'w Runtime \<Rightarrow> 'w Runtime" where
  "counted_Close k r =
     (if k < length (rt_counted r) \<and> \<not> rt_counted r ! k
      then r\<lparr>rt_active := rt_active r - 1, rt_counted := (rt_counted r)[k := True]\<rparr> else r)"

section \<open>Shutting down\<close>

text \<open>
  The wait of \<open>Shutdown\<close> for open streams, over what happens in order: a case of its select, a stream opened by a
  dial that was under way, a counted stream closed. \<open>None\<close> says that it is still waiting.
\<close>

datatype drain_event = DrainDeadline | DrainTick | DrainCanceled | DrainOpened | DrainEnded nat

fun drain_wait :: "drain_event list \<Rightarrow> 'w Runtime \<Rightarrow> 'w Runtime option" where
  "drain_wait [] r = None"
| "drain_wait (DrainDeadline # evs) r = Some r"
| "drain_wait (DrainTick # evs) r = (if rt_active r > 0 then drain_wait evs r else Some r)"
| "drain_wait (DrainCanceled # evs) r = Some r"
| "drain_wait (DrainOpened # evs) r = drain_wait evs (snd (count_stream r))"
| "drain_wait (DrainEnded k # evs) r = drain_wait evs (counted_Close k r)"

definition shutdown_begin :: "'w Runtime \<Rightarrow> 'w Runtime" where
  "shutdown_begin r =
     r\<lparr>rt_closed := True, rt_httpServer := map_option (\<lambda>p. snd (proxy_Close None p)) (rt_httpServer r),
       rt_socksServer := map_option (\<lambda>p. snd (proxy_Close None p)) (rt_socksServer r)\<rparr>"

definition Runtime_Shutdown ::
  "int \<Rightarrow> drain_event list \<Rightarrow> 'w Runtime \<Rightarrow> 'w environment \<Rightarrow> (error option \<times> 'w Runtime \<times> 'w environment) option" where
  "Runtime_Shutdown drain evs r en =
     (if rt_closed r then Some (None, r, en)
      else case (if drain > 0 then drain_wait evs (shutdown_begin r) else Some (shutdown_begin r)) of
        None \<Rightarrow> None
      | Some r1 \<Rightarrow> Some (restoreProxy (r1\<lparr>rt_manager := Manager_Close (rt_manager r1)\<rparr>) en))"

end
