(* ===== verification/SystemProxyProps.thy ===== *)
theory SystemProxyProps
  imports SystemProxy
begin

text \<open>
  The contract of a system proxy (locale \<open>system_proxy\<close>): restoring a snapshot brings back the settings
  it was taken from. Windows keeps it, given a registry that stores values; so does the provider
  for unsupported desktops, which changes nothing. GNOME does not. The journal survives its file.
\<close>

section \<open>The contract\<close>

locale system_proxy =
  fixes sp :: "'w SystemProxy"
  assumes snapshot_stable: "sp_Snapshot sp w = (Inr sn, w1) \<Longrightarrow> sp_Snapshot sp w1 = (Inr sn, w1)"
    and restore_back: "sp_Snapshot sp w = (Inr sn, w0) \<Longrightarrow> sp_Restore sp sn w1 = (None, w2) \<Longrightarrow>
          \<exists>w3. sp_Snapshot sp w2 = (Inr sn, w3)"
begin

text \<open>Whatever happened to the settings in between, a restore that succeeds undoes all of it.\<close>

definition same_settings :: "'w \<Rightarrow> 'w \<Rightarrow> bool" where
  "same_settings w w' \<longleftrightarrow> (\<exists>sn v v'. sp_Snapshot sp w = (Inr sn, v) \<and> sp_Snapshot sp w' = (Inr sn, v'))"

lemma restored: "sp_Snapshot sp w = (Inr sn, w0) \<Longrightarrow> sp_Restore sp sn w1 = (None, w2) \<Longrightarrow> same_settings w w2"
  unfolding same_settings_def using restore_back by blast

lemma same_settings_trans: "same_settings a b \<Longrightarrow> same_settings b c \<Longrightarrow> same_settings a c"
  unfolding same_settings_def by auto

end

interpretation unsupported: system_proxy "Unsupported :: 'w SystemProxy"
  by unfold_locales (auto simp: Unsupported_def)

section \<open>Windows\<close>

datatype reg_value = DWord u32 | QWord u64 | RegString string | OtherValue

text \<open>
  What the registry package documents of the key's values: reading by type, writing, deleting;
  strings are converted from UTF-16.
\<close>

fun reg_integer :: "reg_value option \<Rightarrow> u64 option" where
  "reg_integer (Some (DWord v)) = Some (ucast v)"
| "reg_integer (Some (QWord v)) = Some v"
| "reg_integer _ = None"

fun reg_string :: "reg_value option \<Rightarrow> string option" where
  "reg_string (Some (RegString s)) = Some s"
| "reg_string _ = None"

definition yields :: "'a option \<Rightarrow> 'a res \<Rightarrow> bool" where
  "yields x r \<longleftrightarrow> (case r of Inl _ \<Rightarrow> x = None | Inr y \<Rightarrow> x = Some y)"

definition reads_values :: "'w registry \<Rightarrow> ('w \<Rightarrow> string \<rightharpoonup> reg_value) \<Rightarrow> bool" where
  "reads_values R view \<longleftrightarrow>
     (\<forall>n w. yields (reg_integer (view w n)) (rk_GetInteger R n w) \<and> yields (reg_string (view w n)) (rk_GetString R n w)
       \<and> (\<forall>s. view w n = Some (RegString s) \<longrightarrow> valid_utf8 s))"

definition writes_values :: "'w registry \<Rightarrow> ('w \<Rightarrow> string \<rightharpoonup> reg_value) \<Rightarrow> bool" where
  "writes_values R view \<longleftrightarrow>
     (\<forall>w n s v w'. (rk_SetString R n s w = (None, w') \<longrightarrow> view w' = (view w)(n \<mapsto> RegString s) \<and> rk_OpenKey R w' = rk_OpenKey R w)
       \<and> (rk_SetDWord R n v w = (None, w') \<longrightarrow> view w' = (view w)(n \<mapsto> DWord v) \<and> rk_OpenKey R w' = rk_OpenKey R w)
       \<and> (rk_CreateKey R w = (None, w') \<longrightarrow> view w' = view w \<and> rk_OpenKey R w' = None)
       \<and> view (snd (rk_Delete R n w)) = (view w)(n := None) \<and> rk_OpenKey R (snd (rk_Delete R n w)) = rk_OpenKey R w
       \<and> view (rk_Notify R w) = view w \<and> rk_OpenKey R (rk_Notify R w) = rk_OpenKey R w)"

lemma writes_None:
  "writes (f # fs) w = (None, w') \<longleftrightarrow> (\<exists>w1. f w = (None, w1) \<and> writes fs w1 = (None, w'))"
  by (auto split: prod.splits option.splits)

lemma windows_roundtrip:
  assumes "valid_utf8 (ws_ProxyServer v)" "valid_utf8 (ws_ProxyOverride v)" "valid_utf8 (ws_AutoConfigURL v)"
  shows "Unmarshal (Marshal (windows_json v)) = Some (windows_json v)" "json_windows (windows_json v) = Some v"
proof -
  show "Unmarshal (Marshal (windows_json v)) = Some (windows_json v)"
    by (rule Unmarshal_Marshal) (use assms in \<open>simp add: windows_json_def word_j_def\<close>)
  show "json_windows (windows_json v) = Some v"
    by (cases v) (simp add: json_windows_def windows_json_def jstruct_def fold_names)
qed

definition or_default :: "'a \<Rightarrow> 'a option \<Rightarrow> 'a" where
  "or_default z x = (case x of None \<Rightarrow> z | Some y \<Rightarrow> y)"

lemma or_zero_yields: "yields x r \<Longrightarrow> or_zero z r = or_default z x"
  by (auto simp: yields_def or_zero_def or_default_def split: sum.splits)

lemma windows_values_view:
  assumes "reads_values R view"
  shows "windows_values R w =
    \<lparr>ws_ProxyEnable = ucast (or_default 0 (reg_integer (view w ''ProxyEnable''))),
     ws_ProxyServer = or_default [] (reg_string (view w ''ProxyServer'')),
     ws_ProxyOverride = or_default [] (reg_string (view w ''ProxyOverride'')),
     ws_AutoConfigURL = or_default [] (reg_string (view w ''AutoConfigURL''))\<rparr>"
proof -
  have "or_zero 0 (rk_GetInteger R n w) = or_default 0 (reg_integer (view w n))"
    and "or_zero [] (rk_GetString R n w) = or_default [] (reg_string (view w n))" for n
    by (rule or_zero_yields, use assms in \<open>simp add: reads_values_def\<close>)+
  then show ?thesis by (simp add: windows_values_def)
qed

lemma reg_string_utf8:
  "(\<forall>s. x = Some (RegString s) \<longrightarrow> valid_utf8 s) \<Longrightarrow> valid_utf8 (or_default [] (reg_string x))"
  by (cases x rule: reg_string.cases) (simp_all add: or_default_def)

lemma windows_values_utf8:
  assumes "reads_values R view"
  shows "valid_utf8 (ws_ProxyServer (windows_values R w))" "valid_utf8 (ws_ProxyOverride (windows_values R w))"
    "valid_utf8 (ws_AutoConfigURL (windows_values R w))"
  using assms by (simp_all add: windows_values_view [OF assms] reads_values_def reg_string_utf8)

lemma Windows_Snapshot_InrD:
  assumes "reads_values R view" and "Windows_Snapshot R w = Inr sn"
  shows "sn = \<lparr>sn_Version = 1, sn_Values = Some (windows_json (windows_values R w))\<rparr>"
    and "unmarshal_values json_windows sn = Inr (windows_values R w)"
  using assms(2) windows_roundtrip [OF windows_values_utf8 [OF assms(1)]]
  by (auto simp: Windows_Snapshot_def unmarshal_values_def split: option.splits)

lemma writes_valuesD:
  assumes "writes_values R view"
  shows "rk_SetString R n s w = (None, w') \<Longrightarrow> view w' = (view w)(n \<mapsto> RegString s) \<and> rk_OpenKey R w' = rk_OpenKey R w"
    and "rk_SetDWord R n v w = (None, w') \<Longrightarrow> view w' = (view w)(n \<mapsto> DWord v) \<and> rk_OpenKey R w' = rk_OpenKey R w"
    and "rk_CreateKey R w = (None, w') \<Longrightarrow> view w' = view w \<and> rk_OpenKey R w' = None"
    and "view (snd (rk_Delete R n w)) = (view w)(n := None)" "rk_OpenKey R (snd (rk_Delete R n w)) = rk_OpenKey R w"
    and "view (rk_Notify R w) = view w" "rk_OpenKey R (rk_Notify R w) = rk_OpenKey R w"
  using assms unfolding writes_values_def by blast+

lemma u32_widened [simp]: "ucast (ucast (x :: u32) :: u64) = x"
  by (rule bit_word_eqI) (simp add: bit_simps)

lemma Windows_Restore_values:
  assumes "reads_values R view" and "writes_values R view" and "unmarshal_values json_windows sn = Inr v"
    and "Windows_Restore R sn w = (None, w')"
  shows "windows_values R w' = v" and "rk_OpenKey R w' = None"
proof -
  obtain w1 w2 w3 w4 w5 where s: "rk_CreateKey R w = (None, w1)" "rk_SetDWord R ''ProxyEnable'' (ws_ProxyEnable v) w1 = (None, w2)"
    "rk_SetString R ''ProxyServer'' (ws_ProxyServer v) w2 = (None, w3)"
    "rk_SetString R ''ProxyOverride'' (ws_ProxyOverride v) w3 = (None, w4)"
    "if ws_AutoConfigURL v = [] then w5 = snd (rk_Delete R ''AutoConfigURL'' w4)
     else rk_SetString R ''AutoConfigURL'' (ws_AutoConfigURL v) w4 = (None, w5)" "w' = rk_Notify R w5"
    using assms(3,4)
    by (auto simp: Windows_Restore_def writes_None simp del: writes.simps(2) split: prod.splits option.splits if_splits)
  note W = writes_valuesD [OF assms(2)]
  note s' = W(3) [OF s(1)] W(2) [OF s(2)] W(1) [OF s(3)] W(1) [OF s(4)]
  have v5: "view w' = (view w4)(''AutoConfigURL'' := if ws_AutoConfigURL v = [] then None else Some (RegString (ws_AutoConfigURL v)))"
    and o5: "rk_OpenKey R w' = None"
    using s' s(5,6) W(1) [of "''AutoConfigURL''" "ws_AutoConfigURL v" w4 w5] W(4-7) by (simp_all split: if_splits)
  show "rk_OpenKey R w' = None" by (rule o5)
  show "windows_values R w' = v"
    by (cases v) (use s' in \<open>simp add: windows_values_view [OF assms(1)] v5 or_default_def\<close>)
qed

lemma windows_system_proxy:
  assumes "reads_values R view" and "writes_values R view" shows "system_proxy (Windows R)"
proof
  show "sp_Snapshot (Windows R) w = (Inr sn, w1) \<Longrightarrow> sp_Snapshot (Windows R) w1 = (Inr sn, w1)" for w sn w1
    by (auto simp: Windows_def)
next
  fix w sn w0 w1 w2
  assume "sp_Snapshot (Windows R) w = (Inr sn, w0)" and r: "sp_Restore (Windows R) sn w1 = (None, w2)"
  then have s: "Windows_Snapshot R w = Inr sn" by (auto simp: Windows_def)
  from r have "windows_values R w2 = windows_values R w" "rk_OpenKey R w2 = None"
    using Windows_Restore_values [OF assms Windows_Snapshot_InrD(2) [OF assms(1) s]] by (simp_all add: Windows_def)
  with s have "Windows_Snapshot R w2 = Inr sn" by (auto simp: Windows_Snapshot_def split: option.splits)
  then show "\<exists>w3. sp_Snapshot (Windows R) w2 = (Inr sn, w3)" by (simp add: Windows_def)
qed

text \<open>A registry as documented makes the Windows provider a system proxy.\<close>

locale windows_registry =
  fixes R :: "'w registry" and view :: "'w \<Rightarrow> string \<rightharpoonup> reg_value"
  assumes values_read: "reads_values R view" and values_written: "writes_values R view"

sublocale windows_registry \<subseteq> provider: system_proxy "Windows R"
  by (rule windows_system_proxy [OF values_read values_written])

lemma windows_apply_matches:
  assumes "reads_values R view" and "writes_values R view" and "Windows_Apply R ep w = (None, w1)"
    and "Windows_Snapshot R w1 = Inr sn"
  shows "Windows_Matches R sn ep w1 = Inr True"
proof -
  obtain a b c where s: "rk_SetString R ''ProxyServer'' (windows_server ep) a = (None, b)"
    "rk_SetDWord R ''ProxyEnable'' 1 b = (None, c)" "w1 = rk_Notify R (snd (rk_Delete R ''AutoConfigURL'' c))"
    using assms(3) by (auto simp: Windows_Apply_def writes_None simp del: writes.simps(2) split: prod.splits option.splits)
  note W = writes_valuesD [OF assms(2)]
  have "view w1 = ((view a)(''ProxyServer'' \<mapsto> RegString (windows_server ep), ''ProxyEnable'' \<mapsto> DWord 1))(''AutoConfigURL'' := None)"
    using W(1) [OF s(1)] W(2) [OF s(2)] by (simp add: s(3) W(4,6))
  then have "ws_ProxyEnable (windows_values R w1) = 1" "ws_ProxyServer (windows_values R w1) = windows_server ep"
    "ws_AutoConfigURL (windows_values R w1) = []"
    by (simp_all add: windows_values_view [OF assms(1)] or_default_def)
  then show ?thesis
    using Windows_Snapshot_InrD [OF assms(1,4)] assms(4) by (simp add: Windows_Matches_def)
qed

lemma windows_apply_opens:
  assumes "writes_values R view" and "Windows_Apply R ep w = (None, w1)" shows "rk_OpenKey R w1 = None"
proof -
  obtain a b c where s: "rk_CreateKey R w = (None, a)" "rk_SetString R ''ProxyServer'' (windows_server ep) a = (None, b)"
    "rk_SetDWord R ''ProxyEnable'' 1 b = (None, c)" "w1 = rk_Notify R (snd (rk_Delete R ''AutoConfigURL'' c))"
    using assms(2) by (auto simp: Windows_Apply_def writes_None simp del: writes.simps(2) split: prod.splits option.splits)
  note W = writes_valuesD [OF assms(1)]
  from W(3) [OF s(1)] W(1) [OF s(2)] W(2) [OF s(3)] show ?thesis by (simp add: s(4) W(5,7))
qed

section \<open>GNOME\<close>

text \<open>What \<open>gsettings set\<close> documents: it sets one key, or fails and sets nothing.\<close>

definition gsettings_sets :: "'w linux_tools \<Rightarrow> ('w \<Rightarrow> string \<times> string \<Rightarrow> string) \<Rightarrow> bool" where
  "gsettings_sets T view \<longleftrightarrow>
     (\<forall>s k v w. case lt_exec T [''gsettings'', ''set'', s, k, v] w of
         (Inl e, w') \<Rightarrow> view w' = view w
       | (Inr out, w') \<Rightarrow> view w' = (view w)((s, k) := v))"

lemma gsettingsSet_view:
  "gsettings_sets T view \<Longrightarrow> view (snd (gsettingsSet T s k v w)) \<in> {view w, (view w)((s, k) := v)}"
proof -
  assume "gsettings_sets T view"
  then have "case lt_exec T [''gsettings'', ''set'', s, k, v] w of
      (Inl e, w') \<Rightarrow> view w' = view w | (Inr out, w') \<Rightarrow> view w' = (view w)((s, k) := v)"
    by (simp add: gsettings_sets_def)
  then show ?thesis by (auto simp: gsettingsSet_def cmd_Run_def split: prod.splits sum.splits)
qed

text \<open>
  Remark (GNOME). The snapshot of the GNOME settings has the host of the HTTP proxy without its port;
  restoring it splits the host as an address with a port, which fails for every host name or IPv4
  address, and writes an empty host: a proxy that was configured before is not brought back.
\<close>

theorem gnome_restore_loses_proxy:
  assumes "gsettings_sets T view" and "unmarshal_values json_gnome sn = Inr v" and "gs_HTTP v = h" and "h \<noteq> []"
    and "CHR '':'' \<notin> set h" and "Linux_Restore T linuxGSettings sn w = (r, w')" and "r = None"
    and "view w (gnome_http, ''host'') \<noteq> h"
  shows "view w' (gnome_http, ''host'') \<noteq> h
    \<and> (view w' (gnome_http, ''host'') = [] \<or> view w' (gnome_http, ''host'') = view w (gnome_http, ''host''))"
proof -
  have sp: "split_or_empty h = ([], [])"
    using assms(4,5) by (simp add: split_or_empty_def splitEndpoint_def netSplitHostPort_def SplitHostPort_def split_last_colon_None [THEN iffD2])
  obtain q where q: "split_or_empty (gs_HTTPS v) = q" by blast
  let ?key = "(gnome_http, ''host'')"
  have other: "view (snd (gsettingsSet T s k x u)) ?key = view u ?key" if "(s, k) \<noteq> ?key" for s k x u
    using gsettingsSet_view [OF assms(1), of s k x u] that by auto
  have host: "view (snd (gsettingsSet T gnome_http ''host'' [] u)) ?key \<in> {view u ?key, []}" for u
    using gsettingsSet_view [OF assms(1), of gnome_http "''host''" "[]" u] by auto
  have n: "gnome_root \<noteq> gnome_http" "gnome_https \<noteq> gnome_http" by (simp_all add: gnome_root_def gnome_http_def gnome_https_def)
  obtain w1 where w1: "w1 = snd (gsettingsSet T gnome_root ''mode'' (gs_Mode v) w)" by blast
  have w': "w' = snd (gsettingsSet T gnome_root ''autoconfig-url'' (gs_Autoconf v)
      (tries [gsettingsSet T gnome_http ''host'' [], gsettingsSet T gnome_http ''port'' [],
              gsettingsSet T gnome_https ''host'' (fst q), gsettingsSet T gnome_https ''port'' (snd q)] w1))"
    using assms(2,3,6,7) sp q w1 by (auto simp: Linux_Restore_def Let_def split: prod.splits option.splits)
  have "view w1 ?key = view w ?key" unfolding w1 by (rule other) (simp add: n)
  moreover have "view w' ?key = view (snd (gsettingsSet T gnome_http ''host'' [] w1)) ?key"
    unfolding w' tries_def by (simp add: other n)
  ultimately show ?thesis using host [of w1] assms(4,8) by auto
qed

section \<open>The journal\<close>

definition journal_ok :: "Journal \<Rightarrow> bool" where
  "journal_ok j \<longleftrightarrow> jr_Version j = 1 \<and> int64 (jr_PID j) \<and> rfc3339 (jr_Time j) \<and> printable (Journal_json j)
     \<and> int64 (sn_Version (jr_Before j)) \<and> sn_Values (jr_Before j) \<noteq> None"

lemma Journal_roundtrip: "journal_ok j \<Longrightarrow> json_Journal (Journal_json j) = Some j"
  by (cases j; cases "jr_Applied j"; cases "jr_Before j")
     (auto simp: journal_ok_def json_Journal_def Journal_json_def jstruct_def fold_names j_time_def int64_def
        json_Endpoint_def Endpoint_json_def json_Snapshot_def Snapshot_json_def zero_endpoint_def omit_if_def)

text \<open>A file in the state a journal was written to, read by calls that succeed.\<close>

lemma ReadJournal_written:
  assumes "WriteJournal p j s = (None, s')" and "journal_ok j" and "fs_files t p = fs_files s' p" and "fs_calls t = []"
  shows "ReadJournal p t = (Inr j, t)"
proof -
  obtain m where "fs_files s' p = Some \<lparr>fl_data = MarshalIndent (Journal_json j) @ [10], fl_mode = m\<rparr>"
    using replace_file_done [OF assms(1) [unfolded WriteJournal_def]] by blast
  moreover have "Unmarshal (MarshalIndent (Journal_json j) @ [10]) = Some (Journal_json j)"
    by (rule Unmarshal_MarshalIndent) (use assms(2) in \<open>simp add: journal_ok_def\<close>)
  ultimately show ?thesis
    using assms(2-4) Journal_roundtrip [OF assms(2)]
    by (simp add: ReadJournal_def os_ReadFile_def next_call_def) (simp add: journal_ok_def)
qed

lemma RemoveJournal_done:
  "fs_calls t = [] \<Longrightarrow> \<exists>t'. RemoveJournal p t = (None, t') \<and> fs_files t' = (fs_files t)(p := None) \<and> fs_calls t' = []"
  by (cases "fs_files t p") (auto simp: RemoveJournal_def os_Remove_def next_call_def fun_upd_idem)

section \<open>Examples\<close>

type_synonym ex_desktop = "string \<times> string \<Rightarrow> string"

definition ex_gsettings :: "ex_desktop linux_tools" where
  "ex_gsettings = \<lparr>lt_exec = (\<lambda>c w. case c of
       [p, op, s, k] \<Rightarrow> (Inr ([CHR 0x27] @ w (s, k) @ [CHR 0x27, CHR 0x0A]), w)
     | [p, op, s, k, v] \<Rightarrow> (Inr [], w((s, k) := v))
     | _ \<Rightarrow> (Inl EOF, w)),
     lt_LookPath = (\<lambda>p. Inr p), lt_Getenv = (\<lambda>n. [])\<rparr>"

definition ex_gnome :: ex_desktop where
  "ex_gnome = (\<lambda>k. [])((gnome_root, ''mode'') := ''manual'', (gnome_http, ''host'') := ''corp'', (gnome_http, ''port'') := ''80'')"

lemma ex_gsettings_ops:
  "gsettingsGet ex_gsettings s k w = (Inr (Trim (TrimSpace ([CHR 0x27] @ w (s, k) @ [CHR 0x27, CHR 0x0A])) [CHR 0x27]), w)"
  "gsettingsSet ex_gsettings s k v w = (None, w((s, k) := v))"
  by (simp_all add: gsettingsGet_def gsettingsSet_def cmd_Run_def ex_gsettings_def)

lemma ex_unquote:
  "Trim (TrimSpace ([CHR 0x27] @ [] @ [CHR 0x27, CHR 0x0A])) [CHR 0x27] = []"
  "Trim (TrimSpace ([CHR 0x27] @ ''manual'' @ [CHR 0x27, CHR 0x0A])) [CHR 0x27] = ''manual''"
  "Trim (TrimSpace ([CHR 0x27] @ ''corp'' @ [CHR 0x27, CHR 0x0A])) [CHR 0x27] = ''corp''"
  by code_simp+

definition ex_gnome_snapshot :: Snapshot where
  "ex_gnome_snapshot = \<lparr>sn_Version = 1, sn_Values = Some (six_json gnome_names [''manual'', ''corp'', [], [], [], []])\<rparr>"

lemma ex_gnome_taken: "Linux_Snapshot ex_gsettings linuxGSettings ex_gnome = (Inr ex_gnome_snapshot, ex_gnome)"
proof -
  have "Unmarshal (Marshal (six_json gnome_names [''manual'', ''corp'', [], [], [], []]))
      = Some (six_json gnome_names [''manual'', ''corp'', [], [], [], []])"
    by (rule Unmarshal_Marshal) (simp add: six_json_def gnome_names_def)
  then show ?thesis
    using ex_unquote
    by (simp add: Linux_Snapshot_def ex_gsettings_ops ex_gnome_def gnome_root_def gnome_http_def gnome_https_def gnome_socks_def
        marshalSnapshot_def ex_gnome_snapshot_def)
qed

lemma ex_gnome_values: "unmarshal_values json_gnome ex_gnome_snapshot =
    Inr \<lparr>gs_Mode = ''manual'', gs_HTTP = ''corp'', gs_HTTPS = [], gs_SOCKS = [], gs_Ignore = [], gs_Autoconf = []\<rparr>"
  by (simp add: unmarshal_values_def ex_gnome_snapshot_def json_gnome_def json_six_def six_json_def gnome_names_def jstruct_def fold_names)

theorem gnome_restore_loses_proxy_witness:
  "\<exists>w1 w2. Linux_Snapshot ex_gsettings linuxGSettings ex_gnome = (Inr ex_gnome_snapshot, ex_gnome)
     \<and> Linux_Apply ex_gsettings linuxGSettings \<lparr>ep_HTTP = ''127.0.0.1:1'', ep_HTTPS = [], ep_SOCKS = []\<rparr> ex_gnome = (None, w1)
     \<and> Linux_Restore ex_gsettings linuxGSettings ex_gnome_snapshot w1 = (None, w2)
     \<and> ex_gnome (gnome_http, ''host'') = ''corp'' \<and> w2 (gnome_http, ''host'') \<noteq> ''corp''"
proof -
  have g: "gsettings_sets ex_gsettings id" by (simp add: gsettings_sets_def ex_gsettings_def)
  have sp: "splitEndpoint ''127.0.0.1:1'' = Inr (''127.0.0.1'', ''1'')" "splitEndpoint [] = Inr ([], ''0'')" by code_simp+
  let ?ep = "\<lparr>ep_HTTP = ''127.0.0.1:1'', ep_HTTPS = [], ep_SOCKS = []\<rparr>"
  obtain w1 where a: "Linux_Apply ex_gsettings linuxGSettings ?ep ex_gnome = (None, w1)" "w1 (gnome_http, ''host'') = ''127.0.0.1''"
    by (simp add: Linux_Apply_def ex_gsettings_ops sp gnome_root_def gnome_http_def gnome_https_def)
  obtain w2 where r: "Linux_Restore ex_gsettings linuxGSettings ex_gnome_snapshot w1 = (None, w2)"
    by (simp add: Linux_Restore_def ex_gnome_values ex_gsettings_ops Let_def)
  have "id w2 (gnome_http, ''host'') \<noteq> ''corp''"
    using gnome_restore_loses_proxy [OF g ex_gnome_values, of "''corp''" w1 None w2] r a(2) by simp
  then show ?thesis using ex_gnome_taken a(1) r by (simp add: ex_gnome_def gnome_http_def)
qed

end
