(* ===== verification/Exit.thy ===== *)
theory Exit
  imports Dialing ServerProps
begin

text \<open>
  \<open>src/internal/node/exit.go\<close>: the exit. It connects to the server, proves the passphrase, registers,
  sends heartbeats and serves the streams the server opens; when the connection ends it tries again.
\<close>

section \<open>State\<close>

record Exit =
  xe_config :: Node
  xe_passphrase :: string
  xe_active :: int
  xe_forceTCP :: bool
  xe_trust :: "KnownHosts option"

definition NewExit :: "Node \<Rightarrow> string \<Rightarrow> Exit" where
  "NewExit cfg passphrase = \<lparr>xe_config = cfg, xe_passphrase = passphrase, xe_active = 0, xe_forceTCP = False, xe_trust = None\<rparr>"

definition UseTCP :: "Exit \<Rightarrow> Exit" where
  "UseTCP e = e\<lparr>xe_forceTCP := True\<rparr>"

definition UseTrust :: "KnownHosts \<Rightarrow> Exit \<Rightarrow> Exit" where
  "UseTrust k e = e\<lparr>xe_trust := Some k\<rparr>"

section \<open>Connecting\<close>

text \<open>The expected fingerprint, and whether the trust store is used.\<close>

definition trustConfig :: "string \<Rightarrow> Exit \<Rightarrow> string \<times> bool" where
  "trustConfig host e =
     (if nd_ServerFingerprint (xe_config e) \<noteq> [] then (nd_ServerFingerprint (xe_config e), False)
      else case xe_trust e of
        Some k \<Rightarrow> (KnownHosts_Get host k, True)
      | None \<Rightarrow> ([], False))"

definition exit_registration :: "Exit \<Rightarrow> ExitRegistration" where
  "exit_registration e = \<lparr>xr_ID = nd_ExitID (xe_config e), xr_Name = nd_ExitName (xe_config e),
     xr_Capacity = nd_Capacity (xe_config e), xr_Features = [''tcp'']\<rparr>"

text \<open>\<open>runConnection\<close> up to the wait for the end of the session, and what it returns then.\<close>

definition runConnection :: "kdf \<Rightarrow> conn \<Rightarrow> Exit \<Rightarrow> session res" where
  "runConnection kdf c e =
     (case ClientHandshakePassword kdf (xe_passphrase e) RoleExit c of
        (Some x, c1) \<Rightarrow> Inl x
      | (None, c1) \<Rightarrow>
          (case Start (Some (Inr c1)) True (New (nd_IdleTimeout (xe_config e)) 0) of
             (Some x, s) \<Rightarrow> Inl x
           | (None, s) \<Rightarrow>
               (case writeFrameJSON FrameRegister 0 (ExitRegistration_json (exit_registration e)) s of
                  (Some x, s') \<Rightarrow> Inl x
                | (None, s') \<Rightarrow> Inr s')))"

definition runConnection_end :: "session \<Rightarrow> error option" where
  "runConnection_end s =
     (case ss_err s of
        None \<Rightarrow> None
      | Some x \<Rightarrow> if \<not> errors_Is x ErrClosed then Some x else None)"

definition connectOnce :: "conn res tls_dial \<Rightarrow> conn tls_dial \<Rightarrow> kdf \<Rightarrow> string \<Rightarrow> Exit \<Rightarrow> session res \<times> Exit" where
  "connectOnce DialQUIC DialTLS kdf address e =
     (let host = addressHost address in
      case trustConfig host e of
        (expected, use) \<Rightarrow>
          let tlsConfig = ClientTLSConfig expected use host in
          if \<not> xe_forceTCP e then
            (case DialQUIC address tlsConfig (xe_trust e) of
               (Inr opened, t) \<Rightarrow>
                 (case OpenControlStream opened of
                    (Inr stream, _) \<Rightarrow> (runConnection kdf stream e, e\<lparr>xe_trust := t\<rparr>)
                  | (Inl x, _) \<Rightarrow> (Inl x, e\<lparr>xe_trust := t\<rparr>))
             | (Inl x, t) \<Rightarrow>
                 if IsTrustError x then (Inl x, e\<lparr>xe_trust := t\<rparr>)
                 else
                   (case DialTLS address (ClientTLSConfig expected use host) t of
                      (Inl y, t') \<Rightarrow>
                        (Inl (if IsTrustError y then y
                              else Wrapped (''connect to S over QUIC: '' @ error_text x @ ''; over TLS: '') y), e\<lparr>xe_trust := t'\<rparr>)
                    | (Inr c, t') \<Rightarrow> (runConnection kdf c e, e\<lparr>xe_trust := t'\<rparr>)))
          else
            (case DialTLS address tlsConfig (xe_trust e) of
               (Inl y, t) \<Rightarrow> (Inl y, e\<lparr>xe_trust := t\<rparr>)
             | (Inr c, t) \<Rightarrow> (runConnection kdf c e, e\<lparr>xe_trust := t\<rparr>)))"

text \<open>
  The loop of \<open>Run\<close>, over what happens in each round: the error \<open>connectOnce\<close> returned, the error of
  the context after it, and the error of the context if it is done before the timer fires. The
  result lists the delays that were started and the error \<open>Run\<close> returned, if it has.
\<close>

record attempt_event =
  ev_result :: "error option"
  ev_ctx :: "error option"
  ev_wait :: "error option"

fun Run_loop :: "int \<Rightarrow> attempt_event list \<Rightarrow> int list \<times> error option" where
  "Run_loop delay [] = ([], None)"
| "Run_loop delay (ev # evs) =
     (if ev_ctx ev \<noteq> None then ([], ev_ctx ev)
      else if (case ev_result ev of None \<Rightarrow> False | Some x \<Rightarrow> IsTrustError x) then ([], ev_result ev)
      else if ev_wait ev \<noteq> None then ([delay], ev_wait ev)
      else case Run_loop (next_delay delay) evs of (ds, r) \<Rightarrow> (delay # ds, r))"

definition Run :: "attempt_event list \<Rightarrow> Exit \<Rightarrow> int list \<times> error option" where
  "Run evs e =
     (case NormalizeServerAddress (nd_ServerAddress (xe_config e)) of
        Inl x \<Rightarrow> ([], Some x)
      | Inr address \<Rightarrow> Run_loop (10 ^ 9) evs)"

section \<open>Serving\<close>

text \<open>\<open>serve\<close> up to the relay (\<open>True\<close> when the relay starts), and its end.\<close>

definition serve :: "(string \<Rightarrow> conn res) \<Rightarrow> nat \<Rightarrow> session \<Rightarrow> Exit \<Rightarrow> bool \<times> session \<times> Exit" where
  "serve dial r s e =
     (let request = st_request (deref s r) in
      case DialDestination dial (or_Destination request) (or_Port request) of
        Inl x \<Rightarrow> (False, snd (Stream_Reject r (''destination unavailable: '' @ error_text x) s), e)
      | Inr destination \<Rightarrow>
          (case Stream_Accept r s of
             (Some x, s') \<Rightarrow> (False, s', e)
           | (None, s') \<Rightarrow> (True, s', e\<lparr>xe_active := xe_active e + 1\<rparr>)))"

definition serve_done :: "Exit \<Rightarrow> Exit" where
  "serve_done e = e\<lparr>xe_active := xe_active e - 1\<rparr>"

definition heartbeat_of :: "int \<Rightarrow> Exit \<Rightarrow> Heartbeat" where
  "heartbeat_of now e = \<lparr>hb_ExitID = nd_ExitID (xe_config e), hb_Active = xe_active e,
     hb_Capacity = nd_Capacity (xe_config e), hb_TimestampMS = UnixMilli now\<rparr>"

text \<open>A tick of \<open>heartbeatLoop\<close>; an error ends the loop.\<close>

definition heartbeat_tick :: "int \<Rightarrow> Exit \<Rightarrow> session \<Rightarrow> bool \<times> session" where
  "heartbeat_tick now e s =
     (case writeFrameJSON FrameHeartbeat 0 (Heartbeat_json (heartbeat_of now e)) s of
        (Some x, s') \<Rightarrow> (False, s')
      | (None, s') \<Rightarrow> (True, s'))"

section \<open>The load an exit reports\<close>

text \<open>
  A run of the exit's streams: each event is a stream that is served, with the dialer's outcome and
  the session it finds, or the end of a relay that was started.
\<close>

datatype load_event = Served "string \<Rightarrow> conn res" nat session | RelayEnded

fun load :: "load_event list \<Rightarrow> nat \<Rightarrow> Exit \<Rightarrow> nat \<times> Exit" where
  "load [] n e = (n, e)"
| "load (Served dial r s # evs) n e =
     (case serve dial r s e of (started, _, e') \<Rightarrow> load evs (if started then Suc n else n) e')"
| "load (RelayEnded # evs) n e = (if n = 0 then load evs n e else load evs (n - 1) (serve_done e))"

lemma load_counts:
  "load evs n e = (m, e') \<Longrightarrow> xe_active e' - xe_active e = int m - int n \<and> xe_config e' = xe_config e"
proof (induction evs n e rule: load.induct)
  case (2 dial r s evs n e)
  obtain b s1 e1 where sv: "serve dial r s e = (b, s1, e1)" by (metis prod_cases3)
  then have "xe_active e1 = xe_active e + (if b then 1 else 0)" "xe_config e1 = xe_config e"
    by (auto simp: serve_def Let_def split: sum.splits prod.splits option.splits)
  with 2 sv show ?case by (cases b) auto
next
  case (3 evs n e)
  then show ?case by (cases "n = 0") (auto simp: serve_done_def)
qed simp

end
