(* ===== verification/ExitProps.thy ===== *)
theory ExitProps
  imports Exit
begin

text \<open>
  The exit against its contract: it talks to a trusted server only, it keeps trying at bounded
  intervals, the server learns of it and of its load.
\<close>

section \<open>Control frames between exit and server\<close>

lemma server_reads_control:
  assumes "h < length (sv_sessions sv)" and "ss_rpc (session_of sv h) = RIdle" and "ss_conn (session_of sv h) = Some d"
    and "ss_control (session_of sv h)" and "ss_ctl (session_of sv h) = []"
    and "frame_ok f" and "Type f \<in> {FrameRegister, FrameHeartbeat}" and "rbuf d = frame_bytes f @ rest"
  shows "server_read now h sv = [control now h f (set_session h ((session_of sv h)\<lparr>ss_conn := Some (d\<lparr>rbuf := rest\<rparr>)\<rparr>) sv)]"
proof -
  let ?s = "(session_of sv h)\<lparr>ss_conn := Some (d\<lparr>rbuf := rest\<rparr>)\<rparr>"
  have "handle_frame f ?s = ?s\<lparr>ss_ctl := [f]\<rparr>"
    using assms(4,5,7) by (auto simp: handle_frame_def handle_control_def frame_types)
  moreover have "?s\<lparr>ss_ctl := []\<rparr> = ?s" using assms(5) by simp
  ultimately show ?thesis
    using readLoop_frame [OF assms(2,3,6,8)] by (simp add: server_read_def)
qed

definition register_frame :: "Exit \<Rightarrow> Frame" where
  "register_frame e = \<lparr>Type = FrameRegister, ID = 0, Payload = Marshal (ExitRegistration_json (exit_registration e))\<rparr>"

definition heartbeat_frame :: "int \<Rightarrow> Exit \<Rightarrow> Frame" where
  "heartbeat_frame now e = \<lparr>Type = FrameHeartbeat, ID = 0, Payload = Marshal (Heartbeat_json (heartbeat_of now e))\<rparr>"

lemma heartbeat_sent:
  assumes "healthy s c" and "frame_ok (heartbeat_frame now e)"
  shows "heartbeat_tick now e s = (True, sent [heartbeat_frame now e] s c)"
  using writeFrameJSON_healthy [OF assms(1), of FrameHeartbeat 0 "Heartbeat_json (heartbeat_of now e)"] assms(2)
  by (simp add: heartbeat_tick_def heartbeat_frame_def)

section \<open>Properties\<close>

text \<open>
  Remark (trust). With TLS and QUIC stacks that run the verification callback, the exit gets as far as a
  session only with a server whose certificate is the configured one, or, without a configured
  fingerprint, the one its trust store has pinned for that host; without both it never does.
\<close>

theorem exit_trusts_server:
  assumes "verifying DialQUIC" and "verifying DialTLS"
    and "connectOnce DialQUIC DialTLS kdf address e = (Inr s, e')"
  shows "\<exists>leaf. if nd_ServerFingerprint (xe_config e) \<noteq> []
    then EqualFingerprint (nd_ServerFingerprint (xe_config e)) (Fingerprint leaf)
    else \<exists>k k'. xe_trust e = Some k \<and>
      (EqualFingerprint (KnownHosts_Get (addressHost address) k) (Fingerprint leaf) \<or>
       xe_trust e' = Some k' \<and> KnownHosts_Get (addressHost address) k' = Fingerprint leaf)"
proof -
  let ?h = "addressHost address"
  obtain expected "use" where tc: "trustConfig ?h e = (expected, use)" by fastforce
  let ?v = "ClientTLSConfig expected use ?h"
  have "(\<exists>t c. DialQUIC address ?v t = (Inr c, xe_trust e')) \<or> (\<exists>t c. DialTLS address ?v t = (Inr c, xe_trust e'))"
    using assms(3) tc by (auto simp: connectOnce_def Let_def split: if_splits prod.splits sum.splits)
  then have "\<exists>leaf. trusted expected ?h leaf (xe_trust e') \<and> (expected \<noteq> [] \<or> use)"
    using verifying_dial [OF assms(1)] verifying_dial [OF assms(2)] by blast
  then obtain leaf where "trusted expected ?h leaf (xe_trust e')" "expected \<noteq> [] \<or> use" by blast
  with tc show ?thesis
    by (intro exI [of _ leaf]) (auto simp: trustConfig_def trusted_def split: if_splits option.splits)
qed

lemma Run_loop_delays:
  "k < length (fst (Run_loop d evs)) \<Longrightarrow> fst (Run_loop d evs) ! k = (next_delay ^^ k) d"
proof (induction d evs arbitrary: k rule: Run_loop.induct)
  case (2 delay ev evs)
  then show ?case
    by (cases k) (auto simp: split_beta funpow_swap1 split: if_splits)
qed simp

definition gives_up :: "attempt_event \<Rightarrow> bool" where
  "gives_up ev \<longleftrightarrow> ev_ctx ev \<noteq> None \<or> ev_wait ev \<noteq> None \<or> (\<exists>x. ev_result ev = Some x \<and> IsTrustError x)"

lemma Run_loop_result: "snd (Run_loop d evs) \<noteq> None \<longleftrightarrow> list_ex gives_up evs"
  by (induction d evs rule: Run_loop.induct) (auto simp: gives_up_def split_beta split: option.splits)

text \<open>
  C34 (reconnecting). \<open>Run\<close> waits 1, 2, 4, 8, 16 and from then on 32 seconds between attempts, never
  more, and goes on until the context ends or the server turns out not to be trusted; it gives up
  for no other error.
\<close>

theorem run_backoff:
  assumes "NormalizeServerAddress (nd_ServerAddress (xe_config e)) = Inr address" and "Run evs e = (ds, r)"
  shows "(\<forall>k < length ds. ds ! k = 2 ^ (min k 5) * second \<and> ds ! k \<le> 32 * second) \<and> (r \<noteq> None \<longleftrightarrow> list_ex gives_up evs)"
proof -
  have l: "Run_loop (10 ^ 9) evs = (ds, r)" using assms by (simp add: Run_def)
  have p: "(2 :: int) ^ (min k 5) \<le> 2 ^ 5" for k by (rule power_increasing) simp_all
  have "ds ! k = 2 ^ (min k 5) * second" if "k < length ds" for k
    using Run_loop_delays [of k "10 ^ 9" evs] l that delays [of k] by (simp add: second_def)
  moreover have "2 ^ (min k 5) * second \<le> 32 * second" for k using p [of k] by (simp add: second_def)
  ultimately show ?thesis using Run_loop_result [of "10 ^ 9" evs] l by simp
qed

theorem run_backoff_witness:
  "Run (replicate 7 \<lparr>ev_result = Some EOF, ev_ctx = None, ev_wait = None\<rparr>)
     (NewExit (zero_node\<lparr>nd_ServerAddress := ''s:1''\<rparr>) ''p'')
   = (map (\<lambda>x. x * second) [1, 2, 4, 8, 16, 32, 32], None)"
proof -
  let ?evs = "replicate 7 \<lparr>ev_result = Some EOF, ev_ctx = None, ev_wait = None\<rparr>"
  let ?e = "NewExit (zero_node\<lparr>nd_ServerAddress := ''s:1''\<rparr>) ''p''"
  have n: "NormalizeServerAddress (nd_ServerAddress (xe_config ?e)) = Inr ''s:1''" by code_simp
  obtain ds r where dr: "Run ?evs ?e = (ds, r)" by fastforce
  have "ds = map (\<lambda>x. x * second) [1, 2, 4, 8, 16, 32, 32]" "r = None"
    using dr n by (simp_all add: Run_def numeral_eq_Suc IsTrustError_def next_delay_def second_def)
  with dr run_backoff [OF n dr] show ?thesis by simp
qed



text \<open>
  Remark (load). The heartbeat of an exit reports the relays that are running, however many streams it has
  served or refused before, and the server's read loop enters exactly this number, the exit's
  capacity and the health that follows from them into the registry entry of the connection it
  came from.
\<close>

theorem heartbeat_updates_registry:
  assumes "load evs 0 (NewExit cfg pass) = (n, e)" and "healthy s c" and "heartbeat_tick t e s = (ok, s')"
    and "ss_conn s' = Some c'" and "wout c' = wout c @ b"
    and "heartbeat_ok (heartbeat_of t e)" and "frame_ok (heartbeat_frame t e)" and "0 < nd_Capacity cfg"
    and "h < length (sv_sessions sv)" and "handler_of sv h = HExitServe r"
    and "ss_rpc (session_of sv h) = RIdle" and "ss_conn (session_of sv h) = Some d" and "ss_control (session_of sv h)"
    and "ss_ctl (session_of sv h) = []" and "rbuf d = b @ rest"
    and "gm_get (rg_exits (sv_registry sv)) (xr_ID r) = Some entry"
  shows "ok \<and> (\<exists>sv' x. server_read now h sv = [sv'] \<and> gm_get (rg_exits (sv_registry sv')) (xr_ID r) = Some x
    \<and> ei_ActiveConnections (ee_info x) = int n \<and> ei_Capacity (ee_info x) = nd_Capacity cfg
    \<and> ei_Health (ee_info x) = healthFor (int n) (nd_Capacity cfg) \<and> ee_heartbeat x = now
    \<and> ei_ID (ee_info x) = ei_ID (ee_info entry))"
proof -
  have a: "xe_active e = int n" "xe_config e = cfg"
    using load_counts [OF assms(1)] by (simp_all add: NewExit_def)
  have b: "b = frame_bytes (heartbeat_frame t e)" and ok
    using heartbeat_sent [OF assms(2,7)] assms(3-5) by (auto simp: sent_def)
  let ?v = "set_session h ((session_of sv h)\<lparr>ss_conn := Some (d\<lparr>rbuf := rest\<rparr>)\<rparr>) sv"
  have "server_read now h sv = [control now h (heartbeat_frame t e) ?v]"
    by (rule server_reads_control [OF assms(9,11-14,7)]) (simp_all add: heartbeat_frame_def assms(15) b)
  moreover have "control now h (heartbeat_frame t e) ?v =
      ?v\<lparr>sv_registry := Registry_Heartbeat now ((heartbeat_of t e)\<lparr>hb_ExitID := xr_ID r\<rparr>) (sv_registry sv)\<rparr>"
    using DecodeJSON_messages(5) [OF assms(6), of "heartbeat_frame t e"] assms(10)
    by (simp add: control_def heartbeat_frame_def)
  ultimately show ?thesis
    using \<open>ok\<close> assms(8,16) a by (simp add: Registry_Heartbeat_def beat_def heartbeat_of_def Let_def)
qed


section \<open>Examples\<close>

definition ex_node :: Node where
  "ex_node = zero_node\<lparr>nd_ExitID := ''x'', nd_Capacity := 4, nd_ServerFingerprint := Fingerprint [1], nd_ServerAddress := ''s:1''\<rparr>"

definition ex_out :: Exit where "ex_out = UseTCP (NewExit ex_node ''pw'')"

definition ex_server_side :: conn where
  "ex_server_side = conn_of (frame_bytes (challenge_frame ex_verifier (replicate 32 7)) @ frame_bytes (result_frame True))"

lemma ex_exit_handshake:
  "\<exists>c1. ClientHandshakePassword ex_kdf ''pw'' RoleExit ex_server_side = (None, c1) \<and> wres c1 = []"
proof -
  have "frame_ok (challenge_frame ex_verifier (replicate 32 7))" by (rule challenge_frame_ok) (simp_all add: ex_verifier_def)
  moreover have "frame_ok (response_frame (client_answer v c RoleExit))" for v c
    by (rule response_frame_ok) (simp add: RoleExit_def)
  ultimately show ?thesis
    using client_verdict [OF ex_challenge _ refl, of RoleExit ex_kdf "''pw''" ex_server_side True "[]"]
    by (simp add: ex_server_side_def conn_of_def RoleExit_def)
qed

lemma ex_register: "registration_ok (exit_registration ex_out)" "frame_ok (register_frame ex_out)"
proof -
  have r: "exit_registration ex_out = \<lparr>xr_ID = ''x'', xr_Name = [], xr_Capacity = 4, xr_Features = [''tcp'']\<rparr>"
    by (simp add: exit_registration_def ex_out_def UseTCP_def NewExit_def ex_node_def zero_node_def)
  show "registration_ok (exit_registration ex_out)" by (simp add: r registration_ok_def int64_def)
  have "length (Marshal (ExitRegistration_json \<lparr>xr_ID = ''x'', xr_Name = [], xr_Capacity = 4, xr_Features = [''tcp'']\<rparr>)) < 100"
    by code_simp
  then show "frame_ok (register_frame ex_out)" by (simp add: register_frame_def frame_ok_def r MaxFrameSize_def)
qed

lemma ex_run:
  assumes "ClientHandshakePassword ex_kdf ''pw'' RoleExit ex_server_side = (None, c1)" and "wres c1 = []"
  shows "\<exists>s. runConnection ex_kdf ex_server_side ex_out = Inr s \<and> ss_conn s = Some (c1\<lparr>wout := wout c1 @ frame_bytes (register_frame ex_out)\<rparr>)"
proof -
  obtain u where st: "Start (Some (Inr c1)) True (New (nd_IdleTimeout (xe_config ex_out)) 0) = (None, u)" "healthy u c1"
    using assms(2) by (simp add: Start_def New_def healthy_def)
  have "xe_passphrase ex_out = ''pw''" by (simp add: ex_out_def UseTCP_def NewExit_def)
  then show ?thesis
    using assms(1) st(1) writeFrameJSON_healthy [OF st(2), of FrameRegister 0 "ExitRegistration_json (exit_registration ex_out)"]
      ex_register(2)
    by (simp add: runConnection_def register_frame_def sent_def)
qed

theorem exit_trusts_server_witness:
  "\<exists>s e' leaf. connectOnce (plain_dial [[1]] (Inl EOF)) (plain_dial [[1]] ex_server_side) ex_kdf ''s:1'' ex_out = (Inr s, e')
     \<and> EqualFingerprint (Fingerprint [1]) (Fingerprint leaf)"
proof -
  obtain c1 s where "ClientHandshakePassword ex_kdf ''pw'' RoleExit ex_server_side = (None, c1)"
    and s: "runConnection ex_kdf ex_server_side ex_out = Inr s"
    using ex_exit_handshake ex_run by metis
  have e: "xe_forceTCP ex_out" "xe_trust ex_out = None" "nd_ServerFingerprint (xe_config ex_out) = Fingerprint [1]"
    by (simp_all add: ex_out_def UseTCP_def NewExit_def ex_node_def)
  then have "connectOnce (plain_dial [[1]] (Inl EOF)) (plain_dial [[1]] ex_server_side) ex_kdf ''s:1'' ex_out
      = (Inr s, ex_out\<lparr>xe_trust := None\<rparr>)"
    using s Fingerprint_nonempty [of "[1]"]
    by (simp add: connectOnce_def trustConfig_def plain_dial_def ClientTLSConfig_def VerifyConnection_def EqualFingerprint_def)
  with exit_trusts_server [OF plain_verifying plain_verifying this] e Fingerprint_nonempty [of "[1]"] show ?thesis by auto
qed



lemma ex_served: "\<exists>e. load [Served (\<lambda>_. Inr (conn_of [])) 0 ex_client] 0 (NewExit ex_node ''pw'') = (1, e)
    \<and> heartbeat_of 0 e = \<lparr>hb_ExitID = ''x'', hb_Active = 1, hb_Capacity = 4, hb_TimestampMS = 0\<rparr>"
proof -
  have h: "healthy ex_client (conn_of [])" by (simp add: ex_client_def ex_session_def healthy_def New_def conn_of_def)
  have q: "st_request (deref ex_client 0) = ex_collision" "st_id (deref ex_client 0) = 1" "st_remoteExit (deref ex_client 0) = []"
    "\<not> st_done (deref ex_client 0)"
    by (simp_all add: ex_client_def newStream_def)
  have "length (Marshal (Ack_json accepting)) < 100" by code_simp
  then have "frame_ok (ack_frame 1 accepting)" by (simp add: frame_ok_def ack_frame_def MaxFrameSize_def)
  with Accept_healthy [OF h q(2-4)] obtain s where "Stream_Accept 0 ex_client = (None, s)" by simp
  moreover have "or_Destination ex_collision \<noteq> []" "or_Port ex_collision \<noteq> 0"
    by (simp_all add: ex_collision_def ex_sent_request_def ex_request_def)
  ultimately show ?thesis
    using q(1) by (simp add: serve_def DialDestination_def NewExit_def heartbeat_of_def ex_node_def UnixMilli_def)
qed

theorem heartbeat_updates_registry_witness:
  "\<exists>(e :: Exit) sv sv' x. xe_active e = 1 \<and> server_read 9 1 sv = [sv']
     \<and> gm_get (rg_exits (sv_registry sv')) ''x'' = Some x \<and> ei_ActiveConnections (ee_info x) = 1 \<and> ei_Health (ee_info x) = ''healthy''"
proof -
  obtain e where e: "load [Served (\<lambda>_. Inr (conn_of [])) 0 ex_client] 0 (NewExit ex_node ''pw'') = (1, e)"
    and hb: "heartbeat_of 0 e = \<lparr>hb_ExitID = ''x'', hb_Active = 1, hb_Capacity = 4, hb_TimestampMS = 0\<rparr>"
    using ex_served by blast
  have a: "xe_active e = 1" using load_counts [OF e] by (simp add: NewExit_def)
  have "length (Marshal (Heartbeat_json \<lparr>hb_ExitID = ''x'', hb_Active = 1, hb_Capacity = 4, hb_TimestampMS = 0\<rparr>)) < 100" by code_simp
  then have f: "frame_ok (heartbeat_frame 0 e)" by (simp add: heartbeat_frame_def frame_ok_def hb MaxFrameSize_def)
  have k: "heartbeat_ok (heartbeat_of 0 e)" by (simp add: hb heartbeat_ok_def int64_def)
  have h: "healthy ex_link (conn_of [])" by (simp add: ex_link_def healthy_def New_def conn_of_def)
  have s: "heartbeat_tick 0 e ex_link = (True, sent [heartbeat_frame 0 e] ex_link (conn_of []))" by (rule heartbeat_sent [OF h f])
  let ?d = "conn_of (frame_bytes (heartbeat_frame 0 e))"
  let ?sv = "ex_net\<lparr>sv_sessions := [ex_client, ex_link\<lparr>ss_conn := Some ?d\<rparr>, ex_client]\<rparr>"
  obtain entry where "gm_get (rg_exits (sv_registry ?sv)) ''x'' = Some entry"
    by (simp add: ex_net_def Registry_Add_def Registry_add_def exit_info_def ex_registration_def)
  note g = this
  have n: "1 < length (sv_sessions ?sv)" "handler_of ?sv 1 = HExitServe ex_registration" "xr_ID ex_registration = ''x''"
    "ss_rpc (session_of ?sv 1) = RIdle" "ss_conn (session_of ?sv 1) = Some ?d" "ss_control (session_of ?sv 1)"
    "ss_ctl (session_of ?sv 1) = []" "rbuf ?d = frame_bytes (heartbeat_frame 0 e) @ []"
    by (simp_all add: ex_net_def ex_link_def New_def conn_of_def ex_registration_def)
  have c: "ss_conn (sent [heartbeat_frame 0 e] ex_link (conn_of [])) = Some (conn_of []\<lparr>wout := frame_bytes (heartbeat_frame 0 e)\<rparr>)"
    "wout (conn_of []\<lparr>wout := frame_bytes (heartbeat_frame 0 e)\<rparr>) = wout (conn_of []) @ frame_bytes (heartbeat_frame 0 e)"
    by (simp_all add: sent_def conn_of_def)
  have cap: "0 < nd_Capacity ex_node" "nd_Capacity ex_node = 4" by (simp_all add: ex_node_def)
  have "healthFor 1 4 = ''healthy''" by (simp add: healthFor_def wrap64_def)
  with heartbeat_updates_registry [OF e h s c k f cap(1) n(1,2,4-8) g [folded n(3)], of 9] a n(3) cap(2)
  show ?thesis by auto
qed

end
