(* ===== verification/ManagerProps.thy ===== *)
theory ManagerProps
  imports Manager ExitProps
begin

text \<open>
  The client's manager under any interleaving of calls and goroutines: the session it offers exists
  and is watched, retries are bounded. What its state says when calls of \<open>Reconnect\<close> do not overlap,
  what \<open>Close\<close> misses when they do, whom it trusts, and how the server's catalogue reaches it.
\<close>

section \<open>Steps\<close>

inductive mg_step :: "Manager \<Rightarrow> Manager \<Rightarrow> bool" where
  mg_connect: "Connect force address passphrase m = (e, m') \<Longrightarrow> mg_step m m'"
| mg_again: "mg_step m (Reconnect m)"
| mg_dialed: "a < length (mg_attempts m) \<Longrightarrow> mg_step m (attempt_connect DialQUIC DialTLS kdf a m)"
| mg_install: "a < length (mg_attempts m) \<Longrightarrow> mg_step m (attempt_install a m)"
| mg_recv: "i < length (mg_sessions m) \<Longrightarrow> m' \<in> set (manager_read i m) \<Longrightarrow> mg_step m m'"
| mg_session_op: "i < length (mg_sessions m) \<Longrightarrow> sess_step (mg_sess m i) s \<Longrightarrow> mg_step m (put_session i s m)"
| mg_watch: "l < length (mg_loops m) \<Longrightarrow> mg_step m (sessionLoop l m)"
| mg_retry: "l < length (mg_loops m) \<Longrightarrow> mg_step m (reconnectLoop l m)"
| mg_dial: "Manager_Dial request m = (r, m') \<Longrightarrow> mg_step m m'"
| mg_close: "mg_step m (Manager_Close m)"
| mg_set: "f \<in> {SetReconnect b, SetStateCallback b, SetCatalogCallback b} \<Longrightarrow> mg_step m (f m)"

interpretation mg: transition_system "\<lambda>m. \<exists>t. m = NewManager t" mg_step .

section \<open>The invariant\<close>

fun attempt_ok :: "nat \<Rightarrow> attempt_pc \<Rightarrow> bool" where
  "attempt_ok n (AInstall name i) \<longleftrightarrow> i < n"
| "attempt_ok n _ \<longleftrightarrow> True"

fun loop_ok :: "nat \<Rightarrow> nat \<Rightarrow> loop_pc \<Rightarrow> bool" where
  "loop_ok n k (LWait i) \<longleftrightarrow> i < n"
| "loop_ok n k (LSleep a d) \<longleftrightarrow> a < 6 \<and> d = 2 ^ a * second"
| "loop_ok n k (LCall a d x) \<longleftrightarrow> a < 6 \<and> d = 2 ^ a * second \<and> x < k"
| "loop_ok n k _ \<longleftrightarrow> True"

definition mg_ok :: "Manager \<Rightarrow> bool" where
  "mg_ok m \<longleftrightarrow>
     list_all sess_ok (mg_sessions m) \<and>
     list_all (attempt_ok (length (mg_sessions m))) (mg_attempts m) \<and>
     list_all (loop_ok (length (mg_sessions m)) (length (mg_attempts m))) (mg_loops m) \<and>
     (\<forall>i. mg_session m = Some i \<longrightarrow> i < length (mg_sessions m) \<and> LWait i \<in> set (mg_loops m))"

lemma mg_sel [simp]:
  "mg_sessions (put_session i s m) = (mg_sessions m)[i := s]" "mg_attempts (put_session i s m) = mg_attempts m"
  "mg_loops (put_session i s m) = mg_loops m" "mg_session (put_session i s m) = mg_session m"
  "mg_state (put_session i s m) = mg_state m" "mg_closed (put_session i s m) = mg_closed m"
  "mg_sessions (put_attempt a x m) = mg_sessions m" "mg_attempts (put_attempt a x m) = (mg_attempts m)[a := x]"
  "mg_loops (put_attempt a x m) = mg_loops m" "mg_session (put_attempt a x m) = mg_session m"
  "mg_state (put_attempt a x m) = mg_state m" "mg_closed (put_attempt a x m) = mg_closed m"
  "mg_sessions (put_loop l y m) = mg_sessions m" "mg_attempts (put_loop l y m) = mg_attempts m"
  "mg_loops (put_loop l y m) = (mg_loops m)[l := y]" "mg_session (put_loop l y m) = mg_session m"
  "mg_state (put_loop l y m) = mg_state m" "mg_closed (put_loop l y m) = mg_closed m"
  "mg_sessions (notify st e m) = mg_sessions m" "mg_attempts (notify st e m) = mg_attempts m"
  "mg_loops (notify st e m) = mg_loops m" "mg_session (notify st e m) = mg_session m"
  "mg_state (notify st e m) = mg_state m" "mg_closed (notify st e m) = mg_closed m"
  "mg_sessions (setError z m) = mg_sessions m" "mg_attempts (setError z m) = mg_attempts m"
  "mg_loops (setError z m) = mg_loops m" "mg_session (setError z m) = mg_session m"
  "mg_state (setError z m) = StateDisconnected" "mg_closed (setError z m) = mg_closed m"
  by (simp_all add: put_session_def put_attempt_def put_loop_def notify_def setError_def)

lemma mg_okD:
  assumes "mg_ok m"
  shows mg_sess_ok: "i < length (mg_sessions m) \<Longrightarrow> sess_ok (mg_sess m i)"
    and mg_session_ok: "mg_session m = Some i \<Longrightarrow> i < length (mg_sessions m) \<and> LWait i \<in> set (mg_loops m)"
    and mg_attempt_ok: "a < length (mg_attempts m) \<Longrightarrow> attempt_ok (length (mg_sessions m)) (mg_attempts m ! a)"
    and mg_loop_ok: "l < length (mg_loops m) \<Longrightarrow> loop_ok (length (mg_sessions m)) (length (mg_attempts m)) (mg_loops m ! l)"
  using assms by (auto simp: mg_ok_def list_all_length)

lemma attempt_ok_mono: "attempt_ok n x \<Longrightarrow> n \<le> k \<Longrightarrow> attempt_ok k x"
  by (cases x) auto

lemma loop_ok_mono: "loop_ok n k x \<Longrightarrow> n \<le> n' \<Longrightarrow> k \<le> k' \<Longrightarrow> loop_ok n' k' x"
  by (cases x) auto

lemma list_all_mono: "list_all P xs \<Longrightarrow> (\<And>x. P x \<Longrightarrow> Q x) \<Longrightarrow> list_all Q xs"
  by (simp add: list_all_iff)

lemma mg_put_session: "mg_ok m \<Longrightarrow> sess_ok s \<Longrightarrow> mg_ok (put_session i s m)"
  by (simp add: mg_ok_def list_all_update)

lemma mg_put_attempt: "mg_ok m \<Longrightarrow> attempt_ok (length (mg_sessions m)) x \<Longrightarrow> mg_ok (put_attempt a x m)"
  by (simp add: mg_ok_def list_all_update)

text \<open>A loop that leaves its wait must not be the one that watches the current session.\<close>

lemma mg_put_loop:
  assumes "mg_ok m" and "loop_ok (length (mg_sessions m)) (length (mg_attempts m)) x"
    and "\<And>i. mg_session m = Some i \<Longrightarrow> mg_loops m ! l \<noteq> LWait i"
  shows "mg_ok (put_loop l x m)"
proof -
  have "LWait i \<in> set ((mg_loops m)[l := x])" if i: "mg_session m = Some i" for i
  proof -
    obtain k where k: "k < length (mg_loops m)" "mg_loops m ! k = LWait i"
      using mg_session_ok [OF assms(1) i] by (auto simp: in_set_conv_nth)
    with assms(3) [OF i] have "(mg_loops m)[l := x] ! k = LWait i" by (metis nth_list_update_neq)
    with k(1) show ?thesis by (metis length_list_update nth_mem)
  qed
  with assms(1,2) show ?thesis by (simp add: mg_ok_def list_all_update)
qed


section \<open>Every step keeps the invariant\<close>

lemma mg_free:
  "mg_ok m \<Longrightarrow> mg_sessions m' = mg_sessions m \<Longrightarrow> mg_attempts m' = mg_attempts m \<Longrightarrow> mg_loops m' = mg_loops m \<Longrightarrow>
   mg_session m' = mg_session m \<or> mg_session m' = None \<Longrightarrow> mg_ok m'"
  by (auto simp: mg_ok_def)

lemma mg_add_attempt:
  assumes "mg_ok m" and "attempt_ok (length (mg_sessions m)) x" shows "mg_ok (m\<lparr>mg_attempts := mg_attempts m @ [x]\<rparr>)"
proof -
  have "list_all (loop_ok (length (mg_sessions m)) (Suc (length (mg_attempts m)))) (mg_loops m)"
    by (rule list_all_mono [where P = "loop_ok (length (mg_sessions m)) (length (mg_attempts m))"])
       (use assms(1) in \<open>auto simp: mg_ok_def intro: loop_ok_mono\<close>)
  with assms show ?thesis by (simp add: mg_ok_def)
qed

lemma mg_Reconnect:
  assumes "mg_ok m"
  shows "mg_ok (Reconnect m)" and "length (mg_attempts (Reconnect m)) = Suc (length (mg_attempts m))"
    and "mg_loops (Reconnect m) = mg_loops m"
proof -
  define m2 where "m2 = (let m1 = m\<lparr>mg_session := None, mg_state := StateConnecting, mg_lastError := None\<rparr> in
    case mg_session m of None \<Rightarrow> m1 | Some i \<Rightarrow> put_session i (snd (Session_Close None (mg_sess m1 i))) m1)"
  have m1: "mg_ok (m\<lparr>mg_session := None, mg_state := StateConnecting, mg_lastError := None\<rparr>)"
    by (rule mg_free [OF assms]) simp_all
  have m2: "mg_ok m2" "mg_attempts m2 = mg_attempts m" "mg_loops m2 = mg_loops m"
    using m1 mg_put_session [OF m1 sess_Close [OF mg_sess_ok [OF assms]]] mg_session_ok [OF assms]
    by (auto simp: m2_def Let_def split: option.splits)
  have r: "Reconnect m = (if mg_closed m then m\<lparr>mg_attempts := mg_attempts m @ [AReturned (Some (Msg ''client manager is closed''))]\<rparr>
      else if mg_address m = [] \<or> mg_passphrase m = []
      then (setError (Msg ''not configured'') m2)\<lparr>mg_attempts := mg_attempts m @ [AReturned (Some (Msg ''not configured''))]\<rparr>
      else (notify StateConnecting None m2)\<lparr>mg_attempts := mg_attempts m @ [ADial (mg_address m) (mg_passphrase m) (mg_forceTCP m)]\<rparr>)"
    by (simp add: Reconnect_def m2_def Let_def)
  have e: "mg_ok (setError z m2)" "mg_ok (notify st x m2)" for z st x by (rule mg_free [OF m2(1)]; simp)+
  show "mg_ok (Reconnect m)"
    unfolding r using mg_add_attempt [OF assms] mg_add_attempt [OF e(1)] mg_add_attempt [OF e(2)] m2(2) by simp
  show "length (mg_attempts (Reconnect m)) = Suc (length (mg_attempts m))" "mg_loops (Reconnect m) = mg_loops m"
    unfolding r using m2 by simp_all
qed

lemma startSession_ok: "startSession c = Inr s \<Longrightarrow> sess_ok s"
  using sess_Start [of "SetControlHandler True (New (5 * minute) 0)" "Some (Inr c)" False] sess_step_ok [OF step_control sess_New]
  by (auto simp: startSession_def split: prod.splits option.splits)

lemma mg_attempt_connect:
  assumes "mg_ok m" shows "mg_ok (attempt_connect DialQUIC DialTLS kdf a m)"
proof -
  have e: "mg_ok (put_attempt a (AReturned x) (setError z (m\<lparr>mg_trust := t\<rparr>)))" for x z t
    by (rule mg_put_attempt [OF mg_free [OF assms]]) simp_all
  have s: "mg_ok (put_attempt a (AInstall name (length (mg_sessions m))) (m\<lparr>mg_trust := t, mg_sessions := mg_sessions m @ [s]\<rparr>))"
    if "startSession c = Inr s" for name t s c
  proof (rule mg_put_attempt)
    have "list_all (attempt_ok (Suc (length (mg_sessions m)))) (mg_attempts m)"
      by (rule list_all_mono [where P = "attempt_ok (length (mg_sessions m))"]) (use assms in \<open>auto simp: mg_ok_def intro: attempt_ok_mono\<close>)
    moreover have "list_all (loop_ok (Suc (length (mg_sessions m))) (length (mg_attempts m))) (mg_loops m)"
      by (rule list_all_mono [where P = "loop_ok (length (mg_sessions m)) (length (mg_attempts m))"])
         (use assms in \<open>auto simp: mg_ok_def intro: loop_ok_mono\<close>)
    ultimately show "mg_ok (m\<lparr>mg_trust := t, mg_sessions := mg_sessions m @ [s]\<rparr>)"
      using assms startSession_ok [OF that] by (auto simp: mg_ok_def)
  qed simp
  show ?thesis
    using assms e s
    by (auto simp: attempt_connect_def split: attempt_pc.splits prod.splits sum.splits option.splits)
qed

lemma mg_attempt_install:
  assumes "mg_ok m" and "a < length (mg_attempts m)" shows "mg_ok (attempt_install a m)"
proof (cases "mg_attempts m ! a")
  case (AInstall name i)
  then have "i < length (mg_sessions m)" using mg_attempt_ok [OF assms] by simp
  with AInstall assms(1) show ?thesis
    unfolding attempt_install_def AInstall attempt_pc.case by (intro mg_put_attempt) (simp_all add: mg_ok_def)
qed (use assms in \<open>simp_all add: attempt_install_def\<close>)

lemma mg_control: "mg_ok m \<Longrightarrow> mg_ok (manager_control f m)"
  by (auto simp: manager_control_def split: sum.splits intro: mg_free)

lemma mg_read:
  assumes "mg_ok m" and "i < length (mg_sessions m)" and "m' \<in> set (manager_read i m)" shows "mg_ok m'"
proof -
  obtain t where t: "t \<in> set (readLoop_step (mg_sess m i))"
    and e: "m' = fold manager_control (ss_ctl t) (put_session i (t\<lparr>ss_ctl := []\<rparr>) m)"
    using assms(3) by (auto simp: manager_read_def)
  have "sess_ok (t\<lparr>ss_ctl := []\<rparr>)" using sess_readLoop [OF mg_sess_ok [OF assms(1,2)] t] by simp
  then have "mg_ok (put_session i (t\<lparr>ss_ctl := []\<rparr>) m)" by (rule mg_put_session [OF assms(1)])
  moreover have "mg_ok (fold manager_control fs u)" if "mg_ok u" for fs u
    using that by (induction fs arbitrary: u) (simp_all add: mg_control)
  ultimately show ?thesis using e by simp
qed

lemma mg_sessionLoop:
  assumes "mg_ok m" and "l < length (mg_loops m)" shows "mg_ok (sessionLoop l m)"
proof (cases "mg_loops m ! l")
  case (LWait i)
  let ?m = "notify StateDisconnected (ss_err (mg_sess m i))
    (m\<lparr>mg_session := None, mg_state := StateDisconnected, mg_lastError := ss_err (mg_sess m i)\<rparr>)"
  have "mg_ok ?m" by (rule mg_free [OF assms(1)]) simp_all
  then have a: "mg_ok (put_loop l LCheck ?m)" by (rule mg_put_loop) simp_all
  have b: "mg_ok (put_loop l LEnded m)" if "mg_session m \<noteq> Some i"
    by (rule mg_put_loop [OF assms(1)]) (use that LWait in auto)
  from a b LWait assms(1) show ?thesis by (simp add: sessionLoop_def)
next
  case LCheck
  show ?thesis
    unfolding sessionLoop_def LCheck loop_pc.case
    by (rule mg_put_loop [OF assms(1)]) (simp_all add: LCheck second_def)
qed (use assms in \<open>simp_all add: sessionLoop_def\<close>)

lemma next_delay_pow: "a < 5 \<Longrightarrow> next_delay (2 ^ a * second) = 2 ^ Suc a * second"
proof -
  assume "a < 5"
  then have "a \<in> {0, 1, 2, 3, 4}" by auto
  then show ?thesis by (elim insertE emptyE) (simp_all add: next_delay_def second_def)
qed

lemma mg_reconnectLoop:
  assumes "mg_ok m" and "l < length (mg_loops m)" shows "mg_ok (reconnectLoop l m)"
proof (cases "mg_loops m ! l")
  case (LSleep n d)
  have n: "n < 6" "d = 2 ^ n * second" using mg_loop_ok [OF assms] LSleep by simp_all
  have "mg_ok (put_loop l (LCall n d (length (mg_attempts m))) (Reconnect m))"
    by (rule mg_put_loop) (use mg_Reconnect [OF assms(1)] n LSleep in simp_all)
  moreover have "mg_ok (put_loop l LEnded m)" by (rule mg_put_loop [OF assms(1)]) (simp_all add: LSleep)
  ultimately show ?thesis using LSleep by (simp add: reconnectLoop_def)
next
  case (LCall n d a)
  have n: "n < 6" "d = 2 ^ n * second" using mg_loop_ok [OF assms] LCall by simp_all
  have "mg_ok (put_loop l (LSleep (Suc n) (next_delay d)) m)" if "n < 5"
    by (rule mg_put_loop [OF assms(1)]) (use n LCall next_delay_pow [OF that] that in auto)
  moreover have "mg_ok (put_loop l LEnded m)" by (rule mg_put_loop [OF assms(1)]) (simp_all add: LCall)
  ultimately show ?thesis using LCall assms(1) by (auto simp: reconnectLoop_def split: attempt_pc.splits option.splits)
qed (use assms in \<open>simp_all add: reconnectLoop_def\<close>)

lemma mg_Dial:
  assumes "mg_ok m" and "Manager_Dial request m = (r, m')" shows "mg_ok m'"
proof (cases "mg_session m")
  case (Some i)
  obtain x s where o: "Open_send request (mg_sess m i) = (x, s)" by force
  have "m' = put_session i s m" using assms(2) Some o by (auto simp: Manager_Dial_def split: sum.splits)
  moreover have "sess_ok s"
    using sess_Open_send [OF mg_sess_ok [OF assms(1)]] mg_session_ok [OF assms(1) Some] o by (metis snd_conv)
  ultimately show ?thesis using mg_put_session [OF assms(1)] by simp
qed (use assms in \<open>simp add: Manager_Dial_def\<close>)

lemma mg_Close: "mg_ok m \<Longrightarrow> mg_ok (Manager_Close m)"
proof -
  assume m: "mg_ok m"
  have m1: "mg_ok (m\<lparr>mg_session := None, mg_closed := True, mg_state := StateDisconnected\<rparr>)" by (rule mg_free [OF m]) simp_all
  with mg_put_session [OF m1 sess_Close [OF mg_sess_ok [OF m]]] mg_session_ok [OF m]
  show ?thesis by (simp add: Manager_Close_def Let_def split: option.splits)
qed

lemma mg_Connect: "mg_ok m \<Longrightarrow> Connect force address passphrase m = (e, m') \<Longrightarrow> mg_ok m'"
  using mg_Reconnect(1) [OF mg_free [of m]]
  by (auto simp: Connect_def split: sum.splits if_splits)

lemma mg_step_ok: "mg_step m m' \<Longrightarrow> mg_ok m \<Longrightarrow> mg_ok m'"
proof (induction rule: mg_step.induct)
  case (mg_set f b m)
  then show ?case by (elim insertE emptyE) (auto simp: SetReconnect_def SetStateCallback_def SetCatalogCallback_def intro: mg_free)
qed (auto intro: mg_Connect mg_Reconnect(1) mg_attempt_connect mg_attempt_install mg_read mg_sessionLoop mg_reconnectLoop mg_Dial mg_Close
      mg_put_session sess_step_ok mg_sess_ok)

lemma reach_mg_ok: "mg.reach m \<Longrightarrow> mg_ok m"
proof (rule mg.reach_invariant)
  show "\<exists>t. m = NewManager t \<Longrightarrow> mg_ok m" for m by (auto simp: NewManager_def mg_ok_def)
qed (auto intro: mg_step_ok)

section \<open>Calls that do not overlap\<close>

fun returned :: "attempt_pc \<Rightarrow> bool" where
  "returned (AReturned e) \<longleftrightarrow> True"
| "returned _ \<longleftrightarrow> False"

definition in_flight :: "Manager \<Rightarrow> nat" where
  "in_flight m = length (filter (\<lambda>x. \<not> returned x) (mg_attempts m))"

text \<open>While a call of \<open>Reconnect\<close> runs, no other one starts and \<open>Close\<close> is not called.\<close>

definition serial_step :: "Manager \<Rightarrow> Manager \<Rightarrow> bool" where
  "serial_step m m' \<longleftrightarrow>
     mg_step m m' \<and> (0 < in_flight m \<longrightarrow> length (mg_attempts m') = length (mg_attempts m) \<and> mg_closed m' = mg_closed m)"

interpretation mgs: transition_system "\<lambda>m. \<exists>t. m = NewManager t" serial_step .

definition says_true :: "Manager \<Rightarrow> bool" where
  "says_true m \<longleftrightarrow>
     in_flight m = (if mg_state m = StateConnecting then 1 else 0) \<and>
     (mg_state m = StateConnected \<longleftrightarrow> mg_session m \<noteq> None) \<and>
     (mg_closed m \<longrightarrow> mg_state m = StateDisconnected)"

lemma in_flight_update:
  "a < length xs \<Longrightarrow> length (filter P (xs[a := x])) + (if P (xs ! a) then 1 else 0) = length (filter P xs) + (if P x then 1 else 0)"
proof (induction xs arbitrary: a)
  case (Cons y ys)
  then show ?case by (cases a) auto
qed simp

lemma in_flight_put:
  "a < length (mg_attempts m) \<Longrightarrow>
   in_flight (put_attempt a x m) + (if returned (mg_attempts m ! a) then 0 else 1) = in_flight m + (if returned x then 0 else 1)"
  using in_flight_update [of a "mg_attempts m" "\<lambda>x. \<not> returned x" x] by (simp add: in_flight_def split: if_splits)

text \<open>A step that touches neither the attempts nor the fields of the state changes nothing here.\<close>

lemma says_true_free:
  "mg_attempts m' = mg_attempts m \<Longrightarrow> mg_state m' = mg_state m \<Longrightarrow> mg_session m' = mg_session m \<Longrightarrow> mg_closed m' = mg_closed m \<Longrightarrow>
   says_true m' = says_true m"
  by (simp add: says_true_def in_flight_def)

lemma says_Reconnect:
  assumes "says_true m" and "in_flight m = 0" shows "says_true (Reconnect m)"
  using assms by (auto simp: Reconnect_def Let_def says_true_def in_flight_def split: option.splits)

lemma Reconnect_adds: "length (mg_attempts (Reconnect m)) = Suc (length (mg_attempts m))"
  by (simp add: Reconnect_def Let_def)

lemma says_attempt_connect:
  assumes "says_true m" and "a < length (mg_attempts m)" shows "says_true (attempt_connect DialQUIC DialTLS kdf a m)"
proof (cases "mg_attempts m ! a")
  case (ADial address passphrase force)
  have f: "in_flight (put_attempt a x m) + 1 = in_flight m + (if returned x then 0 else 1)" for x
    using in_flight_put [OF assms(2), of x] ADial by simp
  have "in_flight m \<noteq> 0" using f [of "AReturned None"] by simp
  then have c: "mg_state m = StateConnecting" "mg_session m = None" "\<not> mg_closed m" "in_flight m = 1"
    using assms(1) by (auto simp: says_true_def split: if_splits)
  have e: "says_true (put_attempt a (AReturned x) (setError z (m\<lparr>mg_trust := t\<rparr>)))" for x z t
    using f [of "AReturned x"] c by (simp add: says_true_def in_flight_def)
  have i: "says_true (put_attempt a (AInstall name k) (m\<lparr>mg_trust := t, mg_sessions := ss\<rparr>))" for name k t ss
    using f [of "AInstall name k"] c by (simp add: says_true_def in_flight_def)
  show ?thesis
    using ADial e i by (auto simp: attempt_connect_def split: prod.splits sum.splits option.splits)
qed (use assms in \<open>simp_all add: attempt_connect_def\<close>)

lemma says_attempt_install:
  assumes "says_true m" and "a < length (mg_attempts m)" shows "says_true (attempt_install a m)"
proof (cases "mg_attempts m ! a")
  case (AInstall name i)
  have f: "in_flight (put_attempt a (AReturned None) m) + 1 = in_flight m"
    using in_flight_put [OF assms(2), of "AReturned None"] AInstall by simp
  with assms(1) have "\<not> mg_closed m" "in_flight m = 1" by (auto simp: says_true_def split: if_splits)
  with f show ?thesis using AInstall by (simp add: attempt_install_def says_true_def in_flight_def)
qed (use assms in \<open>simp_all add: attempt_install_def\<close>)

lemma says_control: "says_true (fold manager_control fs m) = says_true m"
proof (induction fs arbitrary: m)
  case (Cons f fs)
  have "says_true (manager_control f m) = says_true m"
    by (rule says_true_free) (simp_all add: manager_control_def split: sum.splits)
  with Cons show ?case by simp
qed simp

lemma says_sessionLoop: "says_true m \<Longrightarrow> says_true (sessionLoop l m)"
  by (cases "mg_loops m ! l") (auto simp: sessionLoop_def says_true_def in_flight_def split: if_splits)

lemma says_reconnectLoop:
  assumes "says_true m" and "0 < in_flight m \<longrightarrow> length (mg_attempts (reconnectLoop l m)) = length (mg_attempts m)"
  shows "says_true (reconnectLoop l m)"
proof (cases "mg_loops m ! l")
  case (LSleep n d)
  have p: "says_true (put_loop l x u) = says_true u" for x u by (rule says_true_free) simp_all
  show ?thesis
  proof (cases "mg_closed m")
    case False
    then have "in_flight m = 0" using assms(2) LSleep Reconnect_adds [of m] by (auto simp: reconnectLoop_def)
    then show ?thesis using says_Reconnect [OF assms(1)] LSleep False by (simp add: reconnectLoop_def p)
  qed (use LSleep assms(1) in \<open>simp add: reconnectLoop_def p\<close>)
next
  case (LCall n d a)
  have p: "says_true (put_loop l x m)" for x using assms(1) says_true_free [of "put_loop l x m" m] by simp
  with LCall assms(1) show ?thesis by (simp add: reconnectLoop_def split: attempt_pc.splits option.splits)
qed (use assms(1) in \<open>simp_all add: reconnectLoop_def\<close>)

lemma says_Dial: "says_true m \<Longrightarrow> Manager_Dial request m = (r, m') \<Longrightarrow> says_true m'"
  by (auto simp: Manager_Dial_def says_true_def in_flight_def split: option.splits prod.splits sum.splits)

lemma says_Close: "says_true m \<Longrightarrow> mg_closed m \<or> in_flight m = 0 \<Longrightarrow> says_true (Manager_Close m)"
  by (auto simp: Manager_Close_def Let_def says_true_def in_flight_def split: option.splits)

lemma says_Connect:
  assumes "says_true m" and "Connect force address passphrase m = (e, m')"
    and "0 < in_flight m \<longrightarrow> length (mg_attempts m') = length (mg_attempts m)"
  shows "says_true m'"
proof -
  let ?m = "\<lambda>n. m\<lparr>mg_address := n, mg_passphrase := passphrase, mg_forceTCP := force\<rparr>"
  have m: "says_true (?m n)" "in_flight (?m n) = in_flight m" for n
    using assms(1) says_true_free [of "?m n" m] by (simp_all add: in_flight_def)
  have "m' = m \<or> (\<exists>n. m' = Reconnect (?m n))"
    using assms(2) by (auto simp: Connect_def split: sum.splits if_splits)
  then show ?thesis
  proof
    assume "\<exists>n. m' = Reconnect (?m n)"
    then obtain n where "m' = Reconnect (?m n)" by blast
    moreover have "in_flight m = 0" using assms(3) Reconnect_adds [of "?m n"] calculation by auto
    ultimately show ?thesis using says_Reconnect [OF m(1)] m(2) by simp
  qed (use assms(1) in simp)
qed

lemma says_true_step:
  assumes "serial_step m m'" and "says_true m" shows "says_true m'"
proof -
  have st: "mg_step m m'" and len: "0 < in_flight m \<longrightarrow> length (mg_attempts m') = length (mg_attempts m)"
    and cl: "0 < in_flight m \<longrightarrow> mg_closed m' = mg_closed m"
    using assms(1) by (auto simp: serial_step_def)
  from st show ?thesis
  proof cases
    case mg_connect then show ?thesis using says_Connect [OF assms(2) _ len] by simp
  next
    case mg_again
    then have "in_flight m = 0" using len Reconnect_adds [of m] by auto
    then show ?thesis using mg_again says_Reconnect assms(2) by simp
  next
    case (mg_recv i)
    then show ?thesis
      using assms(2) says_true_free [of "put_session i _ m" m] by (auto simp: manager_read_def says_control)
  next
    case (mg_session_op i s) then show ?thesis using assms(2) says_true_free [of "put_session i s m" m] by simp
  next
    case mg_retry then show ?thesis using says_reconnectLoop [OF assms(2)] len by simp
  next
    case mg_close
    then have "mg_closed m \<or> in_flight m = 0" using cl by (auto simp: Manager_Close_def Let_def split: option.splits)
    then show ?thesis using says_Close assms(2) mg_close by simp
  next
    case (mg_set f b)
    then have "m' = SetReconnect b m \<or> m' = SetStateCallback b m \<or> m' = SetCatalogCallback b m" by auto
    then show ?thesis
      using assms(2) says_true_free [of m' m] by (auto simp: SetReconnect_def SetStateCallback_def SetCatalogCallback_def)
  qed (use assms(2) says_attempt_connect says_attempt_install says_sessionLoop says_Dial in blast)+
qed

lemma reach_says_true: "mgs.reach m \<Longrightarrow> says_true m"
proof (rule mgs.reach_invariant)
  show "\<exists>t. m = NewManager t \<Longrightarrow> says_true m" for m by (auto simp: NewManager_def says_true_def in_flight_def)
qed (auto intro: says_true_step)

section \<open>Properties\<close>

text \<open>
  C13 (manager, invariant). Under any interleaving of the manager's calls with its goroutines and with
  the operations of its sessions, every session is consistent, the current one exists and a
  goroutine waits for its end, and a goroutine that retries is in one of its first six attempts,
  with a delay of \<open>2 ^ n\<close> seconds before attempt \<open>n\<close>.
\<close>

theorem manager_invariant:
  assumes "mg.reach m"
  shows "(\<forall>s \<in> set (mg_sessions m). sess_ok s)
    \<and> (\<forall>i. mg_session m = Some i \<longrightarrow> i < length (mg_sessions m) \<and> LWait i \<in> set (mg_loops m))
    \<and> (\<forall>n d. LSleep n d \<in> set (mg_loops m) \<longrightarrow> n < 6 \<and> d = 2 ^ n * second)"
  using reach_mg_ok [OF assms] unfolding mg_ok_def list_all_iff by (metis loop_ok.simps(2))

text \<open>
  C15 (manager, reported state). As long as calls of \<open>Reconnect\<close> do not overlap and \<open>Close\<close> does not
  overlap one, whatever else runs in between: \<open>State\<close> says connected exactly when \<open>Dial\<close> has a session
  to use, connecting exactly while a call is under way, and a closed manager stays disconnected.
\<close>

theorem manager_state_exact:
  assumes "mgs.reach m"
  shows "(fst (Manager_State m) = StateConnected \<longleftrightarrow> mg_session m \<noteq> None)
    \<and> (fst (Manager_State m) \<noteq> StateConnected \<longrightarrow> Manager_Dial request m = (Inl (Msg ''not connected to S''), m))
    \<and> (fst (Manager_State m) = StateConnecting \<longleftrightarrow> in_flight m = 1) \<and> in_flight m \<le> 1
    \<and> (mg_closed m \<longrightarrow> fst (Manager_State m) = StateDisconnected \<and> mg_session m = None)"
  using reach_says_true [OF assms]
  by (auto simp: says_true_def Manager_State_def Manager_Dial_def split: if_splits)

text \<open>
  C0 (manager, closing). \<open>Close\<close> does not stop a call of \<open>Reconnect\<close> that is past its dial: the call still
  installs its session, so that the closed manager reports connected, and \<open>Dial\<close> opens streams on
  the session as before.
\<close>

theorem close_misses_reconnect:
  assumes "a < length (mg_attempts m)" and "mg_attempts m ! a = AInstall name i" and "mg_session m = None"
    and "i < length (mg_sessions m)" and "Open_send request (mg_sess m i) = (Inr r, s)"
  shows "let m' = attempt_install a (Manager_Close m) in
    mg_closed m' \<and> fst (Manager_State m') = StateConnected \<and> fst (Manager_Dial request m') = Inr (i, r)
    \<and> ss_closed (mg_sess m' i) = ss_closed (mg_sess m i)"
  using assms by (simp add: Manager_Close_def attempt_install_def Manager_State_def Manager_Dial_def Let_def notify_def put_attempt_def)


lemma manager_reads_control:
  assumes "i < length (mg_sessions m)" and "ss_rpc (mg_sess m i) = RIdle" and "ss_conn (mg_sess m i) = Some d"
    and "ss_control (mg_sess m i)" and "ss_ctl (mg_sess m i) = []" and "frame_ok f" and "Type f = FrameCatalog"
    and "rbuf d = frame_bytes f @ rest"
  shows "manager_read i m = [manager_control f (put_session i ((mg_sess m i)\<lparr>ss_conn := Some (d\<lparr>rbuf := rest\<rparr>)\<rparr>) m)]"
proof -
  let ?s = "(mg_sess m i)\<lparr>ss_conn := Some (d\<lparr>rbuf := rest\<rparr>)\<rparr>"
  have "handle_frame f ?s = ?s\<lparr>ss_ctl := [f]\<rparr>"
    using assms(4,5,7) by (simp add: handle_frame_def handle_control_def frame_types)
  moreover have "?s\<lparr>ss_ctl := []\<rparr> = ?s" using assms(5) by simp
  ultimately show ?thesis using readLoop_frame [OF assms(2,3,6,8)] by (simp add: manager_read_def)
qed

definition catalog_frame :: "Server \<Rightarrow> Frame" where
  "catalog_frame sv = \<lparr>Type = FrameCatalog, ID = 0, Payload = Marshal (Catalog_json \<lparr>Exits = Registry_Snapshot (sv_registry sv)\<rparr>)\<rparr>"

text \<open>
  C23 (catalogue). When the server pushes its catalogue to a client, the bytes it writes make the
  client's read loop replace the manager's catalogue by exactly the exits of the server's registry,
  in the order of their IDs, and report them to the callback, if one is set; the session goes on
  with the bytes that follow.
\<close>

theorem catalog_reaches_client:
  assumes "h < length (sv_sessions sv)" and "healthy (session_of sv h) c"
    and "ss_conn (session_of (pushCatalog h sv) h) = Some c'" and "wout c' = wout c @ b"
    and "list_all exit_info_ok (Registry_Snapshot (sv_registry sv))" and "frame_ok (catalog_frame sv)"
    and "i < length (mg_sessions m)" and "ss_rpc (mg_sess m i) = RIdle" and "ss_conn (mg_sess m i) = Some d"
    and "ss_control (mg_sess m i)" and "ss_ctl (mg_sess m i) = []" and "rbuf d = b @ rest"
  shows "\<exists>m'. manager_read i m = [m'] \<and> Manager_Catalog m' = Registry_Snapshot (sv_registry sv)
    \<and> mg_catalogs m' = mg_catalogs m @ (if mg_onCatalog m then [Registry_Snapshot (sv_registry sv)] else [])
    \<and> ss_conn (mg_sess m' i) = Some (d\<lparr>rbuf := rest\<rparr>) \<and> mg_state m' = mg_state m"
proof -
  have "pushCatalog h sv = set_session h (sent [catalog_frame sv] (session_of sv h) c) sv"
    using writeFrameJSON_healthy [OF assms(2)] assms(6) by (simp add: pushCatalog_def catalog_frame_def)
  then have "b = frame_bytes (catalog_frame sv)" using assms(1,3,4) by (auto simp: sent_def)
  then have "manager_read i m = [manager_control (catalog_frame sv) (put_session i ((mg_sess m i)\<lparr>ss_conn := Some (d\<lparr>rbuf := rest\<rparr>)\<rparr>) m)]"
    using manager_reads_control [OF assms(7-11,6)] assms(12) by (simp add: catalog_frame_def)
  moreover have "DecodeJSON json_Catalog (catalog_frame sv) = Inr \<lparr>Exits = Registry_Snapshot (sv_registry sv)\<rparr>"
    using DecodeJSON_messages(4) [of "\<lparr>Exits = Registry_Snapshot (sv_registry sv)\<rparr>" "catalog_frame sv"] assms(5)
    by (simp add: catalog_frame_def)
  ultimately show ?thesis
    using assms(7) by (simp add: manager_control_def catalog_frame_def Manager_Catalog_def put_session_def)
qed

section \<open>Examples\<close>

lemma ex_client_handshake:
  "\<exists>c1. ClientHandshakePassword ex_kdf ''pw'' RoleClient ex_server_side = (None, c1) \<and> wres c1 = []"
proof -
  have "frame_ok (challenge_frame ex_verifier (replicate 32 7))" by (rule challenge_frame_ok) (simp_all add: ex_verifier_def)
  moreover have "frame_ok (response_frame (client_answer v c RoleClient))" for v c
    by (rule response_frame_ok) (simp add: RoleClient_def)
  ultimately show ?thesis
    using client_verdict [OF ex_challenge _ refl, of RoleClient ex_kdf "''pw''" ex_server_side True "[]"]
    by (simp add: ex_server_side_def conn_of_def RoleClient_def)
qed

definition ex_called :: Manager where
  "ex_called = snd (Connect True ''s:1'' ''pw'' (NewManager (Some (ex_hosts\<lparr>kh_entries := Some [(''s'', Fingerprint [1])]\<rparr>))))"

definition ex_dialed :: Manager where
  "ex_dialed = attempt_connect (plain_dial [[1]] (Inl EOF)) (plain_dial [[1]] ex_server_side) ex_kdf 0 ex_called"

lemma ex_called:
  "mg_attempts ex_called = [ADial ''s:1'' ''pw'' True]" "mg_sessions ex_called = []" "mg_session ex_called = None"
  "mg_trust ex_called = Some (ex_hosts\<lparr>kh_entries := Some [(''s'', Fingerprint [1])]\<rparr>)" "mg_loops ex_called = []" "\<not> mg_closed ex_called"
proof -
  have "NormalizeServerAddress ''s:1'' = Inr ''s:1''" by code_simp
  then have e: "ex_called = Reconnect ((NewManager (Some (ex_hosts\<lparr>kh_entries := Some [(''s'', Fingerprint [1])]\<rparr>)))
      \<lparr>mg_address := ''s:1'', mg_passphrase := ''pw'', mg_forceTCP := True\<rparr>)"
    by (simp add: ex_called_def Connect_def)
  show "mg_attempts ex_called = [ADial ''s:1'' ''pw'' True]" "mg_sessions ex_called = []" "mg_session ex_called = None"
    "mg_trust ex_called = Some (ex_hosts\<lparr>kh_entries := Some [(''s'', Fingerprint [1])]\<rparr>)" "mg_loops ex_called = []" "\<not> mg_closed ex_called"
    by (simp_all add: e Reconnect_def NewManager_def notify_def Let_def)
qed

lemma ex_dialed:
  "\<exists>c t. ex_dialed = put_attempt 0 (AInstall ProtocolTLS 0) (ex_called\<lparr>mg_trust := t,
     mg_sessions := [(New (5 * minute) 0)\<lparr>ss_control := True, ss_conn := Some c, ss_rpc := RIdle, ss_dispatching := True\<rparr>]\<rparr>) \<and> wres c = []"
proof -
  obtain c1 where h: "ClientHandshakePassword ex_kdf ''pw'' RoleClient ex_server_side = (None, c1)" "wres c1 = []"
    using ex_client_handshake by blast
  have a: "addressHost ''s:1'' = ''s''" by code_simp
  have g: "KnownHosts_Get ''s'' (ex_hosts\<lparr>kh_entries := Some [(''s'', Fingerprint [1])]\<rparr>) = Fingerprint [1]"
    by (simp add: KnownHosts_Get_def gm_get_def)
  have "\<exists>t. connectTransport (plain_dial [[1]] (Inl EOF)) (plain_dial [[1]] ex_server_side) ''s:1'' True (mg_trust ex_called)
      = (Inr (ProtocolTLS, ex_server_side), t)"
    using Fingerprint_nonempty [of "[1]"]
    by (simp add: connectTransport_def ex_called(4) a g plain_dial_def ClientTLSConfig_def VerifyConnection_def EqualFingerprint_def)
  then obtain t where t: "connectTransport (plain_dial [[1]] (Inl EOF)) (plain_dial [[1]] ex_server_side) ''s:1'' True (mg_trust ex_called)
      = (Inr (ProtocolTLS, ex_server_side), t)" ..
  have s: "startSession c1 = Inr ((New (5 * minute) 0)\<lparr>ss_control := True, ss_conn := Some c1, ss_rpc := RIdle, ss_dispatching := True\<rparr>)"
    by (simp add: startSession_def Start_def SetControlHandler_def New_def)
  have "ex_dialed = put_attempt 0 (AInstall ProtocolTLS 0) (ex_called\<lparr>mg_trust := t,
     mg_sessions := [(New (5 * minute) 0)\<lparr>ss_control := True, ss_conn := Some c1, ss_rpc := RIdle, ss_dispatching := True\<rparr>]\<rparr>)"
    using t h(1) s ex_called(1,2) by (simp add: ex_dialed_def attempt_connect_def)
  with h(2) show ?thesis by blast
qed

lemma ex_dialed_parts:
  "mg_attempts ex_dialed = [AInstall ProtocolTLS 0]" "mg_session ex_dialed = None" "\<not> mg_closed ex_dialed"
  "\<exists>c. healthy (mg_sess ex_dialed 0) c" "length (mg_sessions ex_dialed) = 1"
proof -
  obtain t c where d: "ex_dialed = put_attempt 0 (AInstall ProtocolTLS 0) (ex_called\<lparr>mg_trust := t,
     mg_sessions := [(New (5 * minute) 0)\<lparr>ss_control := True, ss_conn := Some c, ss_rpc := RIdle, ss_dispatching := True\<rparr>]\<rparr>)"
    and c: "wres c = []" using ex_dialed by blast
  show "mg_attempts ex_dialed = [AInstall ProtocolTLS 0]" "mg_session ex_dialed = None" "\<not> mg_closed ex_dialed"
    "length (mg_sessions ex_dialed) = 1" by (simp_all add: d ex_called)
  have "healthy (mg_sess ex_dialed 0) c" using c by (simp add: d healthy_def New_def)
  then show "\<exists>c. healthy (mg_sess ex_dialed 0) c" ..
qed

lemma ex_installed: "mg_session (attempt_install 0 ex_dialed) = Some 0"
  by (simp add: ex_dialed_parts attempt_install_def)

lemma ex_dialed_reach: "mg.reach (attempt_install 0 ex_dialed)" "mgs.reach (attempt_install 0 ex_dialed)"
proof -
  let ?m = "NewManager (Some (ex_hosts\<lparr>kh_entries := Some [(''s'', Fingerprint [1])]\<rparr>))"
  have s: "mg_step ?m ex_called" unfolding ex_called_def by (rule mg_connect [OF prod.collapse [symmetric]])
  have s': "mg_step ex_called ex_dialed" unfolding ex_dialed_def by (rule mg_dialed) (simp add: ex_called)
  have s'': "mg_step ex_dialed (attempt_install 0 ex_dialed)" by (rule mg_install) (simp add: ex_dialed_parts)
  have "mg.reach ?m" by (rule mg.reach_init) blast
  from mg.reach_step [OF mg.reach_step [OF mg.reach_step [OF this s] s'] s'']
  show "mg.reach (attempt_install 0 ex_dialed)" .
  have "serial_step ?m ex_called" using s by (simp add: serial_step_def in_flight_def NewManager_def)
  moreover have "serial_step ex_called ex_dialed" using s' by (simp add: serial_step_def ex_dialed_parts ex_called)
  moreover have "serial_step ex_dialed (attempt_install 0 ex_dialed)"
    using s'' by (simp add: serial_step_def ex_dialed_parts attempt_install_def)
  moreover have "mgs.reach ?m" by (rule mgs.reach_init) blast
  ultimately show "mgs.reach (attempt_install 0 ex_dialed)" using mgs.reach_step by blast
qed

theorem manager_invariant_witness:
  "mg_session (attempt_install 0 ex_dialed) = Some 0 \<and> LWait 0 \<in> set (mg_loops (attempt_install 0 ex_dialed))"
  using manager_invariant [OF ex_dialed_reach(1)] ex_installed by simp

theorem manager_state_exact_witness:
  "fst (Manager_State (attempt_install 0 ex_dialed)) = StateConnected"
  using manager_state_exact [OF ex_dialed_reach(2), of ex_request] ex_installed by simp


theorem close_misses_reconnect_witness:
  "mg_closed (attempt_install 0 (Manager_Close ex_dialed)) \<and> fst (Manager_State (attempt_install 0 (Manager_Close ex_dialed))) = StateConnected"
proof -
  obtain c where h: "healthy (mg_sess ex_dialed 0) c" using ex_dialed_parts(4) ..
  have "frame_ok (open_frame (Open_request ex_sent_request n))" for n
    using ex_open_frame_ok by (simp add: Open_request_def ex_sent_request_def ex_request_def ProtocolTCP_def)
  note o = Open_send_healthy [OF h refl this]
  have "0 < length (mg_attempts ex_dialed)" "mg_attempts ex_dialed ! 0 = AInstall ProtocolTLS 0" "mg_session ex_dialed = None"
    "0 < length (mg_sessions ex_dialed)"
    by (simp_all add: ex_dialed_parts)
  from close_misses_reconnect [OF this o] show ?thesis by (simp add: Let_def)
qed

definition ex_snapshot :: "ExitInfo list" where
  "ex_snapshot = Registry_Snapshot (sv_registry ex_net)"

lemma ex_catalog: "list_all exit_info_ok ex_snapshot" "frame_ok (catalog_frame ex_net)" "ex_snapshot \<noteq> []"
proof -
  have s: "ex_snapshot = [(exit_info ex_registration)\<lparr>ei_Health := ''healthy'', ei_HeartbeatTime := 0\<rparr>]"
    by (simp add: ex_snapshot_def ex_net_def Registry_Snapshot_def Registry_Add_def Registry_add_def NewRegistry_def
        exit_info_def ex_registration_def UnixMilli_def)
  show "list_all exit_info_ok ex_snapshot" by (simp add: s exit_info_ok_def exit_info_def ex_registration_def int64_def)
  have "length (Marshal (Catalog_json \<lparr>Exits = [(exit_info ex_registration)\<lparr>ei_Health := ''healthy'', ei_HeartbeatTime := 0\<rparr>]\<rparr>)) < 300"
    by code_simp
  then show "frame_ok (catalog_frame ex_net)"
    by (simp add: frame_ok_def catalog_frame_def MaxFrameSize_def s [unfolded ex_snapshot_def])
  show "ex_snapshot \<noteq> []" by (simp add: s)
qed

theorem catalog_reaches_client_witness:
  "\<exists>(m :: Manager) m'. manager_read 0 m = [m'] \<and> Manager_Catalog m' = ex_snapshot \<and> ex_snapshot \<noteq> []"
proof -
  let ?m = "(NewManager None)\<lparr>mg_sessions := [ex_link\<lparr>ss_conn := Some (conn_of (frame_bytes (catalog_frame ex_net)))\<rparr>]\<rparr>"
  have h: "healthy (session_of ex_net 1) (conn_of [])" by (simp add: ex_net_def ex_link_def healthy_def New_def conn_of_def)
  have n: "1 < length (sv_sessions ex_net)" by (simp add: ex_net_def)
  have "pushCatalog 1 ex_net = set_session 1 (sent [catalog_frame ex_net] (session_of ex_net 1) (conn_of [])) ex_net"
    using writeFrameJSON_healthy [OF h] ex_catalog(2) by (simp add: pushCatalog_def catalog_frame_def)
  then have c: "ss_conn (session_of (pushCatalog 1 ex_net) 1) = Some (conn_of []\<lparr>wout := frame_bytes (catalog_frame ex_net)\<rparr>)"
    using n by (simp add: sent_def conn_of_def)
  have "wout (conn_of []\<lparr>wout := frame_bytes (catalog_frame ex_net)\<rparr>) = wout (conn_of []) @ frame_bytes (catalog_frame ex_net)"
    by (simp add: conn_of_def)
  from catalog_reaches_client [OF n h c this ex_catalog(1) [unfolded ex_snapshot_def] ex_catalog(2),
      of 0 ?m "conn_of (frame_bytes (catalog_frame ex_net))" "[]"]
  have "\<exists>m'. manager_read 0 ?m = [m'] \<and> Manager_Catalog m' = ex_snapshot"
    by (auto simp: NewManager_def ex_link_def New_def conn_of_def ex_snapshot_def)
  then show ?thesis using ex_catalog(3) by blast
qed

end
