(* ===== verification/RuntimeProps.thy ===== *)
theory RuntimeProps
  imports Runtime SystemProxyProps ManagerProps
begin

text \<open>
  The client's runtime: the settings of the desktop come back after a regular end and after a crash,
  for every system proxy that keeps its contract; they do not when applying them fails half-way.
  The exit that is asked for, and the count of open streams.
\<close>

section \<open>The journal protocol\<close>

context system_proxy
begin

lemma recover_restores:
  assumes "sp_Snapshot sp w = (Inr (jr_Before j), w0)" and "journal_ok j" and "rt_systemProxy r = sp"
    and "WriteJournal (JournalPath (rt_DataDirectory r)) j s = (None, s')"
    and "fs_files t (JournalPath (rt_DataDirectory r)) = fs_files s' (JournalPath (rt_DataDirectory r))" and "fs_calls t = []"
    and "recoverJournal r \<lparr>en_fs = t, en_desktop = w1\<rparr> = (e, en')"
  shows "(e = None \<and> same_settings w (en_desktop en') \<and> fs_files (en_fs en') (JournalPath (rt_DataDirectory r)) = None)
    \<or> (e \<noteq> None \<and> fst (sp_Restore sp (jr_Before j) w1) = e \<and> en_fs en' = t)"
proof -
  let ?p = "JournalPath (rt_DataDirectory r)"
  have rd: "ReadJournal ?p t = (Inr j, t)" by (rule ReadJournal_written [OF assms(4,2,5,6)])
  obtain x w2 where x: "sp_Restore sp (jr_Before j) w1 = (x, w2)" by fastforce
  obtain t' where t': "RemoveJournal ?p t = (None, t')" "fs_files t' = (fs_files t)(?p := None)"
    using RemoveJournal_done [OF assms(6)] by blast
  show ?thesis
  proof (cases x)
    case None
    with assms(3,7) rd x t' restored [OF assms(1)] show ?thesis by (auto simp: recoverJournal_def Let_def)
  next
    case (Some y)
    with assms(3,7) rd x show ?thesis by (auto simp: recoverJournal_def Let_def)
  qed
qed

end

lemma start_settings_journal:
  assumes "start_settings pid now r en = (None, r1, en1)" and "rt_hasJournal r1" and "\<not> rt_hasJournal r"
  shows "\<exists>sn w1 j. sp_Snapshot (rt_systemProxy r) (en_desktop en) = (Inr sn, w1)
    \<and> j = \<lparr>jr_Version = 1, jr_PID = pid, jr_Applied = \<lparr>ep_HTTP = rt_httpAddr r, ep_HTTPS = rt_httpAddr r, ep_SOCKS = rt_socksAddr r\<rparr>,
        jr_Before = sn, jr_Time = now\<rparr>
    \<and> WriteJournal (JournalPath (rt_DataDirectory r)) j (en_fs en) = (None, en_fs en1)
    \<and> sp_Apply (rt_systemProxy r) (jr_Applied j) w1 = (None, en_desktop en1)
    \<and> r1 = r\<lparr>rt_journalPath := JournalPath (rt_DataDirectory r), rt_journal := Some j, rt_hasJournal := True\<rparr>"
  using assms by (auto simp: start_settings_def Let_def markStopped_def split: prod.splits sum.splits option.splits if_splits)

lemma start_listeners_keeps:
  "start_listeners a b r = (x, r1) \<Longrightarrow>
   rt_systemProxy r1 = rt_systemProxy r \<and> rt_DataDirectory r1 = rt_DataDirectory r \<and> rt_hasJournal r1 = rt_hasJournal r
   \<and> rt_started r1 = rt_started r \<and> rt_closed r1 = rt_closed r"
  by (auto simp: start_listeners_def markStopped_def Let_def split: prod.splits sum.splits if_splits)

lemma recover_nothing:
  "fs_files (en_fs en) (JournalPath (rt_DataDirectory r)) = None \<Longrightarrow> fs_calls (en_fs en) = [] \<Longrightarrow> recoverJournal r en = (None, en)"
  by (simp add: recoverJournal_def ReadJournal_def os_ReadFile_def next_call_def Let_def)

text \<open>A start that has changed the settings, by what it did to them and to the journal.\<close>

lemma Start_journal:
  assumes "Runtime_Start Q T kdf address pass a b pid now r en = (None, r1, en1)" and "rt_hasJournal r1" and "\<not> rt_hasJournal r"
    and "fs_files (en_fs en) (JournalPath (rt_DataDirectory r)) = None" and "fs_calls (en_fs en) = []"
  shows "\<exists>sn w1 j. sp_Snapshot (rt_systemProxy r) (en_desktop en) = (Inr sn, w1) \<and> jr_Before j = sn
    \<and> jr_Version j = 1 \<and> jr_PID j = pid \<and> jr_Time j = now
    \<and> jr_Applied j = \<lparr>ep_HTTP = rt_httpAddr r1, ep_HTTPS = rt_httpAddr r1, ep_SOCKS = rt_socksAddr r1\<rparr>
    \<and> WriteJournal (JournalPath (rt_DataDirectory r)) j (en_fs en) = (None, en_fs en1)
    \<and> sp_Apply (rt_systemProxy r) (jr_Applied j) w1 = (None, en_desktop en1)
    \<and> rt_journal r1 = Some j \<and> rt_journalPath r1 = JournalPath (rt_DataDirectory r) \<and> rt_systemProxy r1 = rt_systemProxy r
    \<and> rt_DataDirectory r1 = rt_DataDirectory r \<and> \<not> rt_closed r1"
proof -
  obtain m r2 where l: "start_listeners a b (r\<lparr>rt_manager := m, rt_started := True\<rparr>) = (None, r2)" "\<not> rt_closed r"
    and s: "start_settings pid now r2 en = (None, r1, en1)"
    using assms(1) recover_nothing [OF assms(4,5)]
    by (auto simp: Runtime_Start_def split: if_splits prod.splits option.splits)
  note k = start_listeners_keeps [OF l(1)]
  from start_settings_journal [OF s assms(2)] k l(2) assms(3) show ?thesis by auto
qed

lemma windows_journal_ok:
  assumes "reads_values R view" and "Windows_Snapshot R w = Inr (jr_Before j)" and "jr_Version j = 1" and "int64 (jr_PID j)"
    and "rfc3339 (jr_Time j)" and "valid_utf8 (jr_Time j)"
    and "jr_Applied j = \<lparr>ep_HTTP = h, ep_HTTPS = h, ep_SOCKS = k\<rparr>" and "valid_utf8 h" and "valid_utf8 k"
  shows "journal_ok j"
  using assms(3-9) windows_values_utf8 [OF assms(1), of w]
  by (simp add: journal_ok_def Journal_json_def Endpoint_json_def Snapshot_json_def omit_if_def int64_def
      Windows_Snapshot_InrD(1) [OF assms(1,2)] windows_json_def word_j_def)

lemma windows_same_settings:
  assumes "system_proxy.same_settings (Windows R) w w'" and "system_proxy (Windows R)"
  shows "Windows_Snapshot R w' = Windows_Snapshot R w"
  using assms(1) unfolding system_proxy.same_settings_def [OF assms(2)] by (auto simp: Windows_def)

section \<open>Properties\<close>


lemma runtime_same: "\<exists>n c. r = r\<lparr>rt_active := n, rt_counted := c\<rparr>" for r :: "'w Runtime"
proof -
  have "r = r\<lparr>rt_active := rt_active r, rt_counted := rt_counted r\<rparr>" by simp
  then show ?thesis by blast
qed

lemma drain_wait_keeps:
  "drain_wait evs r = Some r1 \<Longrightarrow> \<exists>n c. r1 = r\<lparr>rt_active := n, rt_counted := c\<rparr>"
proof (induction evs r rule: drain_wait.induct)
  case (5 evs r)
  then obtain n c where "r1 = (snd (count_stream r))\<lparr>rt_active := n, rt_counted := c\<rparr>" by auto
  then show ?case by (auto simp: count_stream_def)
next
  case (6 k evs r)
  then obtain n c where r1: "r1 = (counted_Close k r)\<lparr>rt_active := n, rt_counted := c\<rparr>" by auto
  then have "r1 = r\<lparr>rt_active := n, rt_counted := c\<rparr>" by (simp add: counted_Close_def)
  then show ?case by blast
next
  case (3 evs r)
  then show ?case using runtime_same [of r] by (cases "rt_active r > 0") (simp_all only: drain_wait.simps if_True if_False option.inject)
qed (use runtime_same in \<open>simp_all only: drain_wait.simps option.inject option.distinct\<close>)

lemma shutdown_at_once:
  obtains e r1 en1 where "Runtime_Shutdown 0 [] r en = Some (e, r1, en1)"
proof (cases "rt_closed r")
  case True
  show ?thesis by (rule that) (simp add: Runtime_Shutdown_def True)
next
  case False
  obtain e r1 en1 where "restoreProxy ((shutdown_begin r)\<lparr>rt_manager := Manager_Close (rt_manager (shutdown_begin r))\<rparr>) en = (e, r1, en1)"
    by (rule prod_cases3)
  then show ?thesis using that False by (simp add: Runtime_Shutdown_def)
qed

lemma Shutdown_drained:
  assumes "\<not> rt_closed r" and "Runtime_Shutdown drain evs r en = Some x"
  shows "\<exists>n c. restoreProxy ((shutdown_begin r)\<lparr>rt_active := n, rt_counted := c, rt_manager := Manager_Close (rt_manager r)\<rparr>) en = x"
proof -
  obtain r1 where r1: "(if drain > 0 then drain_wait evs (shutdown_begin r) else Some (shutdown_begin r)) = Some r1"
    "restoreProxy (r1\<lparr>rt_manager := Manager_Close (rt_manager r1)\<rparr>) en = x"
    using assms by (auto simp: Runtime_Shutdown_def split: option.splits)
  from r1(1) obtain n c where "r1 = (shutdown_begin r)\<lparr>rt_active := n, rt_counted := c\<rparr>"
    using drain_wait_keeps [of evs "shutdown_begin r" r1] runtime_same [of "shutdown_begin r"] by (auto split: if_splits)
  then have "restoreProxy ((shutdown_begin r)\<lparr>rt_active := n, rt_counted := c, rt_manager := Manager_Close (rt_manager r)\<rparr>) en = x"
    using r1(2) by (simp add: shutdown_begin_def)
  then show ?thesis by blast
qed


text \<open>
  C40 (failing to apply). When the provider fails half-way through \<open>Apply\<close>, \<open>Start\<close> removes the journal and
  reports the error: what \<open>Apply\<close> had already changed stays, \<open>Shutdown\<close> and a recovery leave it as it is, and
  the runtime, which counts as started, refuses another \<open>Start\<close>.
\<close>

theorem failed_apply_not_undone:
  assumes "rt_started r" and "\<not> rt_closed r" and "\<not> rt_hasJournal r" and "fs_calls (en_fs en) = []"
    and "sp_Snapshot (rt_systemProxy r) (en_desktop en) = (Inr sn, w1)"
    and "sp_Apply (rt_systemProxy r) \<lparr>ep_HTTP = rt_httpAddr r, ep_HTTPS = rt_httpAddr r, ep_SOCKS = rt_socksAddr r\<rparr> w1 = (Some x, w2)"
    and "\<not> errors_Is x ErrUnsupported" and "start_settings pid now r en = (e, r1, en1)"
    and "Runtime_Shutdown drain evs r1 en1 = Some (e2, r2, en2)"
  shows "e = Some (Wrapped ''apply system proxy: '' x) \<and> en_desktop en1 = w2
    \<and> fst (Runtime_Start Q T kdf address pass a b pid' now' r1 en1) = Some (Msg ''client runtime is already started'')
    \<and> e2 = None \<and> en_desktop en2 = w2
    \<and> recoverJournal r1 en1 = (None, en1)"
proof -
  let ?p = "JournalPath (rt_DataDirectory r)"
  let ?j = "\<lparr>jr_Version = 1, jr_PID = pid, jr_Applied = \<lparr>ep_HTTP = rt_httpAddr r, ep_HTTPS = rt_httpAddr r, ep_SOCKS = rt_socksAddr r\<rparr>,
      jr_Before = sn, jr_Time = now\<rparr>"
  obtain s1 where s1: "WriteJournal ?p ?j (en_fs en) = (None, s1)" "fs_calls s1 = []"
    using assms(4) by (simp add: WriteJournal_def replace_file_def os_MkdirAll_def os_WriteFile_def os_Rename_def next_call_def Let_def)
  obtain s2 where s2: "RemoveJournal ?p s1 = (None, s2)" "fs_files s2 = (fs_files s1)(?p := None)" "fs_calls s2 = []"
    using RemoveJournal_done [OF s1(2)] by blast
  have st: "e = Some (Wrapped ''apply system proxy: '' x)" "r1 = markStopped r" "en1 = en\<lparr>en_fs := s2, en_desktop := w2\<rparr>"
    using assms(5-8) s1(1) s2(1) by (simp_all add: start_settings_def Let_def)
  moreover have "recoverJournal r1 en1 = (None, en1)"
    by (rule recover_nothing) (simp_all add: st(2,3) markStopped_def s2)
  moreover have "e2 = None \<and> en_desktop en2 = w2"
    using Shutdown_drained [OF _ assms(9)] assms(2,3) by (auto simp: st markStopped_def shutdown_begin_def restoreProxy_def)
  ultimately show ?thesis
    using assms(1-3) by (simp add: Runtime_Start_def markStopped_def)
qed

text \<open>
  C29 (choosing an exit). After a successful \<open>SetExit\<close> a new stream is asked for at exactly the chosen exit,
  which was in the catalogue unless it is \<open>auto\<close>; another exit is tried only if the fallback was allowed
  and the chosen one refused, and then it is the server's automatic choice.
\<close>

theorem chosen_exit_used:
  assumes "SetExit i f r = (None, r1)" and "dialer_Dial dial host port r1 = (x, qs, r2)"
  shows "(TrimSpace i = ''auto'' \<or> (\<exists>e \<in> set (Manager_Catalog (rt_manager r)). ei_ID e = TrimSpace i))
    \<and> qs \<noteq> [] \<and> or_ExitID (hd qs) = TrimSpace i
    \<and> (\<forall>q \<in> set qs. or_Destination q = host \<and> or_Port q = port \<and> or_Protocol q = ProtocolTCP)
    \<and> (\<forall>q \<in> set (tl qs). f \<and> or_ExitID q = ''auto'' \<and> (\<exists>e. dial (hd qs) = Inl e))
    \<and> (case x of Inr (k, t) \<Rightarrow> dial (last qs) = Inr t | Inl e \<Rightarrow> dial (last qs) = Inl e)"
proof -
  have r1: "rt_exitID r1 = TrimSpace i" "rt_fallback r1 = f"
    and c: "TrimSpace i = ''auto'' \<or> (\<exists>e \<in> set (Manager_Catalog (rt_manager r)). ei_ID e = TrimSpace i)"
    using assms(1) by (auto simp: SetExit_def Let_def list_ex_iff split: if_splits)
  show ?thesis
    using assms(2) c r1
    by (auto simp: dialer_Dial_def dialer_request_def count_stream_def Let_def split: sum.splits if_splits)
qed

section \<open>Counting streams\<close>

inductive rt_step :: "'w Runtime \<Rightarrow> 'w Runtime \<Rightarrow> bool" where
  rt_dial: "dialer_Dial (dial :: OpenRequest \<Rightarrow> unit res) host port r = (x, qs, r1) \<Longrightarrow> rt_step r r1"
| rt_end: "rt_step r (counted_Close k r)"
| rt_exit: "SetExit i f r = (x, r1) \<Longrightarrow> rt_step r r1"

interpretation rt: transition_system "\<lambda>r. \<exists>d b i sp m. r = NewRuntime d b i sp m" rt_step .

lemma open_count_update:
  "k < length xs \<Longrightarrow> \<not> xs ! k \<Longrightarrow> length (filter Not xs) = Suc (length (filter Not (xs[k := True])))"
  using in_flight_update [of k xs Not True] by simp

lemma reach_rt_active: "rt.reach r \<Longrightarrow> rt_active r = int (length (filter Not (rt_counted r)))"
proof (rule rt.reach_invariant)
  show "\<exists>d b i sp m. r = NewRuntime d b i sp m \<Longrightarrow> rt_active r = int (length (filter Not (rt_counted r)))" for r :: "'a Runtime"
    by (auto simp: NewRuntime_def)
  fix r r1 :: "'a Runtime"
  assume a: "rt_active r = int (length (filter Not (rt_counted r)))" and "rt_step r r1"
  from this(2) show "rt_active r1 = int (length (filter Not (rt_counted r1)))"
  proof cases
    case (rt_end k)
    then show ?thesis using a open_count_update [of k "rt_counted r"] by (auto simp: counted_Close_def)
  qed (use a in \<open>auto simp: dialer_Dial_def count_stream_def SetExit_def Let_def split: sum.splits if_splits\<close>)
qed

lemma count_active: "rt_active r = int (length (filter Not (rt_counted r))) \<Longrightarrow>
    rt_active (counted_Close k r) = int (length (filter Not (rt_counted (counted_Close k r))))
    \<and> rt_active (snd (count_stream r)) = int (length (filter Not (rt_counted (snd (count_stream r)))))"
  using open_count_update [of k "rt_counted r"] by (auto simp: counted_Close_def count_stream_def)

lemma drain_wait_ends:
  assumes "drain_wait evs r = Some r1" and "rt_active r = int (length (filter Not (rt_counted r)))"
    and "DrainDeadline \<notin> set evs" and "DrainCanceled \<notin> set evs"
  shows "filter Not (rt_counted r1) = []"
  using assms
proof (induction evs r rule: drain_wait.induct)
  case (5 evs r)
  then show ?case using count_active [of r] by simp
next
  case (6 k evs r)
  then show ?case using count_active [of r k] by simp
qed (auto split: if_splits)

lemma drain_wait_deadline: "DrainDeadline \<in> set evs \<Longrightarrow> drain_wait evs r \<noteq> None"
  by (induction evs r rule: drain_wait.induct) auto

text \<open>
  C30 (draining). In any run of dials, closes (also repeated ones) and changes of the exit, the runtime's counter
  is the number of streams that are handed out and not yet closed. \<open>Shutdown\<close> with time to drain goes on to close
  the manager only when none is left, unless the time or the context ends first; once the time ends it does return.
\<close>

theorem shutdown_waits_for_streams:
  assumes "rt.reach r" and "\<not> rt_closed r" and "drain > 0"
  shows "rt_active r = int (length (filter Not (rt_counted r)))
    \<and> (Runtime_Shutdown drain evs r en = Some (e, r1, en1) \<and> DrainDeadline \<notin> set evs \<and> DrainCanceled \<notin> set evs
         \<longrightarrow> (\<forall>d \<in> set (rt_counted r1). d))
    \<and> (DrainDeadline \<in> set evs \<longrightarrow> Runtime_Shutdown drain evs r en \<noteq> None)"
proof -
  have a: "rt_active r = int (length (filter Not (rt_counted r)))" by (rule reach_rt_active [OF assms(1)])
  have "\<forall>d \<in> set (rt_counted r1). d"
    if sd: "Runtime_Shutdown drain evs r en = Some (e, r1, en1)" and ev: "DrainDeadline \<notin> set evs" "DrainCanceled \<notin> set evs"
  proof -
    obtain r2 where r2: "drain_wait evs (shutdown_begin r) = Some r2"
      "restoreProxy (r2\<lparr>rt_manager := Manager_Close (rt_manager r2)\<rparr>) en = (e, r1, en1)"
      using sd assms(2,3) by (auto simp: Runtime_Shutdown_def split: option.splits)
    have "filter Not (rt_counted r2) = []" by (rule drain_wait_ends [OF r2(1) _ ev]) (simp add: shutdown_begin_def a)
    moreover have "rt_counted r1 = rt_counted r2"
      using r2(2) by (auto simp: restoreProxy_def Let_def split: prod.splits sum.splits option.splits if_splits bool.splits)
    ultimately show ?thesis by (auto simp: filter_empty_conv)
  qed
  moreover have "Runtime_Shutdown drain evs r en \<noteq> None" if "DrainDeadline \<in> set evs"
    using drain_wait_deadline [OF that, of "shutdown_begin r"] assms(2,3) by (auto simp: Runtime_Shutdown_def simp del: not_None_eq)
  ultimately show ?thesis using a by blast
qed

section \<open>Examples\<close>

type_synonym ex_key = "string \<rightharpoonup> reg_value"

definition ex_values :: "ex_key \<Rightarrow> ex_key" where
  "ex_values w n = (case w n of Some (RegString s) \<Rightarrow> if valid_utf8 s then Some (RegString s) else None | x \<Rightarrow> x)"

definition ex_registry_key :: "ex_key registry" where
  "ex_registry_key =
     \<lparr>rk_OpenKey = (\<lambda>w. None), rk_CreateKey = (\<lambda>w. (None, w)),
      rk_GetInteger = (\<lambda>n w. case reg_integer (ex_values w n) of None \<Rightarrow> Inl ErrNotExist | Some v \<Rightarrow> Inr v),
      rk_GetString = (\<lambda>n w. case reg_string (ex_values w n) of None \<Rightarrow> Inl ErrNotExist | Some v \<Rightarrow> Inr v),
      rk_SetString = (\<lambda>n s w. if valid_utf8 s then (None, w(n \<mapsto> RegString s)) else (Some EOF, w)),
      rk_SetDWord = (\<lambda>n v w. (None, w(n \<mapsto> DWord v))), rk_Delete = (\<lambda>n w. (None, w(n := None))), rk_Notify = (\<lambda>w. w)\<rparr>"

lemma ex_values_upd:
  "valid_utf8 s \<Longrightarrow> ex_values (w(n \<mapsto> RegString s)) = (ex_values w)(n \<mapsto> RegString s)"
  "ex_values (w(n \<mapsto> DWord v)) = (ex_values w)(n \<mapsto> DWord v)" "ex_values (w(n := None)) = (ex_values w)(n := None)"
  by (simp_all add: fun_eq_iff ex_values_def)

lemma ex_registry_key_stores: "reads_values ex_registry_key ex_values" "writes_values ex_registry_key ex_values"
proof -
  show "reads_values ex_registry_key ex_values"
    unfolding reads_values_def
    by (auto simp: ex_registry_key_def yields_def ex_values_def split: option.splits reg_value.splits if_splits sum.splits)
  show "writes_values ex_registry_key ex_values"
    unfolding writes_values_def by (auto simp: ex_registry_key_def ex_values_upd split: if_splits)
qed

interpretation ex_key: windows_registry ex_registry_key ex_values
  by unfold_locales (rule ex_registry_key_stores)+

definition ex_dial_manager :: Manager where
  "ex_dial_manager = NewManager (Some (ex_hosts\<lparr>kh_entries := Some [(''s'', Fingerprint [1])]\<rparr>))"

text \<open>QUIC meets a server without a certificate, TLS the right one.\<close>

lemma ex_connects:
  "\<exists>m. Connect_call (plain_dial [] (Inl EOF)) (plain_dial [[1]] ex_server_side) ex_kdf ''s:1'' ''pw'' ex_dial_manager = (None, m)"
proof -
  let ?Q = "plain_dial [] (Inl EOF) :: conn res tls_dial" and ?T = "plain_dial [[1]] ex_server_side"
  let ?k = "ex_hosts\<lparr>kh_entries := Some [(''s'', Fingerprint [1])]\<rparr>"
  have n: "NormalizeServerAddress ''s:1'' = Inr ''s:1''" and a: "addressHost ''s:1'' = ''s''" by code_simp+
  obtain m1 where m1: "Connect False ''s:1'' ''pw'' ex_dial_manager = (None, m1)" "mg_attempts m1 = [ADial ''s:1'' ''pw'' False]"
    "mg_trust m1 = Some ?k" "mg_sessions m1 = []"
    by (simp add: Connect_def n ex_dial_manager_def Reconnect_def NewManager_def notify_def Let_def)
  have g: "KnownHosts_Get ''s'' ?k = Fingerprint [1]" by (simp add: KnownHosts_Get_def gm_get_def)
  obtain c1 where h: "ClientHandshakePassword ex_kdf ''pw'' RoleClient ex_server_side = (None, c1)" using ex_client_handshake by blast
  have "\<exists>t. connectTransport ?Q ?T ''s:1'' False (Some ?k) = (Inr (ProtocolTLS, ex_server_side), t)"
    using Fingerprint_nonempty [of "[1]"]
    by (simp add: connectTransport_def a g plain_dial_def ClientTLSConfig_def VerifyConnection_def Let_def) (simp add: EqualFingerprint_def)
  then obtain t where t: "connectTransport ?Q ?T ''s:1'' False (Some ?k) = (Inr (ProtocolTLS, ex_server_side), t)" ..
  obtain s where "startSession c1 = Inr s" by (simp add: startSession_def Start_def SetControlHandler_def New_def)
  with m1 t h show ?thesis
    by (simp add: Connect_call_def attempt_connect_def attempt_install_def Let_def)
qed

definition ex_windows :: "ex_key Runtime" where
  "ex_windows = NewRuntime ''d'' True 0 (Windows ex_registry_key) ex_dial_manager"

definition ex_place :: "ex_key environment" where
  "ex_place = \<lparr>en_fs = \<lparr>fs_files = Map.empty, fs_calls = []\<rparr>, en_desktop = [''ProxyServer'' \<mapsto> RegString ''corp:80'']\<rparr>"

abbreviation ex_start :: "error option \<times> ex_key Runtime \<times> ex_key environment" where
  "ex_start \<equiv> Runtime_Start (plain_dial [] (Inl EOF)) (plain_dial [[1]] ex_server_side) ex_kdf ''s:1'' ''pw''
     (Inr ''l:1'') (Inr ''l:2'') 7 zero_time ex_windows ex_place"

lemma ex_started:
  "\<exists>r1 en1. ex_start = (None, r1, en1) \<and> rt_hasJournal r1 \<and> rt_httpAddr r1 = ''l:1'' \<and> rt_socksAddr r1 = ''l:2''
     \<and> fs_calls (en_fs en1) = []"
proof -
  obtain m where m: "Connect_call (plain_dial [] (Inl EOF)) (plain_dial [[1]] ex_server_side) ex_kdf ''s:1'' ''pw'' ex_dial_manager = (None, m)"
    using ex_connects by blast
  have u: "valid_utf8 (windows_server \<lparr>ep_HTTP = ''l:1'', ep_HTTPS = ''l:1'', ep_SOCKS = ''l:2''\<rparr>)" by (simp add: windows_server_def)
  obtain sn where sn: "Windows_Snapshot ex_registry_key (en_desktop ex_place) = Inr sn"
    by (simp add: Windows_Snapshot_def ex_registry_key_def)
  obtain w where w: "Windows_Apply ex_registry_key \<lparr>ep_HTTP = ''l:1'', ep_HTTPS = ''l:1'', ep_SOCKS = ''l:2''\<rparr> (en_desktop ex_place) = (None, w)"
    using u by (simp add: Windows_Apply_def ex_registry_key_def)
  have "recoverJournal ex_windows ex_place = (None, ex_place)" by (rule recover_nothing) (simp_all add: ex_place_def)
  moreover have "\<not> rt_closed ex_windows" "\<not> rt_started ex_windows" "rt_manager ex_windows = ex_dial_manager"
    by (simp_all add: ex_windows_def NewRuntime_def)
  moreover have "\<exists>r1. start_listeners (Inr ''l:1'') (Inr ''l:2'') (ex_windows\<lparr>rt_manager := m, rt_started := True\<rparr>) = (None, r1)
      \<and> rt_httpAddr r1 = ''l:1'' \<and> rt_socksAddr r1 = ''l:2'' \<and> rt_systemProxy r1 = Windows ex_registry_key \<and> rt_DataDirectory r1 = ''d''"
    by (simp add: start_listeners_def ex_windows_def NewRuntime_def proxy_Start_def proxy_New_def)
  moreover have "fs_calls (en_fs ex_place) = []" by (simp add: ex_place_def)
  ultimately show ?thesis
    using m sn w
    by (auto simp: Runtime_Start_def start_settings_def Windows_def WriteJournal_def replace_file_def os_MkdirAll_def
        os_WriteFile_def os_Rename_def next_call_def Let_def)
qed

lemma ex_time: "rfc3339 zero_time" "valid_utf8 zero_time" by (code_simp, simp add: zero_time_def)

lemmas ex_windows_facts = ex_windows_def NewRuntime_def ex_place_def



theorem failed_apply_not_undone_witness:
  "\<exists>r1 en1. start_settings 7 zero_time (ex_windows\<lparr>rt_started := True, rt_httpAddr := ''l:1'',
      rt_systemProxy := Windows (ex_registry_key\<lparr>rk_SetDWord := \<lambda>n v w. (Some EOF, w)\<rparr>)\<rparr>) ex_place
      = (Some (Wrapped ''apply system proxy: '' EOF), r1, en1)
     \<and> en_desktop ex_place ''ProxyServer'' = Some (RegString ''corp:80'')
     \<and> map_option (\<lambda>x. en_desktop (snd (snd x)) ''ProxyServer'') (Runtime_Shutdown 0 [] r1 en1) = Some (Some (RegString ''http=l:1;https=l:1''))"
proof -
  let ?R = "ex_registry_key\<lparr>rk_SetDWord := \<lambda>n v w. (Some EOF, w)\<rparr>"
  let ?r = "ex_windows\<lparr>rt_started := True, rt_httpAddr := ''l:1'', rt_systemProxy := Windows ?R\<rparr>"
  let ?w = "(en_desktop ex_place)(''ProxyServer'' \<mapsto> RegString ''http=l:1;https=l:1'')"
  have f: "rt_started ?r" "\<not> rt_closed ?r" "\<not> rt_hasJournal ?r" "fs_calls (en_fs ex_place) = []" by (simp_all add: ex_windows_facts)
  obtain sn where sn: "sp_Snapshot (rt_systemProxy ?r) (en_desktop ex_place) = (Inr sn, en_desktop ex_place)"
    by (simp add: Windows_def Windows_Snapshot_def ex_registry_key_def)
  have ap: "sp_Apply (rt_systemProxy ?r) \<lparr>ep_HTTP = rt_httpAddr ?r, ep_HTTPS = rt_httpAddr ?r, ep_SOCKS = rt_socksAddr ?r\<rparr> (en_desktop ex_place)
      = (Some EOF, ?w)"
    by (simp add: Windows_def Windows_Apply_def ex_registry_key_def windows_server_def ex_windows_def NewRuntime_def)
  have u: "\<not> errors_Is EOF ErrUnsupported" by (simp add: errors_Is_def ErrUnsupported_def)
  obtain e r1 en1 where st: "start_settings 7 zero_time ?r ex_place = (e, r1, en1)" by (metis prod_cases3)
  obtain e2 r2 en2 where sd: "Runtime_Shutdown 0 [] r1 en1 = Some (e2, r2, en2)"
    by (rule shutdown_at_once)
  note c = failed_apply_not_undone [OF f sn ap u st sd]
  show ?thesis
    by (intro exI [of _ r1] exI [of _ en1]) (use c st sd in \<open>simp add: ex_place_def\<close>)
qed

definition ex_choosing :: "unit Runtime" where
  "ex_choosing = NewRuntime ''d'' False 0 Unsupported ((NewManager None)\<lparr>mg_catalog := [ex_exit ''x'' 0 0]\<rparr>)"

theorem chosen_exit_used_witness:
  "\<exists>r1 qs r2. SetExit ''x'' True ex_choosing = (None, r1)
     \<and> dialer_Dial (\<lambda>q. if or_ExitID q = ''x'' then Inl EOF else Inr ()) ''h'' 80 r1 = (Inr (0, ()), qs, r2)
     \<and> map or_ExitID qs = [''x'', ''auto'']"
proof -
  let ?d = "\<lambda>q. if or_ExitID q = ''x'' then Inl EOF else Inr ()"
  have t: "TrimSpace ''x'' = ''x''" by code_simp
  obtain r1 where r1: "SetExit ''x'' True ex_choosing = (None, r1)" "rt_exitID r1 = ''x''" "rt_fallback r1" "rt_counted r1 = []"
    by (simp add: SetExit_def t ex_choosing_def NewRuntime_def Manager_Catalog_def ex_exit_def Let_def)
  obtain qs r2 where d: "dialer_Dial ?d ''h'' 80 r1 = (Inr (0, ()), qs, r2)" "length qs = 2"
    using r1 by (simp add: dialer_Dial_def dialer_request_def count_stream_def)
  from chosen_exit_used [OF r1(1) d(1)] t d(2) have "map or_ExitID qs = [''x'', ''auto'']"
    by (cases qs; cases "tl qs") auto
  with r1(1) d(1) show ?thesis by (intro exI [of _ r1] exI [of _ qs] exI [of _ r2] conjI)
qed

theorem shutdown_waits_for_streams_witness:
  "\<exists>r :: unit Runtime. rt_counted r = [True, False] \<and> rt_active r = 1
     \<and> (\<forall>en. \<exists>e r1 en1. Runtime_Shutdown 1 [DrainTick, DrainEnded 1, DrainTick] r en = Some (e, r1, en1) \<and> (\<forall>d \<in> set (rt_counted r1). d))"
proof -
  let ?d = "\<lambda>q. Inr () :: unit res"
  obtain x y qs rs r1 r2 where d: "dialer_Dial ?d ''h'' 80 ex_choosing = (x, qs, r1)" "dialer_Dial ?d ''h'' 80 r1 = (y, rs, r2)"
    by (metis prod_cases3)
  let ?r = "counted_Close 0 r2"
  have c: "rt_counted ?r = [True, False]" "\<not> rt_closed ?r"
    using d by (auto simp: dialer_Dial_def count_stream_def Let_def counted_Close_def ex_choosing_def NewRuntime_def)
  have "rt.reach ex_choosing" unfolding ex_choosing_def by (rule rt.reach_init) blast
  from rt.reach_step [OF rt.reach_step [OF rt.reach_step [OF this rt_dial [OF d(1)]] rt_dial [OF d(2)]] rt_end]
  have re: "rt.reach ?r" .
  note w = shutdown_waits_for_streams [OF re c(2), of 1 "[DrainTick, DrainEnded 1, DrainTick]"]
  have a: "rt_active ?r = 1" using w c(1) by simp
  have "\<exists>e r1 en1. Runtime_Shutdown 1 [DrainTick, DrainEnded 1, DrainTick] ?r en = Some (e, r1, en1) \<and> (\<forall>d \<in> set (rt_counted r1). d)" for en
  proof -
    obtain e r1 en1 where "Runtime_Shutdown 1 [DrainTick, DrainEnded 1, DrainTick] ?r en = Some (e, r1, en1)"
      using a c by (cases "restoreProxy ((counted_Close 1 (shutdown_begin ?r))\<lparr>rt_manager := Manager_Close (rt_manager ?r)\<rparr>) en")
        (auto simp: Runtime_Shutdown_def shutdown_begin_def counted_Close_def)
    with w [of en e r1 en1] show ?thesis by auto
  qed
  with a c(1) show ?thesis by blast
qed

end
