(* ===== verification/Shell.thy ===== *)
theory Shell
  imports RuntimeProps
begin

text \<open>
  \<open>src/internal/client/shell.go\<close>: the client's command line. A command changes the runtime and its manager,
  writes lines and may fail. What the terminal, the network and the listeners answer is an argument, the record
  \<open>shell_world\<close>; closing the connection of a session is taken to succeed, so \<open>disconnect\<close> reports no error.
\<close>

section \<open>Words\<close>

text \<open>\<open>strings.Fields\<close> and \<open>strconv.ParseBool\<close>.\<close>

fun fields_from :: "string \<Rightarrow> string \<Rightarrow> string list" where
  "fields_from w [] = (if w = [] then [] else [w])"
| "fields_from w (c # s) =
     (if is_space c then (if w = [] then fields_from [] s else w # fields_from [] s) else fields_from (w @ [c]) s)"

definition Fields :: "string \<Rightarrow> string list" where
  "Fields s = fields_from [] s"

definition ParseBool :: "string \<Rightarrow> bool option" where
  "ParseBool s =
     (if s \<in> {''1'', ''t'', ''T'', ''true'', ''TRUE'', ''True''} then Some True
      else if s \<in> {''0'', ''f'', ''F'', ''false'', ''FALSE'', ''False''} then Some False
      else None)"

section \<open>Commands\<close>

text \<open>The outcomes of the system a command may ask for.\<close>

record shell_world =
  wd_QUIC :: "conn res tls_dial"
  wd_TLS :: "conn tls_dial"
  wd_kdf :: kdf
  wd_tty :: bool
  wd_typed :: "bytes res"
  wd_listenHTTP :: "string res"
  wd_listenSOCKS :: "string res"
  wd_pid :: int
  wd_now :: string

type_synonym 'w shell_state = "'w Runtime \<times> 'w environment"

definition Reconnect_call :: "shell_world \<Rightarrow> Manager \<Rightarrow> error option \<times> Manager" where
  "Reconnect_call W m =
     (let m1 = Reconnect m; a = length (mg_attempts m1) - 1;
          m2 = attempt_install a (attempt_connect (wd_QUIC W) (wd_TLS W) (wd_kdf W) a m1)
      in case mg_attempts m2 ! a of AReturned x \<Rightarrow> (x, m2) | _ \<Rightarrow> (None, m2))"

fun state_text :: "State \<Rightarrow> string" where
  "state_text StateDisconnected = ''disconnected''"
| "state_text StateConnecting = ''connecting''"
| "state_text StateConnected = ''connected''"

definition status_lines :: "'w Runtime \<Rightarrow> string list" where
  "status_lines r =
     (case Manager_State (rt_manager r) of
        (st, transport, lastErr) \<Rightarrow>
          [''state: '' @ state_text st] @ (if transport \<noteq> [] then [''transport: '' @ transport] else [])
          @ [''exit: '' @ rt_exitID r, ''http: '' @ ProxyAddress r]
          @ (if SOCKSAddress r \<noteq> [] then [''socks5: '' @ SOCKSAddress r] else [])
          @ (case lastErr of None \<Rightarrow> [] | Some e \<Rightarrow> [''last error: '' @ error_text e]))"

definition tab :: string where "tab = [CHR 0x09]"

definition exit_line :: "ExitInfo \<Rightarrow> string" where
  "exit_line e = ei_ID e @ tab @ ei_Name e @ tab @ ei_Health e @ tab @ Itoa (ei_LatencyMS e) @ ''ms'' @ tab
     @ Itoa (ei_ActiveConnections e) @ tab @ Itoa (ei_Capacity e)"

definition exits_lines :: "'w Runtime \<Rightarrow> string list" where
  "exits_lines r =
     (let catalog = sort_key ei_ID (Manager_Catalog (rt_manager r)) in
      if catalog = [] then [''no exits available'']
      else (''ID'' @ tab @ ''NAME'' @ tab @ ''HEALTH'' @ tab @ ''LATENCY'' @ tab @ ''LOAD'' @ tab @ ''CAPACITY'') # map exit_line catalog)"

definition help_lines :: "string list" where
  "help_lines = [''connect <S IP>'', ''status'', ''exits'', ''use <exit-id|auto> [fallback]'', ''reconnect'', ''disconnect'', ''help'', ''quit'']"

definition shell_connect :: "shell_world \<Rightarrow> string list \<Rightarrow> 'w shell_state \<Rightarrow> error option \<times> string list \<times> 'w shell_state" where
  "shell_connect W args st =
     (case args of
        [address] \<Rightarrow>
          (case PromptPassphrase (wd_tty W) (wd_typed W) (Inl EOF) False of
             Inl e \<Rightarrow> (Some e, [], st)
           | Inr passphrase \<Rightarrow>
               (case Runtime_Start (wd_QUIC W) (wd_TLS W) (wd_kdf W) address passphrase (wd_listenHTTP W) (wd_listenSOCKS W)
                       (wd_pid W) (wd_now W) (fst st) (snd st) of
                  (Some e, r1, en1) \<Rightarrow> (Some e, [], (r1, en1))
                | (None, r1, en1) \<Rightarrow>
                    (None, [''Authentication success!'', ''HTTP proxy listening on '' @ ProxyAddress r1]
                       @ (if SOCKSAddress r1 \<noteq> [] then [''SOCKS5 proxy listening on '' @ SOCKSAddress r1] else []), (r1, en1))))
      | _ \<Rightarrow> (Some (Msg ''usage: connect <S IP>''), [], st))"

definition shell_use :: "string list \<Rightarrow> 'w Runtime \<Rightarrow> error option \<times> string list \<times> 'w Runtime" where
  "shell_use args r =
     (let set = (\<lambda>i fallback.
            case SetExit i fallback r of
              (Some e, r1) \<Rightarrow> (Some e, [], r1)
            | (None, r1) \<Rightarrow> (None, [''new streams will use '' @ i], r1))
      in case args of
           [i] \<Rightarrow> set i False
         | [i, b] \<Rightarrow>
             (case ParseBool b of
                None \<Rightarrow> (Some (Msg ''fallback must be true or false''), [], r)
              | Some fallback \<Rightarrow> set i fallback)
         | _ \<Rightarrow> (Some (Msg ''usage: use <exit-id|auto> [fallback]''), [], r))"

text \<open>\<open>execute\<close>: whether to quit, the error, the lines written, the new state.\<close>

definition execute :: "shell_world \<Rightarrow> string list \<Rightarrow> 'w shell_state \<Rightarrow> bool \<times> error option \<times> string list \<times> 'w shell_state" where
  "execute W words st =
     (case words of
        [] \<Rightarrow> (False, None, [], st)
      | c # args \<Rightarrow>
          let command = ToLower c; r = fst st; en = snd st in
          if command = ''connect'' then (case shell_connect W args st of (e, ls, st1) \<Rightarrow> (False, e, ls, st1))
          else if command = ''status'' then (False, None, status_lines r, st)
          else if command = ''exits'' then (False, None, exits_lines r, st)
          else if command = ''use'' then (case shell_use args r of (e, ls, r1) \<Rightarrow> (False, e, ls, (r1, en)))
          else if command = ''reconnect'' then
            (case Reconnect_call W (rt_manager r) of (e, m1) \<Rightarrow> (False, e, [], (r\<lparr>rt_manager := m1\<rparr>, en)))
          else if command = ''disconnect'' then (False, None, [], (r\<lparr>rt_manager := Manager_Close (rt_manager r)\<rparr>, en))
          else if command = ''help'' then (False, None, help_lines, st)
          else if command = ''quit'' \<or> command = ''exit'' then (True, None, [], st)
          else (False, Some (Msg (''unknown command '' @ quoted c @ ''; use help'')), [], st))"

text \<open>
  \<open>Run\<close> over the lines of its input, with the outcomes for each command, until \<open>quit\<close> or the end. The error
  compared with \<open>io.EOF\<close> after a command is the command's own, so a prompt that meets the end of the terminal stops
  the shell as well.
\<close>

fun shell_Run :: "(shell_world \<times> string) list \<Rightarrow> 'w shell_state \<Rightarrow> string list \<times> 'w shell_state" where
  "shell_Run [] st = ([], st)"
| "shell_Run ((W, line) # ls) st =
     (let words = Fields (TrimSpace line) in
      if words = [] then shell_Run ls st
      else case execute W words st of
        (quit, e, out, st1) \<Rightarrow>
          let out1 = out @ (case e of None \<Rightarrow> [] | Some x \<Rightarrow> [''error: '' @ error_text x]) in
          if quit \<or> e = Some EOF then (out1, st1) else (case shell_Run ls st1 of (out2, st2) \<Rightarrow> (out1 @ out2, st2)))"

section \<open>Properties\<close>

lemma closed_Reconnect: "mg_closed m \<Longrightarrow> Reconnect_call W m = (Some (Msg ''client manager is closed''), Reconnect m) \<and> mg_closed (Reconnect m) \<and> mg_session (Reconnect m) = mg_session m"
  by (simp add: Reconnect_call_def Reconnect_def attempt_connect_def attempt_install_def Let_def nth_append)

lemma closed_Connect:
  assumes "mg_closed m" and "Connect_call Q T kdf a p m = (e, m1)"
  shows "e \<noteq> None \<and> mg_closed m1 \<and> mg_session m1 = mg_session m"
  using assms
  by (auto simp: Connect_call_def Connect_def Reconnect_def attempt_connect_def attempt_install_def Let_def nth_append
      split: sum.splits if_splits)

lemma closed_Start:
  assumes "mg_closed (rt_manager r)" and "mg_session (rt_manager r) = None"
    and "Runtime_Start Q T kdf a p h k pid now r en = (e, r1, en1)"
  shows "e \<noteq> None \<and> mg_closed (rt_manager r1) \<and> mg_session (rt_manager r1) = None"
proof -
  obtain x m1 where c: "Connect_call Q T kdf a p (rt_manager r) = (x, m1)" by fastforce
  with closed_Connect [OF assms(1) c] obtain y where y: "Connect_call Q T kdf a p (rt_manager r) = (Some y, m1)" "mg_closed m1" "mg_session m1 = None"
    using assms(2) by auto
  show ?thesis using assms y by (auto simp: Runtime_Start_def markStopped_def split: if_splits prod.splits option.splits)
qed

lemma closed_connect:
  assumes "mg_closed (rt_manager (fst st))" and "mg_session (rt_manager (fst st)) = None"
  shows "fst (shell_connect W [address] st) \<noteq> None"
proof (cases "PromptPassphrase (wd_tty W) (wd_typed W) (Inl EOF) False")
  case (Inr p)
  obtain e r1 en1 where s: "Runtime_Start (wd_QUIC W) (wd_TLS W) (wd_kdf W) address p (wd_listenHTTP W) (wd_listenSOCKS W)
      (wd_pid W) (wd_now W) (fst st) (snd st) = (e, r1, en1)"
    by (metis prod_cases3)
  from closed_Start [OF assms s] obtain x where "e = Some x" by auto
  with s Inr show ?thesis by (simp add: shell_connect_def)
qed (simp add: shell_connect_def)

lemma lower_connect:
  "ToLower ''reconnect'' = ''reconnect''" "ToLower ''connect'' = ''connect''" "ToLower ''disconnect'' = ''disconnect''"
  by code_simp+

lemma closed_execute:
  assumes "mg_closed (rt_manager (fst st))" and "mg_session (rt_manager (fst st)) = None" and "execute W fs st = (q, e, out, st1)"
  shows "mg_closed (rt_manager (fst st1)) \<and> mg_session (rt_manager (fst st1)) = None"
proof (cases fs)
  case (Cons c args)
  have co: "mg_closed (rt_manager (fst st2)) \<and> mg_session (rt_manager (fst st2)) = None" if "shell_connect W args st = (x, ls, st2)" for x ls st2
    using that assms(1,2) closed_Start [of "fst st"]
    by (auto simp: shell_connect_def split: list.splits sum.splits prod.splits option.splits)
  have us: "rt_manager r1 = rt_manager r" if "shell_use as r = (x, ls, r1)" for as r x ls and r1 :: "'a Runtime"
    using that by (auto simp: shell_use_def SetExit_def Let_def split: list.splits prod.splits option.splits if_splits)
  have "Reconnect_call W (rt_manager (fst st)) = (Some (Msg ''client manager is closed''), Reconnect (rt_manager (fst st)))"
    "mg_closed (Reconnect (rt_manager (fst st)))" "mg_session (Reconnect (rt_manager (fst st))) = None"
    using closed_Reconnect [OF assms(1)] assms(2) by auto
  moreover have "mg_closed (Manager_Close m)" "mg_session (Manager_Close m) = None" for m
    by (simp_all add: Manager_Close_def Let_def split: option.splits)
  ultimately show ?thesis
    using assms co us Cons by (auto simp: execute_def Let_def split: if_splits prod.splits)
qed (use assms in \<open>simp add: execute_def\<close>)

text \<open>
  C0 (shell, disconnect). \<open>disconnect\<close> ends the client for good: whatever is typed after it and however the network
  answers, the manager stays closed without a session, and \<open>connect\<close> and \<open>reconnect\<close> report errors.
\<close>

theorem disconnect_is_final:
  assumes "ToLower c = ''disconnect''" and "execute W (c # args) st = (q, e, out, st1)" and "shell_Run lines st1 = (out2, st2)"
  shows "\<not> q \<and> e = None \<and> mg_closed (rt_manager (fst st2)) \<and> mg_session (rt_manager (fst st2)) = None
    \<and> fst (snd (execute W2 [''reconnect''] st2)) = Some (Msg ''client manager is closed'')
    \<and> fst (snd (execute W2 [''connect'', address] st2)) \<noteq> None"
proof -
  have q: "\<not> q" "e = None" "st1 = ((fst st)\<lparr>rt_manager := Manager_Close (rt_manager (fst st))\<rparr>, snd st)"
    using assms(1,2) by (auto simp: execute_def Let_def)
  then have "mg_closed (rt_manager (fst st1)) \<and> mg_session (rt_manager (fst st1)) = None"
    by (simp add: Manager_Close_def Let_def split: option.splits)
  then have s2: "mg_closed (rt_manager (fst st2)) \<and> mg_session (rt_manager (fst st2)) = None"
    using assms(3)
  proof (induction lines st1 arbitrary: out2 st2 rule: shell_Run.induct)
    case (2 W line ls st)
    then show ?case using closed_execute [of st W] by (auto simp: Let_def split: if_splits prod.splits)
  qed auto
  have "fst (snd (execute W2 [''reconnect''] st2)) = Some (Msg ''client manager is closed'')"
    using closed_Reconnect [of "rt_manager (fst st2)" W2] s2 by (simp add: execute_def lower_connect Let_def)
  moreover have "fst (snd (execute W2 [''connect'', address] st2)) \<noteq> None"
    using closed_connect [OF conjunct1 [OF s2] conjunct2 [OF s2]]
    by (simp add: execute_def lower_connect Let_def split: prod.splits)
  ultimately show ?thesis using q s2 by simp
qed

definition ex_world :: shell_world where
  "ex_world = \<lparr>wd_QUIC = plain_dial [] (Inl EOF), wd_TLS = plain_dial [[1]] ex_server_side, wd_kdf = ex_kdf, wd_tty = True,
     wd_typed = Inr (bytes_of ''pw''), wd_listenHTTP = Inr ''l:1'', wd_listenSOCKS = Inr ''l:2'', wd_pid = 7, wd_now = zero_time\<rparr>"

theorem disconnect_is_final_witness:
  "\<exists>st1 out2 st2. execute ex_world [''disconnect''] (ex_windows, ex_place) = (False, None, [], st1)
    \<and> shell_Run [(ex_world, ''connect s:1''), (ex_world, ''reconnect'')] st1 = (out2, st2)
    \<and> mg_closed (rt_manager (fst st2))
    \<and> fst (snd (execute ex_world [''reconnect''] st2)) = Some (Msg ''client manager is closed'')"
proof -
  obtain st1 where x: "execute ex_world [''disconnect''] (ex_windows, ex_place) = (False, None, [], st1)"
    by (simp add: execute_def lower_connect Let_def)
  obtain out2 st2 where r: "shell_Run [(ex_world, ''connect s:1''), (ex_world, ''reconnect'')] st1 = (out2, st2)" by (rule prod.exhaust)
  from disconnect_is_final [OF lower_connect(3) x r, of ex_world] x r show ?thesis by blast
qed

end
