(* ===== verification/Logging.thy ===== *)
theory Logging
  imports Config "HOL-Library.Sublist"
begin

text \<open>
  \<open>src/internal/logging/logging.go\<close>: the log file that is rotated when it would grow past its limit. What
  it keeps is compared with a list of files of which the oldest is dropped.
\<close>

section \<open>The writer\<close>

record rotatingWriter =
  rw_path :: string
  rw_maxBytes :: int
  rw_keep :: nat
  rw_open :: bool
  rw_size :: int

text \<open>\<open>rw_open\<close> says whether the file handle is open; it refers to the file under \<open>rw_path\<close>.\<close>

definition log_name :: "string \<Rightarrow> nat \<Rightarrow> string" where
  "log_name path i = (if i = 0 then path else path @ ''.'' @ show_nat i)"

text \<open>\<open>os.OpenFile\<close> for appending, \<open>Stat\<close>, \<open>File.Write\<close> and \<open>File.Close\<close>.\<close>

definition os_OpenAppend :: "string \<Rightarrow> fs \<Rightarrow> error option \<times> fs" where
  "os_OpenAppend p s =
     (case next_call s of
        (Some (n, e), s1) \<Rightarrow> (Some e, s1)
      | (None, s1) \<Rightarrow>
          (None, case fs_files s p of
                   None \<Rightarrow> s1\<lparr>fs_files := (fs_files s1)(p \<mapsto> \<lparr>fl_data = [], fl_mode = mode_600\<rparr>)\<rparr> | Some f \<Rightarrow> s1))"

definition os_Stat_size :: "string \<Rightarrow> fs \<Rightarrow> int res \<times> fs" where
  "os_Stat_size p s =
     (case next_call s of
        (Some (n, e), s1) \<Rightarrow> (Inl e, s1)
      | (None, s1) \<Rightarrow> (case fs_files s p of None \<Rightarrow> (Inl ErrNotExist, s1) | Some f \<Rightarrow> (Inr (int (length (fl_data f))), s1)))"

definition os_Append :: "string \<Rightarrow> bytes \<Rightarrow> fs \<Rightarrow> nat \<times> error option \<times> fs" where
  "os_Append p d s =
     (case next_call s of
        (r, s1) \<Rightarrow>
          let put = (\<lambda>x. case fs_files s1 p of None \<Rightarrow> s1 | Some f \<Rightarrow> s1\<lparr>fs_files := (fs_files s1)(p \<mapsto> f\<lparr>fl_data := fl_data f @ x\<rparr>)\<rparr>) in
          (case r of
             None \<Rightarrow> (length d, None, put d)
           | Some (n, e) \<Rightarrow> (min n (length d), Some e, put (take n d))))"

definition rw_open_file :: "rotatingWriter \<Rightarrow> fs \<Rightarrow> error option \<times> rotatingWriter \<times> fs" where
  "rw_open_file w s =
     (case os_MkdirAll (rw_path w) s of
        (Some e, s1) \<Rightarrow> (Some e, w, s1)
      | (None, s1) \<Rightarrow>
          (case os_OpenAppend (rw_path w) s1 of
             (Some e, s2) \<Rightarrow> (Some e, w, s2)
           | (None, s2) \<Rightarrow>
               (case os_Stat_size (rw_path w) s2 of
                  (Inl e, s3) \<Rightarrow> (Some e, w, s3)
                | (Inr n, s3) \<Rightarrow> (None, w\<lparr>rw_open := True, rw_size := n\<rparr>, s3))))"

definition newRotatingWriter :: "string \<Rightarrow> int \<Rightarrow> nat \<Rightarrow> fs \<Rightarrow> rotatingWriter res \<times> fs" where
  "newRotatingWriter path maxBytes keep s =
     (case rw_open_file \<lparr>rw_path = path, rw_maxBytes = maxBytes, rw_keep = keep, rw_open = False, rw_size = 0\<rparr> s of
        (Some e, _, s1) \<Rightarrow> (Inl e, s1)
      | (None, w, s1) \<Rightarrow> (Inr w, s1))"

text \<open>The loop of \<open>rotate\<close> for \<open>i = n\<close> down to 1; a file that is not there is no error.\<close>

fun rotate_loop :: "string \<Rightarrow> nat \<Rightarrow> fs \<Rightarrow> error option \<times> fs" where
  "rotate_loop path 0 s = (None, s)"
| "rotate_loop path (Suc n) s =
     (case os_Rename (log_name path (Suc n)) (log_name path (Suc (Suc n))) s of
        (None, s1) \<Rightarrow> rotate_loop path n s1
      | (Some e, s1) \<Rightarrow> if errors_Is e ErrNotExist then rotate_loop path n s1 else (Some e, s1))"

definition rotate_log :: "rotatingWriter \<Rightarrow> fs \<Rightarrow> error option \<times> rotatingWriter \<times> fs" where
  "rotate_log w s =
     (if \<not> rw_open w then (Some ErrClosed, w, s)
      else case next_call s of
        (Some (n, e), s1) \<Rightarrow> (Some e, w\<lparr>rw_open := False\<rparr>, s1)
      | (None, s1) \<Rightarrow>
          let w1 = w\<lparr>rw_open := False\<rparr> in
          (case rotate_loop (rw_path w) (rw_keep w - 1) s1 of
             (Some e, s2) \<Rightarrow> (Some e, w1, s2)
           | (None, s2) \<Rightarrow>
               (case os_Rename (rw_path w) (log_name (rw_path w) 1) s2 of
                  (None, s3) \<Rightarrow> rw_open_file w1 s3
                | (Some e, s3) \<Rightarrow> if errors_Is e ErrNotExist then rw_open_file w1 s3 else (Some e, w1, s3))))"

definition rw_append :: "bytes \<Rightarrow> rotatingWriter \<Rightarrow> fs \<Rightarrow> nat \<times> error option \<times> rotatingWriter \<times> fs" where
  "rw_append p w s =
     (if \<not> rw_open w then (0, Some ErrClosed, w, s)
      else case os_Append (rw_path w) p s of (n, e, s1) \<Rightarrow> (n, e, w\<lparr>rw_size := rw_size w + int n\<rparr>, s1))"

definition rw_Write :: "bytes \<Rightarrow> rotatingWriter \<Rightarrow> fs \<Rightarrow> nat \<times> error option \<times> rotatingWriter \<times> fs" where
  "rw_Write p w s =
     (if rw_size w + int (length p) > rw_maxBytes w then
        (case rotate_log w s of
           (Some e, w1, s1) \<Rightarrow> (0, Some e, w1, s1)
         | (None, w1, s1) \<Rightarrow> rw_append p w1 s1)
      else rw_append p w s)"

definition rw_Close :: "rotatingWriter \<Rightarrow> fs \<Rightarrow> error option \<times> rotatingWriter \<times> fs" where
  "rw_Close w s =
     (if \<not> rw_open w then (Some ErrClosed, w, s)
      else case next_call s of
        (Some (n, e), s1) \<Rightarrow> (Some e, w\<lparr>rw_open := False\<rparr>, s1)
      | (None, s1) \<Rightarrow> (None, w\<lparr>rw_open := False\<rparr>, s1))"

text \<open>\<open>logging.New\<close>, by the writers a record goes to.\<close>

datatype log_writer = Stderr | LogFile rotatingWriter | Discard

definition logging_New :: "bool \<Rightarrow> string \<Rightarrow> bool \<Rightarrow> fs \<Rightarrow> log_writer list res \<times> fs" where
  "logging_New windows dataDir console s =
     (let err = (if console \<or> \<not> windows then [Stderr] else []) in
      if dataDir = [] then (Inr (if err = [] then [Discard] else err), s)
      else case newRotatingWriter (path_Join dataDir ''lnproxy.log'') (5 * 2 ^ 20) 3 s of
        (Inl e, s1) \<Rightarrow> (Inl e, s1)
      | (Inr w, s1) \<Rightarrow> (Inr (err @ [LogFile w]), s1))"

section \<open>Names\<close>

lemma log_name_inj: "log_name p i = log_name p j \<longleftrightarrow> i = j"
proof -
  have "i = j" if "show_nat i = show_nat j" for i j using that read_show_nat by metis
  then show ?thesis by (auto simp: log_name_def)
qed

lemmas log_simps = log_name_inj os_Rename_def os_Remove_def os_MkdirAll_def next_call_def

section \<open>Rotation when every call succeeds\<close>

abbreviation log_at :: "rotatingWriter \<Rightarrow> fs \<Rightarrow> nat \<Rightarrow> fs_file option" where
  "log_at w s i \<equiv> fs_files s (log_name (rw_path w) i)"

lemma rotate_loop_files:
  assumes "fs_calls s = []" and "\<And>j. 1 \<le> j \<Longrightarrow> j \<le> n \<Longrightarrow> fs_files s (log_name p j) = None \<Longrightarrow> fs_files s (log_name p (Suc j)) = None"
  shows "\<exists>s'. rotate_loop p n s = (None, s') \<and> fs_calls s' = [] \<and> (\<forall>j. 1 \<le> j \<and> j \<le> n \<longrightarrow> fs_files s' (log_name p (Suc j)) = fs_files s (log_name p j))
    \<and> (0 < n \<longrightarrow> fs_files s' (log_name p 1) = None) \<and> (\<forall>j. j = 0 \<or> Suc n < j \<longrightarrow> fs_files s' (log_name p j) = fs_files s (log_name p j))
    \<and> (n = 0 \<longrightarrow> s' = s)"
  using assms
proof (induction n arbitrary: s)
  case (Suc n)
  obtain x s1 where r: "os_Rename (log_name p (Suc n)) (log_name p (Suc (Suc n))) s = (x, s1)" by fastforce
  have x: "x = None \<or> x = Some ErrNotExist" and c: "fs_calls s1 = []"
    and f: "\<And>j. fs_files s1 (log_name p j) = (if j = Suc (Suc n) then fs_files s (log_name p (Suc n))
        else if j = Suc n then None else fs_files s (log_name p j))"
    using r Suc.prems(1) Suc.prems(2) [of "Suc n"] by (auto simp: log_simps split: option.splits)
  have "\<exists>s'. rotate_loop p n s1 = (None, s') \<and> fs_calls s' = []
      \<and> (\<forall>j. 1 \<le> j \<and> j \<le> n \<longrightarrow> fs_files s' (log_name p (Suc j)) = fs_files s1 (log_name p j))
      \<and> (0 < n \<longrightarrow> fs_files s' (log_name p 1) = None) \<and> (\<forall>j. j = 0 \<or> Suc n < j \<longrightarrow> fs_files s' (log_name p j) = fs_files s1 (log_name p j))
      \<and> (n = 0 \<longrightarrow> s' = s1)"
    by (rule Suc.IH [OF c]) (use Suc.prems(2) f in \<open>auto split: if_splits\<close>)
  then obtain s' where s': "rotate_loop p n s1 = (None, s')" "fs_calls s' = []"
    "\<And>j. 1 \<le> j \<Longrightarrow> j \<le> n \<Longrightarrow> fs_files s' (log_name p (Suc j)) = fs_files s1 (log_name p j)"
    "0 < n \<Longrightarrow> fs_files s' (log_name p 1) = None" "\<And>j. j = 0 \<or> Suc n < j \<Longrightarrow> fs_files s' (log_name p j) = fs_files s1 (log_name p j)"
    "n = 0 \<Longrightarrow> s' = s1" by blast
  have "rotate_loop p (Suc n) s = (None, s')" using r x s'(1) by auto
  moreover have "fs_files s' (log_name p (Suc j)) = fs_files s (log_name p j)" if "1 \<le> j" "j \<le> Suc n" for j
    using that s'(3) [of j] s'(5) [of "Suc j"] f by (cases "j = Suc n") auto
  moreover have "fs_files s' (log_name p 1) = None" using s'(4,6) f by (cases n) auto
  ultimately show ?case using s'(2,5) f by auto
qed simp

definition log_ok :: "rotatingWriter \<Rightarrow> fs \<Rightarrow> bool" where
  "log_ok w s \<longleftrightarrow>
     rw_open w \<and> 1 \<le> rw_keep w \<and> fs_calls s = [] \<and> (\<exists>f. log_at w s 0 = Some f \<and> rw_size w = int (length (fl_data f))) \<and>
     (\<forall>j. 1 \<le> j \<and> j < rw_keep w \<and> log_at w s j = None \<longrightarrow> log_at w s (Suc j) = None)"

definition log_data :: "fs_file option \<Rightarrow> bytes" where
  "log_data x = (case x of None \<Rightarrow> [] | Some f \<Rightarrow> fl_data f)"

text \<open>The files from the newest to the oldest, and the same as a list of which the oldest is dropped.\<close>

definition log_files :: "rotatingWriter \<Rightarrow> fs \<Rightarrow> bytes list" where
  "log_files w s = map (\<lambda>i. log_data (log_at w s i)) [0..<Suc (rw_keep w)]"

definition log_spec :: "int \<Rightarrow> bytes \<Rightarrow> bytes list \<Rightarrow> bytes list" where
  "log_spec maxBytes p fs = (if int (length (hd fs) + length p) > maxBytes then p # butlast fs else (hd fs @ p) # tl fs)"

lemma log_name_0 [simp]: "log_name p 0 = p" by (simp add: log_name_def)

lemma rotate_log_files:
  assumes "log_ok w s"
  shows "\<exists>s'. rotate_log w s = (None, w\<lparr>rw_size := 0\<rparr>, s') \<and> fs_calls s' = []
    \<and> (\<exists>m. log_at w s' 0 = Some \<lparr>fl_data = [], fl_mode = m\<rparr>) \<and> (\<forall>i < rw_keep w. log_at w s' (Suc i) = log_at w s i)"
proof -
  let ?p = "rw_path w"
  obtain f where f: "rw_open w" "1 \<le> rw_keep w" "fs_calls s = []" "log_at w s 0 = Some f"
    and pre: "\<And>j. 1 \<le> j \<Longrightarrow> j < rw_keep w \<Longrightarrow> log_at w s j = None \<Longrightarrow> log_at w s (Suc j) = None"
    using assms unfolding log_ok_def by blast
  obtain s1 where s1: "rotate_loop ?p (rw_keep w - 1) s = (None, s1)" "fs_calls s1 = []"
    "\<And>j. 1 \<le> j \<Longrightarrow> j \<le> rw_keep w - 1 \<Longrightarrow> fs_files s1 (log_name ?p (Suc j)) = fs_files s (log_name ?p j)"
    "fs_files s1 ?p = fs_files s ?p"
  proof -
    have "\<exists>s'. rotate_loop ?p (rw_keep w - 1) s = (None, s') \<and> fs_calls s' = []
        \<and> (\<forall>j. 1 \<le> j \<and> j \<le> rw_keep w - 1 \<longrightarrow> log_at w s' (Suc j) = log_at w s j)
        \<and> (0 < rw_keep w - 1 \<longrightarrow> log_at w s' 1 = None)
        \<and> (\<forall>j. j = 0 \<or> Suc (rw_keep w - 1) < j \<longrightarrow> log_at w s' j = log_at w s j) \<and> (rw_keep w - 1 = 0 \<longrightarrow> s' = s)"
      by (rule rotate_loop_files [OF f(3)]) (use pre f(2) in auto)
    then obtain s' where "rotate_loop ?p (rw_keep w - 1) s = (None, s')" "fs_calls s' = []"
      "\<forall>j. 1 \<le> j \<and> j \<le> rw_keep w - 1 \<longrightarrow> log_at w s' (Suc j) = log_at w s j" "log_at w s' 0 = log_at w s 0" by blast
    with that [of s'] show thesis by simp
  qed
  define s2 where "s2 = s1\<lparr>fs_files := (fs_files s1)(?p := None, log_name ?p 1 \<mapsto> f)\<rparr>"
  have rn: "os_Rename ?p (log_name ?p 1) s1 = (None, s2)" using s1(2,4) f(4) by (simp add: os_Rename_def next_call_def s2_def)
  have n: "log_name ?p (Suc i) \<noteq> ?p" "?p \<noteq> log_name ?p (Suc i)" for i using log_name_inj [of ?p "Suc i" 0] by auto
  define s3 where "s3 = s2\<lparr>fs_files := (fs_files s2)(?p \<mapsto> \<lparr>fl_data = [], fl_mode = mode_600\<rparr>)\<rparr>"
  have "rotate_log w s = (None, w\<lparr>rw_size := 0\<rparr>, s3)"
    using f(1,3) s1(1,2) rn n(2) [of 0]
    by (simp add: rotate_log_def rw_open_file_def os_OpenAppend_def os_Stat_size_def os_MkdirAll_def next_call_def Let_def s2_def s3_def)
  moreover have "log_at w s3 (Suc i) = log_at w s i" if "i < rw_keep w" for i
  proof (cases i)
    case (Suc j)
    then show ?thesis using s1(3) [of i] that n log_name_inj [of ?p "Suc i" 1] by (auto simp: s3_def s2_def)
  qed (use f(4) n in \<open>simp add: s3_def s2_def\<close>)
  ultimately show ?thesis using s1(2) by (auto simp: s3_def s2_def)
qed

lemma rw_append_files:
  assumes "rw_open w" and "fs_calls s = []" and "log_at w s 0 = Some f"
  shows "rw_append p w s = (length p, None, w\<lparr>rw_size := rw_size w + int (length p)\<rparr>,
    s\<lparr>fs_files := (fs_files s)(rw_path w \<mapsto> f\<lparr>fl_data := fl_data f @ p\<rparr>)\<rparr>)"
  using assms by (simp add: rw_append_def os_Append_def next_call_def Let_def)

lemma log_files_split: "log_files w s = log_data (log_at w s 0) # map (\<lambda>i. log_data (log_at w s (Suc i))) [0..<rw_keep w]"
  by (simp only: log_files_def upt_conv_Cons [OF zero_less_Suc] map_Suc_upt [symmetric] list.map map_map) (simp add: comp_def)

text \<open>A write refines the abstract log.\<close>

lemma rw_Write_refines:
  assumes "log_ok w s"
  shows "\<exists>w' s'. rw_Write p w s = (length p, None, w', s') \<and> log_ok w' s' \<and> log_files w' s' = log_spec (rw_maxBytes w) p (log_files w s)
    \<and> rw_maxBytes w' = rw_maxBytes w \<and> rw_keep w' = rw_keep w"
proof -
  obtain f where f: "rw_open w" "1 \<le> rw_keep w" "fs_calls s = []" "log_at w s 0 = Some f" "rw_size w = int (length (fl_data f))"
    and pre: "\<And>j. 1 \<le> j \<Longrightarrow> j < rw_keep w \<Longrightarrow> log_at w s j = None \<Longrightarrow> log_at w s (Suc j) = None"
    using assms unfolding log_ok_def by blast
  have n: "log_name (rw_path w) (Suc i) \<noteq> rw_path w" for i using log_name_inj [of "rw_path w" "Suc i" 0] by auto
  show ?thesis
  proof (cases "rw_size w + int (length p) > rw_maxBytes w")
    case True
    obtain s1 m where s1: "rotate_log w s = (None, w\<lparr>rw_size := 0\<rparr>, s1)" "fs_calls s1 = []"
      "log_at w s1 0 = Some \<lparr>fl_data = [], fl_mode = m\<rparr>" "\<And>i. i < rw_keep w \<Longrightarrow> log_at w s1 (Suc i) = log_at w s i"
      using rotate_log_files [OF assms] by blast
    define s2 where "s2 = s1\<lparr>fs_files := (fs_files s1)(rw_path w \<mapsto> \<lparr>fl_data = p, fl_mode = m\<rparr>)\<rparr>"
    let ?w = "w\<lparr>rw_size := int (length p)\<rparr>"
    have "rw_append p (w\<lparr>rw_size := 0\<rparr>) s1 = (length p, None, ?w, s2)"
      using rw_append_files [of "w\<lparr>rw_size := 0\<rparr>" s1] f(1) s1(2,3) by (simp add: s2_def)
    then have wr: "rw_Write p w s = (length p, None, ?w, s2)" using True s1(1) by (simp add: rw_Write_def)
    have at: "log_at w s2 (Suc i) = log_at w s i" if "i < rw_keep w" for i using s1(4) [OF that] n by (simp add: s2_def)
    have "log_at w s2 (Suc j) = None" if j: "1 \<le> j" "j < rw_keep w" "log_at w s2 j = None" for j
    proof -
      obtain i where i: "j = Suc i" using j(1) by (cases j) auto
      with at [of i] j have "log_at w s i = None" by simp
      with f(4) pre [of i] i j show ?thesis by (cases i) (auto simp: at)
    qed
    then have ok: "log_ok ?w s2" using f(1,2) s1(2) by (simp add: log_ok_def s2_def)
    have "log_files ?w s2 = p # map (\<lambda>i. log_data (log_at w s i)) [0..<rw_keep w]"
      unfolding log_files_split using at by (simp add: s2_def log_data_def)
    moreover have "butlast (log_files w s) = map (\<lambda>i. log_data (log_at w s i)) [0..<rw_keep w]"
      by (simp add: log_files_def map_butlast [symmetric])
    moreover have "hd (log_files w s) = fl_data f" using f(4) by (simp add: log_files_split log_data_def)
    ultimately have "log_files ?w s2 = log_spec (rw_maxBytes w) p (log_files w s)"
      using True f(5) by (simp add: log_spec_def)
    with wr ok show ?thesis by simp
  next
    case False
    let ?s = "s\<lparr>fs_files := (fs_files s)(rw_path w \<mapsto> f\<lparr>fl_data := fl_data f @ p\<rparr>)\<rparr>"
    let ?w = "w\<lparr>rw_size := rw_size w + int (length p)\<rparr>"
    have "rw_Write p w s = (length p, None, ?w, ?s)" using False rw_append_files [OF f(1,3,4)] by (simp add: rw_Write_def)
    moreover have "log_name (rw_path w) j \<noteq> rw_path w" if "1 \<le> j" for j using that n [of "j - 1"] by simp
    then have "log_ok ?w ?s" using f pre by (auto simp: log_ok_def)
    moreover have "log_files ?w ?s = log_spec (rw_maxBytes w) p (log_files w s)"
      using False f(4,5) n by (simp add: log_files_split log_spec_def log_data_def)
    ultimately show ?thesis by simp
  qed
qed

fun rw_writes :: "bytes list \<Rightarrow> rotatingWriter \<Rightarrow> fs \<Rightarrow> error option \<times> rotatingWriter \<times> fs" where
  "rw_writes [] w s = (None, w, s)"
| "rw_writes (p # ps) w s =
     (case rw_Write p w s of (n, Some e, w1, s1) \<Rightarrow> (Some e, w1, s1) | (n, None, w1, s1) \<Rightarrow> rw_writes ps w1 s1)"

lemma log_spec_suffix: "fs \<noteq> [] \<Longrightarrow> suffix (concat (rev (log_spec m p fs))) (concat (rev fs) @ p)"
proof -
  assume "fs \<noteq> []"
  then have "concat (rev fs) = last fs @ concat (rev (butlast fs))" by (metis append_butlast_last_id concat.simps(2) rev_append rev_singleton_conv append_Cons append_Nil rev.simps(2) rev_rev_ident)
  moreover have "concat (rev fs) = concat (rev (tl fs)) @ hd fs" using \<open>fs \<noteq> []\<close> by (cases fs) auto
  ultimately show ?thesis by (auto simp: log_spec_def suffix_def)
qed

lemma log_spec_bounds:
  "fs \<noteq> [] \<Longrightarrow> int (length p) \<le> m \<Longrightarrow> (\<forall>f \<in> set fs. int (length f) \<le> m) \<Longrightarrow> (\<forall>f \<in> set (log_spec m p fs). int (length f) \<le> m)"
  by (auto simp: log_spec_def dest: in_set_butlastD list.set_sel(2))

section \<open>Properties\<close>


text \<open>
  Remark (log, failure). A rotation that fails, for whatever reason, leaves the writer with a closed file, and no later
  write tries to open it again: from then on every record is refused.
\<close>

theorem failed_rotation_ends_log:
  assumes "rotate_log w s = (Some e, w1, s1)"
  shows "rw_Write p w1 t = (0, Some ErrClosed, w1, t)"
proof -
  have o: "rw_open_file v x = (Some e, w', s') \<Longrightarrow> w' = v" for v x w' s'
    by (auto simp: rw_open_file_def split: prod.splits option.splits sum.splits)
  have "\<not> rw_open w1"
    using assms by (auto simp: rotate_log_def Let_def split: if_splits prod.splits option.splits dest: o)
  then show ?thesis by (simp add: rw_Write_def rotate_log_def rw_append_def)
qed

section \<open>Examples\<close>

definition ex_log :: "rotatingWriter \<times> fs" where
  "ex_log = (\<lparr>rw_path = ''l'', rw_maxBytes = 4, rw_keep = 1, rw_open = True, rw_size = 3\<rparr>,
     \<lparr>fs_files = [''l'' \<mapsto> \<lparr>fl_data = [1, 2, 3], fl_mode = mode_600\<rparr>], fs_calls = []\<rparr>)"

lemma ex_log_ok: "log_ok (fst ex_log) (snd ex_log)" "log_files (fst ex_log) (snd ex_log) = [[1, 2, 3], []]"
proof -
  have "log_name ''l'' (Suc 0) \<noteq> ''l''" using log_name_inj [of "''l''" 1 0] by simp
  then show "log_ok (fst ex_log) (snd ex_log)" "log_files (fst ex_log) (snd ex_log) = [[1, 2, 3], []]"
    by (simp_all add: log_ok_def ex_log_def log_files_split log_data_def)
qed


theorem failed_rotation_ends_log_witness:
  "\<exists>w1 s1. rotate_log (fst ex_log) ((snd ex_log)\<lparr>fs_calls := [Some (0, EOF)]\<rparr>) = (Some EOF, w1, s1)
     \<and> rw_Write [1] w1 s1 = (0, Some ErrClosed, w1, s1)"
proof -
  obtain w1 s1 where r: "rotate_log (fst ex_log) ((snd ex_log)\<lparr>fs_calls := [Some (0, EOF)]\<rparr>) = (Some EOF, w1, s1)"
    by (simp add: rotate_log_def ex_log_def next_call_def)
  from failed_rotation_ends_log [OF r] r show ?thesis by blast
qed

end
