(* ===== verification/Bundle.thy ===== *)
theory Bundle
  imports AuthProps Config Server
begin

text \<open>
  Preparing and starting a node: \<open>src/internal/initnode/initnode.go\<close>, \<open>src/internal/silentserver/silentserver.go\<close>,
  the certificate files of \<open>src/internal/config/config.go\<close> and the configuration part of the commands
  \<open>src/cmd/lnproxy-init/main.go\<close> and \<open>src/cmd/lnproxy-node/main.go\<close>. The certificate and key themselves, the
  host's name and directories and what the user types are arguments.
\<close>

section \<open>Certificate files\<close>

definition mode_644 :: nat where "mode_644 = 6 * 8 * 8 + 4 * 8 + 4"

text \<open>\<open>generated\<close> is the PEM text of the certificate and of its key.\<close>

definition GenerateCertificate :: "(bytes \<times> bytes) res \<Rightarrow> bool \<Rightarrow> string \<Rightarrow> string \<Rightarrow> fs \<Rightarrow> error option \<times> fs" where
  "GenerateCertificate generated windows certPath keyPath s =
     (case generated of
        Inl e \<Rightarrow> (Some e, s)
      | Inr (certPEM, keyPEM) \<Rightarrow>
          (case os_MkdirAll certPath s of
             (Some e, s1) \<Rightarrow> (Some e, s1)
           | (None, s1) \<Rightarrow>
               (case os_MkdirAll keyPath s1 of
                  (Some e, s2) \<Rightarrow> (Some e, s2)
                | (None, s2) \<Rightarrow>
                    (case writeFile windows certPath certPEM mode_644 s2 of
                       (Some e, s3) \<Rightarrow> (Some e, s3)
                     | (None, s3) \<Rightarrow> writeFile windows keyPath keyPEM mode_600 s3))))"

section \<open>Initializing a node\<close>

definition os_Stat_ok :: "string \<Rightarrow> fs \<Rightarrow> error option \<times> fs" where
  "os_Stat_ok p s =
     (case next_call s of
        (Some (n, e), s1) \<Rightarrow> (Some e, s1)
      | (None, s1) \<Rightarrow> (if fs_files s p = None then Some ErrNotExist else None, s1))"

text \<open>\<open>typed\<close> is the outcome of the prompt, \<open>rnd\<close> of reading a random salt.\<close>

definition Initialize ::
  "kdf \<Rightarrow> bytes res \<Rightarrow> string res \<Rightarrow> (bytes \<times> bytes) res \<Rightarrow> bool \<Rightarrow> string res \<Rightarrow> string \<Rightarrow> Node \<Rightarrow> string \<Rightarrow> fs \<Rightarrow> error option \<times> fs" where
  "Initialize kdf rnd typed generated windows base host cfg configPath s =
     (case os_MkdirAll (nd_DataDirectory cfg) s of
        (Some e, s1) \<Rightarrow> (Some e, s1)
      | (None, s1) \<Rightarrow>
          (case os_Stat_ok (nd_VerifierFile cfg) s1 of
             (None, s2) \<Rightarrow> (Some (Msg (nd_VerifierFile cfg @ '' already exists; refusing to overwrite'')), s2)
           | (Some _, s2) \<Rightarrow>
               (case typed of
                  Inl e \<Rightarrow> (Some e, s2)
                | Inr passphrase \<Rightarrow>
                    (case NewVerifier kdf rnd passphrase of
                       Inl e \<Rightarrow> (Some e, s2)
                     | Inr verifier \<Rightarrow>
                         (case Verifier_Save verifier (nd_VerifierFile cfg) s2 of
                            (Some e, s3) \<Rightarrow> (Some e, s3)
                          | (None, s3) \<Rightarrow>
                              (case (if nd_Role cfg \<noteq> Role_Exit
                                     then GenerateCertificate generated windows (nd_CertificateFile cfg) (nd_KeyFile cfg) s3
                                     else (None, s3)) of
                                 (Some e, s4) \<Rightarrow> (Some e, s4)
                               | (None, s4) \<Rightarrow>
                                   SaveNode base host
                                     (if configPath = [] then path_Join (nd_DataDirectory cfg) ''node.json'' else configPath) cfg s4))))))"

section \<open>Options of the commands\<close>

record options =
  op_init :: bool
  op_config :: string
  op_dataDir :: string
  op_listen :: string
  op_server :: string
  op_fingerprint :: string
  op_passphrase :: string
  op_console :: bool
  op_capacity :: int
  op_idleTimeout :: int

definition parseRole :: "string \<Rightarrow> string list \<Rightarrow> (string \<times> string list) res" where
  "parseRole command args =
     (case args of
        [] \<Rightarrow> Inl (Msg (''usage: '' @ command @ '' <server|exit|server-exit> [options]''))
      | a # rest \<Rightarrow>
          if a = ''-h'' \<or> a = ''--help'' then Inl (Msg (''usage: '' @ command @ '' <server|exit|server-exit> [options]''))
          else if a \<in> {Role_Server, Role_Exit, Role_ServerExit} then Inr (a, rest)
          else Inl (Msg (''unsupported role '' @ quoted a)))"

text \<open>The overrides both commands share; \<open>lnproxy-init\<close> has no option for the console.\<close>

definition apply_options :: "options \<Rightarrow> Node \<Rightarrow> Node" where
  "apply_options opts cfg =
     cfg\<lparr>nd_ListenAddress := str_else (op_listen opts) (nd_ListenAddress cfg),
         nd_ServerAddress := str_else (op_server opts) (nd_ServerAddress cfg),
         nd_ServerFingerprint := str_else (op_fingerprint opts) (nd_ServerFingerprint cfg),
         nd_PassphraseSource := str_else (op_passphrase opts) (nd_PassphraseSource cfg),
         nd_Console := (op_console opts \<or> nd_Console cfg),
         nd_Capacity := (if op_capacity opts > 0 then op_capacity opts else nd_Capacity cfg),
         nd_IdleTimeout := (if op_idleTimeout opts > 0 then op_idleTimeout opts else nd_IdleTimeout cfg)\<rparr>"

definition with_options :: "string res \<Rightarrow> string \<Rightarrow> options \<Rightarrow> Node \<Rightarrow> fs \<Rightarrow> Node \<times> fs" where
  "with_options base host opts cfg s =
     (case FillPaths base host (if op_dataDir opts \<noteq> [] then cfg\<lparr>nd_DataDirectory := op_dataDir opts\<rparr> else cfg) s of
        (cfg1, s1) \<Rightarrow> (apply_options opts cfg1, s1))"

definition init_config :: "string res \<Rightarrow> string \<Rightarrow> string \<Rightarrow> options \<Rightarrow> fs \<Rightarrow> Node res \<times> fs" where
  "init_config base host role opts s =
     (case DefaultNode base host role of
        Inl e \<Rightarrow> (Inl e, s)
      | Inr cfg \<Rightarrow> (case with_options base host (opts\<lparr>op_console := False\<rparr>) cfg s of (cfg1, s1) \<Rightarrow> (Inr cfg1, s1)))"

definition node_config :: "string res \<Rightarrow> string \<Rightarrow> string \<Rightarrow> options \<Rightarrow> fs \<Rightarrow> Node res \<times> fs" where
  "node_config base host role opts s =
     (if op_init opts \<or> op_config opts = [] then
        (case DefaultNode base host role of
           Inl e \<Rightarrow> (Inl e, s)
         | Inr cfg \<Rightarrow> (case with_options base host opts cfg s of (cfg1, s1) \<Rightarrow> (Inr cfg1, s1)))
      else
        (case LoadNode base host (op_config opts) s of
           (cfg, Some e, s1) \<Rightarrow> (Inl e, s1)
         | (cfg, None, s1) \<Rightarrow> (case with_options base host opts (cfg\<lparr>nd_Role := role\<rparr>) s1 of (cfg1, s2) \<Rightarrow> (Inr cfg1, s2))))"

text \<open>\<open>run\<close> of \<open>lnproxy-init\<close> after its flags are parsed.\<close>

definition init_run ::
  "kdf \<Rightarrow> bytes res \<Rightarrow> string res \<Rightarrow> (bytes \<times> bytes) res \<Rightarrow> bool \<Rightarrow> string res \<Rightarrow> string \<Rightarrow> string \<Rightarrow> options \<Rightarrow> fs \<Rightarrow> error option \<times> fs" where
  "init_run kdf rnd typed generated windows base host role opts s =
     (case init_config base host role opts s of
        (Inl e, s1) \<Rightarrow> (Some e, s1)
      | (Inr cfg, s1) \<Rightarrow> Initialize kdf rnd typed generated windows base host cfg (op_config opts) s1)"

section \<open>The silent server\<close>

text \<open>The check of one required file; \<open>dirs\<close> tells which paths are directories.\<close>

fun require_files :: "(string \<Rightarrow> bool) \<Rightarrow> (string \<times> string) list \<Rightarrow> fs \<Rightarrow> error option \<times> fs" where
  "require_files dirs [] s = (None, s)"
| "require_files dirs ((name, path) # fs) s =
     (case os_Stat_ok path s of
        (Some e, s1) \<Rightarrow>
          if e = ErrNotExist \<and> dirs path
          then (Some (Msg (name @ '' '' @ path @ '' is a directory'')), s1)
          else (Some (Wrapped (name @ '' '' @ path @ '' is required: '') e), s1)
      | (None, s1) \<Rightarrow> require_files dirs fs s1)"

definition silent_config :: "string \<Rightarrow> Node \<Rightarrow> Node" where
  "silent_config dataDir cfg =
     cfg\<lparr>nd_Role := Role_ServerExit, nd_Console := False, nd_DataDirectory := dataDir,
         nd_CertificateFile := path_Join dataDir ''server.crt'', nd_KeyFile := path_Join dataDir ''server.key'',
         nd_VerifierFile := path_Join dataDir ''passphrase.json''\<rparr>"

definition LoadConfig :: "(string \<Rightarrow> bool) \<Rightarrow> string res \<Rightarrow> string \<Rightarrow> string \<Rightarrow> fs \<Rightarrow> Node res \<times> fs" where
  "LoadConfig dirs base host dataDir s =
     (if dataDir = [] then (Inl (Msg ''data directory is required''), s)
      else
        let configPath = path_Join dataDir ''node.json'' in
        (case LoadNode base host configPath s of
           (cfg, Some e, s1) \<Rightarrow> (Inl (Wrapped (''load '' @ configPath @ '': '') e), s1)
         | (cfg, None, s1) \<Rightarrow>
             let c = silent_config dataDir cfg in
             (case Validate c of
                Some e \<Rightarrow> (Inl e, s1)
              | None \<Rightarrow>
                  (case require_files dirs [(''passphrase verifier'', nd_VerifierFile c), (''TLS certificate'', nd_CertificateFile c),
                                            (''TLS private key'', nd_KeyFile c)] s1 of
                     (Some e, s2) \<Rightarrow> (Inl e, s2)
                   | (None, s2) \<Rightarrow> (Inr c, s2)))))"

text \<open>\<open>Run\<close> up to the server it starts; \<open>loadPair\<close> is the outcome of \<open>tls.LoadX509KeyPair\<close>.\<close>

definition silent_Run :: "(string \<Rightarrow> bool) \<Rightarrow> string res \<Rightarrow> string \<Rightarrow> (string \<Rightarrow> string \<Rightarrow> error option) \<Rightarrow> int \<Rightarrow> string \<Rightarrow> fs \<Rightarrow> Server res \<times> fs" where
  "silent_Run dirs base host loadPair now dataDir s =
     (case LoadConfig dirs base host dataDir s of
        (Inl e, s1) \<Rightarrow> (Inl e, s1)
      | (Inr cfg, s1) \<Rightarrow>
          (case LoadVerifier (nd_VerifierFile cfg) s1 of
             (Inl e, s2) \<Rightarrow> (Inl (Wrapped ''load passphrase verifier: '' e), s2)
           | (Inr verifier, s2) \<Rightarrow>
               (case loadPair (nd_CertificateFile cfg) (nd_KeyFile cfg) of
                  Some e \<Rightarrow> (Inl (Wrapped ''load TLS certificate: '' e), s2)
                | None \<Rightarrow> (Inr (NewServer now cfg verifier), s2))))"

end
