(* ===== verification/BundleProps.thy ===== *)
theory BundleProps
  imports Bundle
begin

text \<open>
  What \<open>Initialize\<close> leaves on disk is what \<open>LoadConfig\<close> and \<open>LoadVerifier\<close> need, an existing verifier is never
  overwritten, and where the option for the data directory falls short.
\<close>

section \<open>Files\<close>

lemma writeFile_done:
  assumes "writeFile windows p d m s = (None, s')"
  shows "\<exists>m'. fs_files s' p = Some \<lparr>fl_data = d, fl_mode = m'\<rparr> \<and> (\<not> windows \<longrightarrow> m' = m)"
proof -
  obtain s1 x s2 where s: "os_WriteFile (temp_of p) d m s = (None, s1)" "os_Chmod (temp_of p) m s1 = (x, s2)"
    "x = None \<or> windows" "os_Rename (temp_of p) p s2 = (None, s')"
    using assms by (auto simp: writeFile_def split: prod.splits option.splits if_splits)
  obtain m1 where m1: "fs_files s1 (temp_of p) = Some \<lparr>fl_data = d, fl_mode = m1\<rparr>" using os_done(1) [OF s(1)] by blast
  have "\<exists>m'. fs_files s2 (temp_of p) = Some \<lparr>fl_data = d, fl_mode = m'\<rparr> \<and> (x = None \<longrightarrow> m' = m)"
    using s(2) m1 by (auto simp: os_Chmod_def split: prod.splits option.splits)
  with os_done(3) [OF s(4)] s(3) show ?thesis by auto
qed

lemma writeFile_others:
  assumes "writeFile windows p d m s = (None, s')" and "q \<noteq> p" and "q \<noteq> temp_of p" shows "fs_files s' q = fs_files s q"
proof -
  obtain s1 x s2 where s: "os_WriteFile (temp_of p) d m s = (None, s1)" "os_Chmod (temp_of p) m s1 = (x, s2)"
    "os_Rename (temp_of p) p s2 = (None, s')"
    using assms by (auto simp: writeFile_def split: prod.splits option.splits if_splits)
  from os_frame(2) [OF s(1) assms(3)] os_frame(3) [OF s(2) assms(3)] os_frame(4) [OF s(3) assms(2,3)] show ?thesis by simp
qed

text \<open>The four files of a bundle and the temporary files beside them are different files.\<close>

definition apart :: "string list \<Rightarrow> bool" where
  "apart ps \<longleftrightarrow> distinct (ps @ map temp_of ps)"

lemma os_Stat_ok_files: "os_Stat_ok p s = (x, s') \<Longrightarrow> fs_files s' = fs_files s"
  by (auto simp: os_Stat_ok_def split: prod.splits option.splits)

lemma Initialize_files:
  assumes "Initialize kdf rnd typed generated windows base host cfg [] s = (None, s')" and "nd_Role cfg \<noteq> Role_Exit"
    and "fill base host cfg = cfg" and "p = path_Join (nd_DataDirectory cfg) ''node.json''"
    and "apart [nd_VerifierFile cfg, nd_CertificateFile cfg, nd_KeyFile cfg, p]"
  shows "\<exists>pass v cert key m1 m2 m3. typed = Inr pass \<and> NewVerifier kdf rnd pass = Inr v \<and> generated = Inr (cert, key)
    \<and> fs_files s' (nd_VerifierFile cfg) = Some \<lparr>fl_data = verifier_text v, fl_mode = mode_0600\<rparr>
    \<and> fs_files s' (nd_CertificateFile cfg) = Some \<lparr>fl_data = cert, fl_mode = m1\<rparr>
    \<and> fs_files s' (nd_KeyFile cfg) = Some \<lparr>fl_data = key, fl_mode = m2\<rparr> \<and> (\<not> windows \<longrightarrow> m2 = mode_600)
    \<and> fs_files s' p = Some \<lparr>fl_data = MarshalIndent (Node_json cfg) @ [10], fl_mode = m3\<rparr>"
proof -
  let ?V = "nd_VerifierFile cfg" and ?C = "nd_CertificateFile cfg" and ?K = "nd_KeyFile cfg"
  obtain pass v s2 s3 s4 where i: "typed = Inr pass" "NewVerifier kdf rnd pass = Inr v" "Verifier_Save v ?V s2 = (None, s3)"
    "GenerateCertificate generated windows ?C ?K s3 = (None, s4)" "SaveNode base host p cfg s4 = (None, s')"
    using assms(1,2,4) by (auto simp: Initialize_def split: prod.splits option.splits sum.splits if_splits)
  obtain cert key s5 s6 s7 where g: "generated = Inr (cert, key)" "os_MkdirAll ?C s3 = (None, s5)" "os_MkdirAll ?K s5 = (None, s6)"
    "writeFile windows ?C cert mode_644 s6 = (None, s7)" "writeFile windows ?K key mode_600 s7 = (None, s4)"
    using i(4) by (auto simp: GenerateCertificate_def split: sum.splits prod.splits option.splits)
  obtain x s8 where n: "os_MkdirAll (nd_DataDirectory cfg) s4 = (x, s8)"
    "replace_file p None (MarshalIndent (Node_json cfg) @ [10]) mode_600 s8 = (None, s')"
    using i(5) assms(3) by (cases "os_MkdirAll (nd_DataDirectory cfg) s4") (simp add: SaveNode_def FillPaths_def Let_def)
  have d: "?V \<noteq> ?C" "?V \<noteq> temp_of ?C" "?V \<noteq> ?K" "?V \<noteq> temp_of ?K" "?V \<noteq> p" "?V \<noteq> temp_of p"
    "?C \<noteq> ?K" "?C \<noteq> temp_of ?K" "?C \<noteq> p" "?C \<noteq> temp_of p" "?K \<noteq> p" "?K \<noteq> temp_of p"
    using assms(5) by (auto simp: apart_def)
  have v3: "fs_files s3 ?V = Some \<lparr>fl_data = verifier_text v, fl_mode = mode_0600\<rparr>"
    using replace_file_done [of ?V "Some mode_0600" _ mode_0600 s2 s3] i(3)
    by (auto simp: Verifier_Save_def writePrivateFile_def verifier_text_def)
  obtain m1 where c7: "fs_files s7 ?C = Some \<lparr>fl_data = cert, fl_mode = m1\<rparr>" using writeFile_done [OF g(4)] by blast
  obtain m2 where k4: "fs_files s4 ?K = Some \<lparr>fl_data = key, fl_mode = m2\<rparr>" "\<not> windows \<longrightarrow> m2 = mode_600"
    using writeFile_done [OF g(5)] by blast
  have last: "fs_files s' q = fs_files s4 q" if "q \<noteq> p" "q \<noteq> temp_of p" for q
    using replace_file_others [OF n(2) that(2)] that(1) os_frame(1) [OF n(1)] by simp
  have "fs_files s6 = fs_files s3" using os_frame(1) [OF g(2)] os_frame(1) [OF g(3)] by simp
  then have v4: "fs_files s4 ?V = fs_files s3 ?V"
    using writeFile_others [OF g(4) d(1,2)] writeFile_others [OF g(5) d(3,4)] by simp
  have c4: "fs_files s4 ?C = fs_files s7 ?C" by (rule writeFile_others [OF g(5) d(7,8)])
  obtain m3 where "fs_files s' p = Some \<lparr>fl_data = MarshalIndent (Node_json cfg) @ [10], fl_mode = m3\<rparr>"
    using replace_file_done [OF n(2)] by blast
  with v4 c4 c7 k4 v3 last [OF d(5,6)] last [OF d(9,10)] last [OF d(11,12)] i(1,2) g(1)
  show ?thesis by (intro exI [of _ pass] exI [of _ v] exI [of _ cert] exI [of _ key] exI [of _ m1] exI [of _ m2] exI [of _ m3]) simp
qed

lemma require_files_ok:
  "fs_calls s = [] \<Longrightarrow> (\<And>n p. (n, p) \<in> set fs \<Longrightarrow> fs_files s p \<noteq> None) \<Longrightarrow> require_files dirs fs s = (None, s)"
proof (induction fs)
  case (Cons x xs)
  obtain n p where x: "x = (n, p)" by force
  with Cons.prems(2) [of n p] have "fs_files s p \<noteq> None" by simp
  with x Cons show ?case by (auto simp: os_Stat_ok_def next_call_def)
qed simp

section \<open>Properties\<close>

text \<open>
  C35 (initialization). A node that \<open>Initialize\<close> has prepared for serving, with its files in one directory, starts:
  \<open>LoadConfig\<close> accepts the directory and returns the configuration it was prepared with, in the role of
  a server with an exit, and the verifier next to it accepts exactly the typed passphrase's key. The
  private key and the verifier are readable by the owner only, where the system has file modes.
\<close>

theorem initialized_node_starts:
  assumes "Initialize kdf rnd typed generated windows base host cfg [] s = (None, s')" and "nd_Role cfg \<noteq> Role_Exit"
    and "fill base host cfg = cfg" and "node_text cfg" and "Validate cfg = None" and "silent_config (nd_DataDirectory cfg) cfg = cfg\<lparr>nd_Role := Role_ServerExit, nd_Console := False\<rparr>"
    and "apart [nd_VerifierFile cfg, nd_CertificateFile cfg, nd_KeyFile cfg, path_Join (nd_DataDirectory cfg) ''node.json'']"
    and "fs_calls s' = []" and "0 < nd_Capacity cfg"
    and "\<And>salt. rnd = Inr salt \<Longrightarrow> 8 \<le> length salt" and "\<And>pass salt. length (Derive kdf pass salt DefaultParameters) = keyLength"
  shows "\<exists>pass v. typed = Inr pass \<and> Verifier_Verify kdf v pass
    \<and> silent_Run dirs base host (\<lambda>_ _. None) now (nd_DataDirectory cfg) s'
        = (Inr (NewServer now (cfg\<lparr>nd_Role := Role_ServerExit, nd_Console := False\<rparr>) v), s')
    \<and> map_option fl_mode (fs_files s' (nd_VerifierFile cfg)) = Some mode_0600
    \<and> (\<not> windows \<longrightarrow> map_option fl_mode (fs_files s' (nd_KeyFile cfg)) = Some mode_600)"
proof -
  let ?dir = "nd_DataDirectory cfg" and ?c = "cfg\<lparr>nd_Role := Role_ServerExit, nd_Console := False\<rparr>"
  obtain pass v cert key m1 m2 m3 where f: "typed = Inr pass" "NewVerifier kdf rnd pass = Inr v"
    "fs_files s' (nd_VerifierFile cfg) = Some \<lparr>fl_data = verifier_text v, fl_mode = mode_0600\<rparr>"
    "fs_files s' (nd_CertificateFile cfg) = Some \<lparr>fl_data = cert, fl_mode = m1\<rparr>"
    "fs_files s' (nd_KeyFile cfg) = Some \<lparr>fl_data = key, fl_mode = m2\<rparr>" "\<not> windows \<longrightarrow> m2 = mode_600"
    "fs_files s' (path_Join ?dir ''node.json'') = Some \<lparr>fl_data = MarshalIndent (Node_json cfg) @ [10], fl_mode = m3\<rparr>"
    using Initialize_files [OF assms(1-3) refl assms(7)] by blast
  have v: "8 \<le> length (vf_Salt v)" "length (vf_Hash v) = keyLength" "Verifier_Verify kdf v pass"
    using f(2) assms(10,11) by (auto simp: NewVerifier_def Verifier_Verify_def split: sum.splits)
  have d: "?dir \<noteq> []" using assms(5) by (auto simp: Validate_def split: if_splits)
  have val: "Validate ?c = None"
    using assms(2,5,9) by (auto simp: Validate_def Role_Server_def Role_Exit_def Role_ServerExit_def split: if_splits)
  have "require_files dirs [(''passphrase verifier'', nd_VerifierFile cfg), (''TLS certificate'', nd_CertificateFile cfg),
      (''TLS private key'', nd_KeyFile cfg)] s' = (None, s')"
    by (rule require_files_ok [OF assms(8)]) (use f in auto)
  then have "LoadConfig dirs base host ?dir s' = (Inr ?c, s')"
    using d val assms(5,6) LoadNode_stored [OF assms(4,3,8) f(7)] by (simp add: LoadConfig_def Let_def)
  moreover have "LoadVerifier (nd_VerifierFile cfg) s' = (Inr v, s')" by (rule LoadVerifier_stored [OF v(1,2) assms(8) f(3)])
  ultimately show ?thesis using f v(3) by (intro exI [of _ pass] exI [of _ v]) (simp add: silent_Run_def)
qed

text \<open>
  C0 (data directory). The option \<open>--data-dir\<close> moves the configuration and the log only: the certificate, the key
  and the verifier keep the default directory's paths, which were filled in before. A node initialized with
  this option cannot be started by \<open>LoadConfig\<close> from the directory that was asked for.
\<close>

theorem data_dir_moves_config_only:
  assumes "DefaultDataDir base = Inr d" and "op_dataDir opts = x" and "x \<noteq> []" and "init_config base host role opts s = (Inr cfg, s1)"
    and "fs_files t (path_Join x ''passphrase.json'') = None" and "fs_calls t = []"
  shows "nd_DataDirectory cfg = x \<and> nd_VerifierFile cfg = path_Join d ''passphrase.json''
    \<and> nd_CertificateFile cfg = path_Join d ''server.crt'' \<and> nd_KeyFile cfg = path_Join d ''server.key''
    \<and> (\<exists>e. fst (LoadConfig dirs base host x t) = Inl e)"
proof -
  have c: "nd_DataDirectory cfg = x \<and> nd_VerifierFile cfg = path_Join d ''passphrase.json''
    \<and> nd_CertificateFile cfg = path_Join d ''server.crt'' \<and> nd_KeyFile cfg = path_Join d ''server.key''"
    using assms(1-4) by (auto simp: init_config_def DefaultNode_def with_options_def FillPaths_def fill_def apply_options_def
        str_else_def path_Join_def Let_def)
  obtain n r t1 where l: "LoadNode base host (path_Join x ''node.json'') t = (n, r, t1)" by (metis prod_cases3)
  have t1: "fs_files t1 = fs_files t" "fs_calls t1 = []"
    using l assms(6) by (auto simp: LoadNode_def os_ReadFile_def FillPaths_def os_MkdirAll_def next_call_def Let_def split: option.splits)
  have "\<exists>e. fst (LoadConfig dirs base host x t) = Inl e"
  proof (cases "r = None \<and> Validate (silent_config x n) = None")
    case True
    have "os_Stat_ok (path_Join x ''passphrase.json'') t1 = (Some ErrNotExist, t1)"
      using t1 assms(5) by (simp add: os_Stat_ok_def next_call_def)
    then have "\<exists>e. require_files dirs ((''passphrase verifier'', path_Join x ''passphrase.json'') # fs) t1 = (Some e, t1)" for fs by simp
    then obtain e where "require_files dirs [(''passphrase verifier'', nd_VerifierFile (silent_config x n)),
        (''TLS certificate'', nd_CertificateFile (silent_config x n)), (''TLS private key'', nd_KeyFile (silent_config x n))] t1 = (Some e, t1)"
      by (auto simp: silent_config_def)
    with True l assms(3) show ?thesis by (simp add: LoadConfig_def Let_def del: require_files.simps)
  next
    case False
    with l assms(3) show ?thesis by (cases r; cases "Validate (silent_config x n)") (auto simp: LoadConfig_def Let_def)
  qed
  with c show ?thesis by blast
qed

text \<open>
  Remark (existing bundle). When a verifier is there, \<open>Initialize\<close> reports it and changes no file.
\<close>

theorem initialize_refuses:
  assumes "fs_files s (nd_VerifierFile cfg) \<noteq> None" and "fs_calls s = []"
  shows "\<exists>s'. Initialize kdf rnd typed generated windows base host cfg path s
      = (Some (Msg (nd_VerifierFile cfg @ '' already exists; refusing to overwrite'')), s') \<and> fs_files s' = fs_files s"
  using assms by (auto simp: Initialize_def os_MkdirAll_def os_Stat_ok_def next_call_def)

section \<open>Examples\<close>

definition ex_bundle :: Node where
  "ex_bundle = fill (Inr ''c'') ''h'' (zero_node\<lparr>nd_Role := Role_Server, nd_DataDirectory := ''d''\<rparr>)"

abbreviation ex_empty :: fs where "ex_empty \<equiv> \<lparr>fs_files = Map.empty, fs_calls = []\<rparr>"

lemma ex_initialized:
  "\<exists>s'. Initialize ex_kdf (Inr (replicate 16 1)) (Inr ''pw'') (Inr ([1], [2])) False (Inr ''c'') ''h'' ex_bundle [] ex_empty = (None, s')
     \<and> fs_calls s' = []"
  by (simp add: Initialize_def os_Stat_ok_def NewVerifier_def Verifier_Save_def writePrivateFile_def replace_file_def GenerateCertificate_def
      writeFile_def SaveNode_def FillPaths_def os_MkdirAll_def os_WriteFile_def os_Chmod_def os_Rename_def next_call_def Let_def)

lemma ex_kdf_length: "length (Derive ex_kdf pass salt DefaultParameters) = keyLength"
  by (simp add: Derive_def ex_kdf_def Let_def DefaultParameters_def defaultMemory_def keyLength_def)

lemma ex_bundle_facts:
  "fill (Inr ''c'') ''h'' ex_bundle = ex_bundle" "node_text ex_bundle" "Validate ex_bundle = None" "nd_Role ex_bundle \<noteq> Role_Exit"
  "silent_config (nd_DataDirectory ex_bundle) ex_bundle = ex_bundle\<lparr>nd_Role := Role_ServerExit, nd_Console := False\<rparr>"
  "apart [nd_VerifierFile ex_bundle, nd_CertificateFile ex_bundle, nd_KeyFile ex_bundle, path_Join (nd_DataDirectory ex_bundle) ''node.json'']"
  "0 < nd_Capacity ex_bundle"
proof -
  show "fill (Inr ''c'') ''h'' ex_bundle = ex_bundle" by (simp add: ex_bundle_def fill_fixpoint)
  show "silent_config (nd_DataDirectory ex_bundle) ex_bundle = ex_bundle\<lparr>nd_Role := Role_ServerExit, nd_Console := False\<rparr>"
    by (simp add: silent_config_def ex_bundle_def fill_def zero_node_def str_else_def Let_def)
qed (code_simp+)

theorem initialized_node_starts_witness:
  "\<exists>s' v. Verifier_Verify ex_kdf v ''pw'' \<and> silent_Run (\<lambda>_. False) (Inr ''c'') ''h'' (\<lambda>_ _. None) 5 (nd_DataDirectory ex_bundle) s'
     = (Inr (NewServer 5 (ex_bundle\<lparr>nd_Role := Role_ServerExit, nd_Console := False\<rparr>) v), s')"
proof -
  obtain s' where s': "Initialize ex_kdf (Inr (replicate 16 1)) (Inr ''pw'') (Inr ([1], [2])) False (Inr ''c'') ''h'' ex_bundle [] ex_empty = (None, s')"
    "fs_calls s' = []" using ex_initialized by blast
  note b = ex_bundle_facts
  from initialized_node_starts [OF s'(1) b(4,1,2,3,5,6) s'(2) b(7) _ ex_kdf_length] show ?thesis by fastforce
qed

definition ex_options :: options where
  "ex_options = \<lparr>op_init = True, op_config = [], op_dataDir = ''x'', op_listen = [], op_server = [], op_fingerprint = [],
     op_passphrase = [], op_console = False, op_capacity = 0, op_idleTimeout = 0\<rparr>"

theorem data_dir_moves_config_only_witness:
  "\<exists>cfg s1. init_config (Inr ''c'') ''h'' Role_Server ex_options ex_empty = (Inr cfg, s1) \<and> nd_DataDirectory cfg = ''x''
     \<and> nd_VerifierFile cfg = path_Join ''c/lnproxy'' ''passphrase.json''"
proof -
  have d: "DefaultDataDir (Inr ''c'') = Inr ''c/lnproxy''" by code_simp
  obtain cfg s1 where c: "init_config (Inr ''c'') ''h'' Role_Server ex_options ex_empty = (Inr cfg, s1)"
    by (simp add: init_config_def DefaultNode_def d with_options_def FillPaths_def Let_def)
  from data_dir_moves_config_only [OF d _ _ c, of "''x''" ex_empty] c show ?thesis by (auto simp: ex_options_def)
qed

end
