(* ===== verification/Probe.thy ===== *)
theory Probe
  imports Dialing Server
begin

text \<open>
  \<open>src/cmd/lnproxy-probe/main.go\<close>: the diagnostic client, which connects, authenticates, waits for the
  catalogue and sends one HTTP request, and reports the stage that failed. Its trust store is kept in
  memory. Dials, the prompt, timers and the parsed HTTP response are arguments.
\<close>

section \<open>Options\<close>

record probe_options =
  po_server :: string
  po_passphrase :: string
  po_fingerprint :: string
  po_transport :: string
  po_sessionMode :: string
  po_target :: string
  po_timeout :: int
  po_httpPath :: string

text \<open>The text of the \<open>net.AddrError\<close>s of \<open>net.SplitHostPort\<close>.\<close>

fun addr_reason :: "addr_error \<Rightarrow> string" where
  "addr_reason MissingPort = ''missing port in address''"
| "addr_reason TooManyColons = ''too many colons in address''"
| "addr_reason MissingBracket = ''missing ']' in address''"
| "addr_reason UnexpectedOpen = ''unexpected '[' in address''"
| "addr_reason UnexpectedClose = ''unexpected ']' in address''"

definition addr_text :: "string \<Rightarrow> addr_error \<Rightarrow> error" where
  "addr_text a e = Msg (''address '' @ a @ '': '' @ addr_reason e)"

definition parseTarget :: "string \<Rightarrow> (string \<times> u16) res" where
  "parseTarget value =
     (case SplitHostPort (TrimSpace value) of
        Inl e \<Rightarrow> Inl (Wrapped (''invalid --target '' @ quoted value @ '': '') (addr_text (TrimSpace value) e))
      | Inr (host, portText) \<Rightarrow>
          (case Atoi portText of
             None \<Rightarrow> Inl (Msg (''invalid --target port '' @ quoted portText))
           | Some port \<Rightarrow>
               if port < 1 \<or> port > 65535 then Inl (Msg (''invalid --target port '' @ quoted portText))
               else if host = [] then Inl (Msg ''--target host is required'')
               else Inr (host, of_int port)))"

text \<open>The checks of \<open>parseOptions\<close> after the flags are parsed.\<close>

definition check_options :: "probe_options \<Rightarrow> probe_options res" where
  "check_options o1 =
     (if po_server o1 = [] then Inl (Msg ''--server is required'')
      else case NormalizeServerAddress (po_server o1) of
        Inl e \<Rightarrow> Inl (Wrapped ''invalid --server: '' e)
      | Inr normalized \<Rightarrow>
          if po_transport o1 \<notin> {''auto'', ''quic'', ''tcp''} then Inl (Msg (''invalid --transport '' @ quoted (po_transport o1)))
          else if po_sessionMode o1 \<notin> {''safe'', ''client''}
          then Inl (Msg (''invalid --session-mode '' @ quoted (po_sessionMode o1)))
          else case parseTarget (po_target o1) of
            Inl e \<Rightarrow> Inl e
          | Inr _ \<Rightarrow>
              if po_timeout o1 \<le> 0 then Inl (Msg ''--timeout must be positive'')
              else if po_httpPath o1 = [] \<or> hd (po_httpPath o1) \<noteq> CHR ''/'' then Inl (Msg ''--http-path must start with /'')
              else Inr (o1\<lparr>po_server := normalized\<rparr>))"

section \<open>Trust in memory\<close>

text \<open>\<open>mt_in\<close> are the outcomes of the coming \<open>Fscanln\<close> calls.\<close>

record memoryTrust =
  mt_expected :: string
  mt_fingerprint :: string
  mt_confirmed :: bool
  mt_in :: "string res list"

definition newMemoryTrust :: "string \<Rightarrow> string res list \<Rightarrow> memoryTrust" where
  "newMemoryTrust expected answers =
     \<lparr>mt_expected = NormalizeFingerprint expected, mt_fingerprint = [], mt_confirmed = False, mt_in = answers\<rparr>"

definition mt_Get :: "string \<Rightarrow> memoryTrust \<Rightarrow> string" where
  "mt_Get host t = (if mt_expected t = [] then mt_fingerprint t else mt_expected t)"

definition mt_Check :: "string \<Rightarrow> string \<Rightarrow> memoryTrust \<Rightarrow> error option" where
  "mt_Check host fingerprint t =
     (let expected = (if mt_expected t = [] then mt_fingerprint t else mt_expected t) in
      if expected = [] \<or> EqualFingerprint expected fingerprint then None
      else Some (Msg ''server certificate fingerprint changed''))"

definition mt_Save :: "string \<Rightarrow> string \<Rightarrow> memoryTrust \<Rightarrow> error option \<times> memoryTrust" where
  "mt_Save host fingerprint0 t =
     (let fingerprint = NormalizeFingerprint fingerprint0 in
      if mt_expected t \<noteq> [] \<and> \<not> EqualFingerprint (mt_expected t) fingerprint
      then (Some (Msg (''server certificate fingerprint mismatch: expected '' @ mt_expected t @ '', got '' @ fingerprint)), t)
      else
        let t1 = t\<lparr>mt_fingerprint := fingerprint\<rparr> in
        if mt_confirmed t1 \<or> mt_expected t1 \<noteq> [] then (None, t1\<lparr>mt_confirmed := True\<rparr>)
        else case mt_in t1 of
          [] \<Rightarrow> (Some EOF, t1)
        | Inl e # as \<Rightarrow> (Some e, t1\<lparr>mt_in := as\<rparr>)
        | Inr answer # as \<Rightarrow>
            let t2 = t1\<lparr>mt_in := as\<rparr>; a = ToLower (TrimSpace answer) in
            if a \<noteq> ''y'' \<and> a \<noteq> ''yes'' then (Some (Msg ''server certificate fingerprint was not accepted''), t2)
            else (None, t2\<lparr>mt_confirmed := True\<rparr>))"

text \<open>The callback of \<open>ClientTLSConfig("", p.trust, host)\<close>.\<close>

type_synonym 'c probe_dial = "string \<Rightarrow> (bytes list \<Rightarrow> memoryTrust \<Rightarrow> error option \<times> memoryTrust) \<Rightarrow> memoryTrust \<Rightarrow> 'c res \<times> memoryTrust"

definition probe_verify :: "string \<Rightarrow> bytes list \<Rightarrow> memoryTrust \<Rightarrow> error option \<times> memoryTrust" where
  "probe_verify host certs t = VerifyConnection [] (Some mt_Save) host certs t"

section \<open>Stages\<close>

datatype stageError = StageError (stage: string) (timeout: bool) (cause: error)

text \<open>\<open>slow\<close> stands for the errors that report \<open>Timeout()\<close> themselves.\<close>

definition isTimeout :: "(error \<Rightarrow> bool) \<Rightarrow> error \<Rightarrow> bool" where
  "isTimeout slow e \<longleftrightarrow> errors_Is e DeadlineExceeded \<or> slow e"

definition transportError :: "(error \<Rightarrow> bool) \<Rightarrow> string \<Rightarrow> error \<Rightarrow> stageError" where
  "transportError slow s e = StageError s (isTimeout slow e) e"

type_synonym 'a staged = "stageError + 'a"

definition connectQUIC ::
  "(error \<Rightarrow> bool) \<Rightarrow> conn res probe_dial \<Rightarrow> probe_options \<Rightarrow> memoryTrust \<Rightarrow> conn staged \<times> memoryTrust" where
  "connectQUIC slow DialQUIC o1 t =
     (case DialQUIC (po_server o1) (probe_verify (addressHost (po_server o1))) t of
        (Inl e, t1) \<Rightarrow> (Inl (transportError slow ''QUIC dial'' e), t1)
      | (Inr opened, t1) \<Rightarrow>
          (case OpenControlStream opened of
             (Inl e, _) \<Rightarrow> (Inl (transportError slow ''QUIC control stream'' e), t1)
           | (Inr stream, _) \<Rightarrow> (Inr stream, t1)))"

definition connectTCP ::
  "(error \<Rightarrow> bool) \<Rightarrow> conn probe_dial \<Rightarrow> probe_options \<Rightarrow> memoryTrust \<Rightarrow> conn staged \<times> memoryTrust" where
  "connectTCP slow DialTLS o1 t =
     (case DialTLS (po_server o1) (probe_verify (addressHost (po_server o1))) t of
        (Inl e, t1) \<Rightarrow> (Inl (transportError slow ''TCP/TLS dial'' e), t1)
      | (Inr c, t1) \<Rightarrow> (Inr c, t1))"

definition probe_connect ::
  "(error \<Rightarrow> bool) \<Rightarrow> conn res probe_dial \<Rightarrow> conn probe_dial \<Rightarrow> probe_options \<Rightarrow> memoryTrust \<Rightarrow> (conn \<times> string) staged \<times> memoryTrust" where
  "probe_connect slow DialQUIC DialTLS o1 t =
     (let named = (\<lambda>name (r, t1). (case r of Inl e \<Rightarrow> Inl e | Inr c \<Rightarrow> Inr (c, name), t1)) in
      if po_transport o1 = ''quic'' then named ProtocolQUIC (connectQUIC slow DialQUIC o1 t)
      else if po_transport o1 = ''tcp'' then named ProtocolTLS (connectTCP slow DialTLS o1 t)
      else case connectQUIC slow DialQUIC o1 t of
        (Inr c, t1) \<Rightarrow> (Inr (c, ProtocolQUIC), t1)
      | (Inl e, t1) \<Rightarrow>
          if stage e = ''QUIC control stream'' then (Inl e, t1)
          else named ProtocolTLS (connectTCP slow DialTLS o1 t1))"

text \<open>\<open>authenticate\<close>; \<open>late\<close> says that the timer fires before the handshake is over.\<close>

definition probe_authenticate :: "bool \<Rightarrow> kdf \<Rightarrow> string \<Rightarrow> conn \<Rightarrow> conn staged" where
  "probe_authenticate late kdf passphrase c =
     (if late then Inl (StageError ''authentication'' True DeadlineExceeded)
      else case ClientHandshakePassword kdf passphrase RoleClient c of
        (Some e, c1) \<Rightarrow> Inl (StageError ''authentication'' False e)
      | (None, c1) \<Rightarrow> Inr c1)"

text \<open>The control handler of \<open>startSession\<close> puts the first catalogue into a channel of capacity one.\<close>

definition probe_control :: "Frame \<Rightarrow> ExitInfo list option \<Rightarrow> ExitInfo list option" where
  "probe_control f ch =
     (if Type f \<noteq> FrameCatalog then ch
      else case DecodeJSON json_Catalog f of
        Inl e \<Rightarrow> ch
      | Inr c \<Rightarrow> (case ch of None \<Rightarrow> Some (Exits c) | Some x \<Rightarrow> Some x))"

definition probe_session :: "conn \<Rightarrow> session staged" where
  "probe_session c =
     (case Start (Some (Inr c)) False (SetControlHandler True (New (5 * minute) 0)) of
        (Some e, s) \<Rightarrow> Inl (StageError ''session start'' False e)
      | (None, s) \<Rightarrow> Inr s)"

datatype catalog_event = CatalogReceived | CatalogSessionDone | CatalogTimer

text \<open>The select of \<open>startSession\<close>: no outcome when the chosen case is not ready.\<close>

definition catalog_select :: "catalog_event \<Rightarrow> ExitInfo list option \<Rightarrow> session \<Rightarrow> ExitInfo list staged list" where
  "catalog_select ev ch s =
     (case ev of
        CatalogReceived \<Rightarrow> (case ch of Some exits \<Rightarrow> [Inr exits] | None \<Rightarrow> [])
      | CatalogSessionDone \<Rightarrow>
          if ss_done s
          then [Inl (StageError ''catalog'' False (case ss_err s of Some e \<Rightarrow> e | None \<Rightarrow> Msg ''session closed before catalog''))]
          else []
      | CatalogTimer \<Rightarrow> [Inl (StageError ''catalog'' True DeadlineExceeded)])"

definition crlf_text :: string where "crlf_text = [CHR 0x0D, CHR 0x0A]"

definition http_text :: "probe_options \<Rightarrow> string" where
  "http_text o1 = ''GET '' @ po_httpPath o1 @ '' HTTP/1.1'' @ crlf_text @ ''Host: '' @ po_target o1 @ crlf_text
     @ ''User-Agent: lnproxy-probe/1'' @ crlf_text @ ''Connection: close'' @ crlf_text @ crlf_text"

definition probe_request :: "probe_options \<Rightarrow> OpenRequest res" where
  "probe_request o1 =
     (case parseTarget (po_target o1) of
        Inl e \<Rightarrow> Inl e
      | Inr (host, port) \<Rightarrow>
          Inr \<lparr>or_RequestID = 0, or_ExitID = ''auto'', or_Destination = host, or_Port = port, or_Protocol = ProtocolTCP,
            or_ClientSelected = False\<rparr>)"

text \<open>
  \<open>testHTTP\<close>: \<open>dialed\<close> is the outcome of opening the stream for a request, \<open>answer\<close> that of writing the
  text and reading the response (status and length), \<open>None\<close> when the timer fires first.
\<close>

definition testHTTP ::
  "(error \<Rightarrow> bool) \<Rightarrow> (OpenRequest \<Rightarrow> 't res) \<Rightarrow> ('t \<Rightarrow> string \<Rightarrow> (int \<times> int) res option) \<Rightarrow> probe_options \<Rightarrow> (int \<times> int) staged" where
  "testHTTP slow dialed answer o1 =
     (case probe_request o1 of
        Inl e \<Rightarrow> Inl (StageError [] False e)
      | Inr q \<Rightarrow>
          (case dialed q of
             Inl e \<Rightarrow> Inl (transportError slow ''stream open'' e)
           | Inr st \<Rightarrow>
               (case answer st (http_text o1) of
                  None \<Rightarrow> Inl (StageError ''HTTP request'' True DeadlineExceeded)
                | Some (Inl e) \<Rightarrow> Inl (StageError ''HTTP request'' False e)
                | Some (Inr r) \<Rightarrow> Inr r)))"

text \<open>The exit code for the outcome of the stages.\<close>

definition exit_code :: "'a staged \<Rightarrow> int" where
  "exit_code r = (case r of Inr _ \<Rightarrow> 0 | Inl e \<Rightarrow> if timeout e then 2 else 1)"

definition delta :: "u64 \<Rightarrow> u64 \<Rightarrow> u64" where
  "delta after before = (if after < before then 0 else after - before)"

section \<open>Whom the probe trusts\<close>

text \<open>
  What \<open>crypto/tls\<close> documents of \<open>VerifyConnection\<close>: a dial succeeds only if the callback accepted the peer's
  certificates; nothing else changes the trust store.
\<close>

definition probe_verifying :: "'c probe_dial \<Rightarrow> bool" where
  "probe_verifying dial \<longleftrightarrow>
     (\<forall>a v t r t'. dial a v t = (r, t') \<longrightarrow>
        (\<forall>c. r = Inr c \<longrightarrow> (\<exists>certs. v certs t = (None, t'))) \<and> (t' = t \<or> (\<exists>certs x. v certs t = (x, t'))))"

lemma mt_Save_expected: "mt_Save h f t = (x, t') \<Longrightarrow> mt_expected t' = mt_expected t"
  by (auto simp: mt_Save_def Let_def split: if_splits list.splits sum.splits)

lemma probe_verify_expected: "probe_verify h certs t = (x, t') \<Longrightarrow> mt_expected t' = mt_expected t"
  using mt_Save_expected
  by (fastforce simp: probe_verify_def VerifyConnection_def Let_def split: list.splits prod.splits option.splits)

lemma probe_verify_accepts:
  assumes "probe_verify h certs t = (None, t')" and "mt_expected t \<noteq> []"
  shows "\<exists>leaf rest. certs = leaf # rest \<and> EqualFingerprint (mt_expected t) (Fingerprint leaf) \<and> mt_fingerprint t' = Fingerprint leaf"
proof -
  obtain leaf rest where c: "certs = leaf # rest" using assms(1) by (auto simp: probe_verify_def VerifyConnection_def split: list.splits)
  then have "mt_Save h (Fingerprint leaf) t = (None, t')"
    using assms(1) by (auto simp: probe_verify_def VerifyConnection_def Let_def split: prod.splits option.splits)
  with c assms(2) show ?thesis by (auto simp: mt_Save_def Let_def Fingerprint_normal split: if_splits)
qed

lemma probe_dialD:
  assumes "probe_verifying dial" and "dial a v t = (r, t')"
  shows "r = Inr c \<Longrightarrow> \<exists>certs. v certs t = (None, t')" and "t' = t \<or> (\<exists>certs x. v certs t = (x, t'))"
  using assms unfolding probe_verifying_def by blast+

lemma probe_connect_pinned:
  assumes "probe_verifying DialQUIC" and "probe_verifying DialTLS" and "mt_expected t \<noteq> []"
    and "probe_connect slow DialQUIC DialTLS o1 t = (Inr (c, name), t')"
  shows "\<exists>leaf. EqualFingerprint (mt_expected t) (Fingerprint leaf) \<and> mt_fingerprint t' = Fingerprint leaf"
proof -
  let ?v = "probe_verify (addressHost (po_server o1))"
  have q: "\<exists>certs. ?v certs u = (None, u')" if "connectQUIC slow DialQUIC o1 u = (Inr d, u')" for u d u'
    using that probe_dialD(1) [OF assms(1), of "po_server o1" ?v u]
    by (auto simp: connectQUIC_def split: prod.splits sum.splits)
  have k: "\<exists>certs. ?v certs u = (None, u')" if "connectTCP slow DialTLS o1 u = (Inr d, u')" for u d u'
    using that probe_dialD(1) [OF assms(2), of "po_server o1" ?v u]
    by (auto simp: connectTCP_def split: prod.splits sum.splits)
  have ex: "mt_expected u' = mt_expected u" if "connectQUIC slow DialQUIC o1 u = (x, u')" for u x u'
    using that probe_dialD(2) [OF assms(1), of "po_server o1" ?v u] probe_verify_expected
    by (fastforce simp: connectQUIC_def split: prod.splits sum.splits)
  have "connectQUIC slow DialQUIC o1 t = (Inr c, t')
      \<or> (\<exists>u x. (u = t \<or> connectQUIC slow DialQUIC o1 t = (x, u)) \<and> connectTCP slow DialTLS o1 u = (Inr c, t'))"
    using assms(4) by (auto simp: probe_connect_def Let_def split: if_splits prod.splits sum.splits)
  then obtain u certs where u: "mt_expected u = mt_expected t" "?v certs u = (None, t')"
    using q k ex by metis
  from probe_verify_accepts [OF u(2)] u(1) assms(3) show ?thesis by auto
qed

text \<open>
  Remark (probe, pinned). With a fingerprint given, whichever transport is chosen or fallen back to, the probe gets a
  connection only to a server whose certificate has this fingerprint, which is also the one it reports.
\<close>

theorem probe_pins_fingerprint:
  assumes "probe_verifying DialQUIC" and "probe_verifying DialTLS" and "mt_expected t \<noteq> []"
    and "probe_connect slow DialQUIC DialTLS o1 t = (Inr (c, name), t')"
  shows "\<exists>leaf. EqualFingerprint (mt_expected t) (Fingerprint leaf) \<and> mt_fingerprint t' = Fingerprint leaf"
  using assms by (rule probe_connect_pinned)

text \<open>
  C0 (probe, consent). Without a fingerprint, the answer \<open>y\<close> to the question about one certificate is taken for every later
  one: a connection to a server with any other certificate, such as the TCP connection after the
  QUIC one, is accepted without a question.
\<close>

theorem probe_consent_covers_any_certificate:
  "\<exists>t. probe_verify h (a # r) (newMemoryTrust [] [Inr ''y'']) = (None, t)
    \<and> probe_verify h' (b # r') t = (None, t\<lparr>mt_fingerprint := Fingerprint b\<rparr>)"
proof -
  have n: "NormalizeFingerprint [] = []" "ToLower (TrimSpace ''y'') = ''y''" by code_simp+
  show ?thesis by (simp add: probe_verify_def VerifyConnection_def mt_Save_def newMemoryTrust_def n Fingerprint_normal Let_def)
qed

section \<open>Examples\<close>

definition ex_probe_dial :: "bytes list \<Rightarrow> 'c \<Rightarrow> 'c probe_dial" where
  "ex_probe_dial certs c a v t = (case v certs t of (Some e, t') \<Rightarrow> (Inl e, t') | (None, t') \<Rightarrow> (Inr c, t'))"

lemma ex_probe_verifying: "probe_verifying (ex_probe_dial certs c)"
  unfolding probe_verifying_def ex_probe_dial_def by (auto split: prod.splits option.splits)

theorem probe_pins_fingerprint_witness:
  "\<exists>t' leaf. probe_connect (\<lambda>_. False) (ex_probe_dial [] (Inl EOF)) (ex_probe_dial [[1]] \<lparr>rbuf = [], rend = EOF, wout = [], wres = []\<rparr>)
       \<lparr>po_server = ''s:1'', po_passphrase = ''prompt'', po_fingerprint = [], po_transport = ''auto'', po_sessionMode = ''safe'', po_target = ''t:1'', po_timeout = 1, po_httpPath = ''/''\<rparr>
       (newMemoryTrust (Fingerprint [1]) []) = (Inr (\<lparr>rbuf = [], rend = EOF, wout = [], wres = []\<rparr>, ProtocolTLS), t')
     \<and> EqualFingerprint (Fingerprint [1]) (Fingerprint leaf)"
proof -
  let ?o = "\<lparr>po_server = ''s:1'', po_passphrase = ''prompt'', po_fingerprint = [], po_transport = ''auto'', po_sessionMode = ''safe'', po_target = ''t:1'', po_timeout = 1, po_httpPath = ''/''\<rparr>"
  let ?c = "\<lparr>rbuf = [], rend = EOF, wout = [], wres = []\<rparr>" and ?t = "newMemoryTrust (Fingerprint [1]) []"
  have e: "mt_expected ?t = Fingerprint [1]" "mt_expected ?t \<noteq> []"
    using Fingerprint_nonempty [of "[1]"] by (simp_all add: newMemoryTrust_def Fingerprint_normal)
  have "\<exists>t'. probe_connect (\<lambda>_. False) (ex_probe_dial [] (Inl EOF)) (ex_probe_dial [[1]] ?c) ?o ?t = (Inr (?c, ProtocolTLS), t')"
    using e by (simp add: probe_connect_def connectQUIC_def connectTCP_def ex_probe_dial_def probe_verify_def VerifyConnection_def
        transportError_def mt_Save_def Fingerprint_normal EqualFingerprint_def Let_def)
  then obtain t' where t': "probe_connect (\<lambda>_. False) (ex_probe_dial [] (Inl EOF)) (ex_probe_dial [[1]] ?c) ?o ?t = (Inr (?c, ProtocolTLS), t')" ..
  from probe_pins_fingerprint [OF ex_probe_verifying ex_probe_verifying e(2) t'] e(1) t' show ?thesis by auto
qed

end
