(* ===== verification/Commands.thy ===== *)
theory Commands
  imports Shell Logging BundleProps Probe
begin

text \<open>
  The commands, \<open>run\<close> of \<open>src/cmd/lnproxy-node\<close>, \<open>src/cmd/lnproxy-client\<close>, \<open>src/cmd/lnproxy-windows-server\<close> and
  \<open>src/cmd/lnproxy-probe\<close>, from their parsed flags to what they start: how configuration, log, verifier, trust store and
  the components meet. What the process finds around it (directories, environment, terminal, random bytes, the key pair)
  is the record \<open>process\<close>.
\<close>

section \<open>The process\<close>

record process =
  pr_base :: "string res"
  pr_host :: string
  pr_windows :: bool
  pr_env :: "string \<Rightarrow> string option"
  pr_read :: "string \<Rightarrow> bytes res"
  pr_tty :: bool
  pr_typed :: "bytes res \<times> bytes res"
  pr_scan :: "string \<Rightarrow> string \<Rightarrow> string res"
  pr_kdf :: kdf
  pr_rnd :: "bytes res"
  pr_generated :: "(bytes \<times> bytes) res"
  pr_loadPair :: "string \<Rightarrow> string \<Rightarrow> error option"
  pr_now :: int

definition prompted :: "process \<Rightarrow> bool \<Rightarrow> string res" where
  "prompted P confirm = PromptPassphrase (pr_tty P) (fst (pr_typed P)) (snd (pr_typed P)) confirm"

text \<open>The question about an unknown fingerprint; \<open>pr_scan\<close> is the outcome of \<open>Fscanln\<close> after it was shown.\<close>

definition accepts :: "string \<Rightarrow> bool" where
  "accepts answer \<longleftrightarrow> ToLower (TrimSpace answer) \<in> {''y'', ''yes''}"

definition client_confirm :: "process \<Rightarrow> string \<Rightarrow> string \<Rightarrow> bool res" where
  "client_confirm P host fingerprint = (case pr_scan P host fingerprint of Inl e \<Rightarrow> Inl e | Inr answer \<Rightarrow> Inr (accepts answer))"

definition node_confirm :: "process \<Rightarrow> string \<Rightarrow> string \<Rightarrow> bool res" where
  "node_confirm P host fingerprint =
     (if \<not> pr_tty P
      then Inl (Msg ''standard input is not a terminal; run E once interactively to trust S or configure --fingerprint'')
      else case pr_scan P host fingerprint of Inl e \<Rightarrow> Inl e | Inr answer \<Rightarrow> Inr (accepts answer))"

section \<open>The node\<close>

definition loadExitKnownHosts :: "process \<Rightarrow> Node \<Rightarrow> fs \<Rightarrow> KnownHosts res \<times> fs" where
  "loadExitKnownHosts P cfg s =
     (case LoadKnownHosts (path_Join (nd_DataDirectory cfg) ''known-hosts.json'') s of
        (Inl e, s1) \<Rightarrow> (Inl (Wrapped ''load known hosts: '' e), s1)
      | (Inr k, s1) \<Rightarrow> (Inr (SetConfirmer (Some (node_confirm P)) k), s1))"

datatype started = Initialized | Serves Server | Exits_to Exit

definition node_exit :: "process \<Rightarrow> Node \<Rightarrow> fs \<Rightarrow> started res \<times> fs" where
  "node_exit P cfg0 s =
     (case NormalizeServerAddress (nd_ServerAddress cfg0) of
        Inl e \<Rightarrow> (Inl (Wrapped ''exit mode: '' e), s)
      | Inr address \<Rightarrow>
          let cfg = cfg0\<lparr>nd_ServerAddress := address\<rparr> in
          (case ResolvePassphrase (pr_env P) (pr_read P) (prompted P False) (nd_PassphraseSource cfg) of
             Inl e \<Rightarrow> (Inl e, s)
           | Inr passphrase \<Rightarrow>
               let e = NewExit cfg passphrase in
               if nd_ServerFingerprint cfg = [] then
                 (case loadExitKnownHosts P cfg s of
                    (Inl x, s1) \<Rightarrow> (Inl x, s1)
                  | (Inr k, s1) \<Rightarrow> (Inr (Exits_to (UseTrust k e)), s1))
               else (Inr (Exits_to e), s)))"

definition node_server :: "process \<Rightarrow> Node \<Rightarrow> fs \<Rightarrow> started res \<times> fs" where
  "node_server P cfg s =
     (case LoadVerifier (nd_VerifierFile cfg) s of
        (Inl e, s1) \<Rightarrow> (Inl (Wrapped ''load passphrase verifier (run --init first): '' e), s1)
      | (Inr verifier, s1) \<Rightarrow>
          (case pr_loadPair P (nd_CertificateFile cfg) (nd_KeyFile cfg) of
             Some e \<Rightarrow> (Inl (Wrapped ''load TLS certificate: '' e), s1)
           | None \<Rightarrow> (Inr (Serves (NewServer (pr_now P) cfg verifier)), s1)))"

definition node_run :: "process \<Rightarrow> string \<Rightarrow> options \<Rightarrow> fs \<Rightarrow> started res \<times> fs" where
  "node_run P role opts s =
     (case node_config (pr_base P) (pr_host P) role opts s of
        (Inl e, s1) \<Rightarrow> (Inl e, s1)
      | (Inr cfg, s1) \<Rightarrow>
          (case logging_New (pr_windows P) (nd_DataDirectory cfg) (nd_Console cfg \<or> op_init opts) s1 of
             (Inl e, s2) \<Rightarrow> (Inl e, s2)
           | (Inr log, s2) \<Rightarrow>
               if op_init opts then
                 (case Initialize (pr_kdf P) (pr_rnd P) (prompted P True) (pr_generated P) (pr_windows P) (pr_base P) (pr_host P)
                         cfg (op_config opts) s2 of
                    (Some e, s3) \<Rightarrow> (Inl e, s3)
                  | (None, s3) \<Rightarrow> (Inr Initialized, s3))
               else if nd_Role cfg = Role_Exit then node_exit P cfg s2
               else node_server P cfg s2))"

section \<open>The silent server\<close>

text \<open>\<open>run\<close> of \<open>lnproxy-windows-server\<close>, where \<open>outcome\<close> is what \<open>Server.Run\<close> returns when it ends; the result is the exit code.\<close>

definition windows_run :: "process \<Rightarrow> (string \<Rightarrow> bool) \<Rightarrow> (Server \<Rightarrow> error option) \<Rightarrow> fs \<Rightarrow> int \<times> fs" where
  "windows_run P dirs outcome s =
     (case DefaultDataDir (pr_base P) of
        Inl e \<Rightarrow> (1, s)
      | Inr dataDir \<Rightarrow>
          (case logging_New True dataDir False s of
             (Inl e, s1) \<Rightarrow> (1, s1)
           | (Inr log, s1) \<Rightarrow>
               (case silent_Run dirs (pr_base P) (pr_host P) (pr_loadPair P) (pr_now P) dataDir s1 of
                  (Inl e, s2) \<Rightarrow> (if errors_Is e Canceled then 0 else 1, s2)
                | (Inr sv, s2) \<Rightarrow>
                    (case outcome sv of None \<Rightarrow> 0 | Some e \<Rightarrow> if errors_Is e Canceled then 0 else 1, s2))))"

section \<open>The client\<close>

definition client_setup :: "process \<Rightarrow> bool \<Rightarrow> 'w SystemProxy \<Rightarrow> fs \<Rightarrow> 'w Runtime res \<times> fs" where
  "client_setup P socks5 sp s =
     (case DefaultDataDir (pr_base P) of
        Inl e \<Rightarrow> (Inl e, s)
      | Inr dataDir \<Rightarrow>
          (case logging_New (pr_windows P) [] True s of
             (Inl e, s1) \<Rightarrow> (Inl e, s1)
           | (Inr log, s1) \<Rightarrow>
               (case LoadKnownHosts (path_Join dataDir ''known-hosts.json'') s1 of
                  (Inl e, s2) \<Rightarrow> (Inl e, s2)
                | (Inr k, s2) \<Rightarrow>
                    (Inr (NewRuntime dataDir socks5 0 sp (NewManager (Some (SetConfirmer (Some (client_confirm P)) k)))), s2))))"

text \<open>
  \<open>run\<close>: the shell reads its lines, then the runtime is shut down. \<open>signalled\<close> says that a signal came before and the
  goroutine that waits for it is inside its own call of \<open>Shutdown\<close>, still draining, when the shell ends. \<open>None\<close> says that
  the shutdown is still waiting.
\<close>

definition client_run ::
  "process \<Rightarrow> bool \<Rightarrow> 'w SystemProxy \<Rightarrow> (shell_world \<times> string) list \<Rightarrow> bool \<Rightarrow> int \<Rightarrow> drain_event list \<Rightarrow> 'w environment \<Rightarrow>
   (error option \<times> 'w environment) option" where
  "client_run P socks5 sp typed signalled drain evs en =
     (case client_setup P socks5 sp (en_fs en) of
        (Inl e, s1) \<Rightarrow> Some (Some e, en\<lparr>en_fs := s1\<rparr>)
      | (Inr r, s1) \<Rightarrow>
          (case shell_Run typed (r, en\<lparr>en_fs := s1\<rparr>) of
             (out, r1, en1) \<Rightarrow>
               map_option (\<lambda>(e, r2, en2). (e, en2)) (Runtime_Shutdown drain evs (if signalled then shutdown_begin r1 else r1) en1)))"

section \<open>The probe\<close>

text \<open>
  \<open>pw_catalog\<close> gives what the session did until the select of \<open>startSession\<close> takes a case, and the case.
\<close>

record 't probe_world =
  pw_slow :: "error \<Rightarrow> bool"
  pw_QUIC :: "conn res probe_dial"
  pw_TLS :: "conn probe_dial"
  pw_late :: bool
  pw_catalog :: "session \<Rightarrow> catalog_event \<times> ExitInfo list option \<times> session"
  pw_dialed :: "session \<Rightarrow> OpenRequest \<Rightarrow> 't res"
  pw_answer :: "'t \<Rightarrow> string \<Rightarrow> (int \<times> int) res option"

text \<open>\<open>probe.run\<close>: no outcome while it waits for a catalogue.\<close>

definition probe_stages :: "kdf \<Rightarrow> 't probe_world \<Rightarrow> probe_options \<Rightarrow> string \<Rightarrow> memoryTrust \<Rightarrow> (int \<times> int) staged list" where
  "probe_stages kdf W o1 passphrase t =
     (case fst (probe_connect (pw_slow W) (pw_QUIC W) (pw_TLS W) o1 t) of
        Inl e \<Rightarrow> [Inl e]
      | Inr (c, name) \<Rightarrow>
          (case probe_authenticate (pw_late W) kdf passphrase c of
             Inl e \<Rightarrow> [Inl e]
           | Inr c1 \<Rightarrow>
               (case probe_session c1 of
                  Inl e \<Rightarrow> [Inl e]
                | Inr s \<Rightarrow>
                    (case pw_catalog W s of
                       (ev, ch, s1) \<Rightarrow>
                         map (\<lambda>r. case r of Inl e \<Rightarrow> Inl e | Inr exits \<Rightarrow> testHTTP (pw_slow W) (pw_dialed W s1) (pw_answer W) o1)
                           (catalog_select ev ch s1)))))"

text \<open>\<open>run\<close>: \<open>flags\<close> is the outcome of parsing the flags, \<open>None\<close> for a request for help.\<close>

definition probe_run :: "process \<Rightarrow> 't probe_world \<Rightarrow> probe_options res option \<Rightarrow> string res list \<Rightarrow> int list" where
  "probe_run P W flags answers =
     (case flags of
        None \<Rightarrow> [0]
      | Some (Inl e) \<Rightarrow> [1]
      | Some (Inr o0) \<Rightarrow>
          (case check_options o0 of
             Inl e \<Rightarrow> [1]
           | Inr o1 \<Rightarrow>
               (case ResolvePassphrase (pr_env P) (pr_read P) (prompted P False) (po_passphrase o1) of
                  Inl e \<Rightarrow> [1]
                | Inr passphrase \<Rightarrow>
                    map exit_code (probe_stages (pr_kdf P) W o1 passphrase (newMemoryTrust (po_fingerprint o1) answers)))))"

end
