(* ===== verification/CommandsProps.thy ===== *)
theory CommandsProps
  imports Commands
begin

text \<open>
  The commands against each other: a node that was initialized starts with the passphrase it was given, a probe that passes
  has met the pinned server and proved the passphrase, a client that is told to quit while it shuts down is gone before
  the settings of the desktop are back.
\<close>

section \<open>The node\<close>

lemma apply_options_filled: "fill base host (apply_options opts (fill base host n)) = apply_options opts (fill base host n)"
  by (auto simp: fill_def apply_options_def str_else_def or_else_def Let_def)

definition fresh_config :: "string res \<Rightarrow> string \<Rightarrow> string \<Rightarrow> options \<Rightarrow> Node res" where
  "fresh_config base host role opts =
     (case DefaultNode base host role of
        Inl e \<Rightarrow> Inl e
      | Inr n \<Rightarrow> Inr (apply_options opts (fill base host (if op_dataDir opts \<noteq> [] then n\<lparr>nd_DataDirectory := op_dataDir opts\<rparr> else n))))"

lemma fresh_config_keeps:
  assumes "fresh_config base host role opts = Inr cfg"
  shows "fill base host cfg = cfg" and "nd_Role cfg = role"
proof -
  obtain n where n: "DefaultNode base host role = Inr n"
    "cfg = apply_options opts (fill base host (if op_dataDir opts \<noteq> [] then n\<lparr>nd_DataDirectory := op_dataDir opts\<rparr> else n))"
    using assms by (auto simp: fresh_config_def split: sum.splits)
  show "fill base host cfg = cfg" unfolding n(2) by (rule apply_options_filled)
  have "nd_Role n = role" using n(1) by (auto simp: DefaultNode_def split: sum.splits)
  then show "nd_Role cfg = role" by (simp add: n(2) apply_options_def fill_def Let_def)
qed

lemma node_config_fresh:
  assumes "op_config opts = []"
  shows "\<exists>s'. node_config base host role (opts\<lparr>op_init := b\<rparr>) s = (fresh_config base host role opts, s') \<and> (fs_calls s = [] \<longrightarrow> s' = s)"
proof -
  have a: "apply_options (opts\<lparr>op_init := b\<rparr>) = apply_options opts" by (simp add: apply_options_def fun_eq_iff)
  show ?thesis
    using assms by (cases "DefaultNode base host role")
      (simp_all add: node_config_def with_options_def FillPaths_def fresh_config_def Let_def os_MkdirAll_def next_call_def a)
qed

lemma logging_done:
  assumes "fs_calls s = []"
  shows "\<exists>log s'. logging_New windows dir console s = (Inr log, s') \<and> fs_calls s' = []
    \<and> (\<forall>q. q \<noteq> path_Join dir ''lnproxy.log'' \<longrightarrow> fs_files s' q = fs_files s q)"
  using assms
  by (auto simp: logging_New_def newRotatingWriter_def rw_open_file_def os_MkdirAll_def os_OpenAppend_def os_Stat_size_def next_call_def
      Let_def split: option.splits)

text \<open>A node that was initialized starts with the same options.\<close>

lemma initialized_run_serves:
  assumes "node_run P role (opts\<lparr>op_init := True\<rparr>) s = (Inr Initialized, s1)" and "op_config opts = []" and "role \<noteq> Role_Exit"
    and "fresh_config (pr_base P) (pr_host P) role opts = Inr cfg" and "fs_calls s1 = []"
    and "apart [nd_VerifierFile cfg, nd_CertificateFile cfg, nd_KeyFile cfg, path_Join (nd_DataDirectory cfg) ''node.json'']"
    and "nd_VerifierFile cfg \<noteq> path_Join (nd_DataDirectory cfg) ''lnproxy.log''"
    and "pr_loadPair P (nd_CertificateFile cfg) (nd_KeyFile cfg) = None"
    and "\<And>salt. pr_rnd P = Inr salt \<Longrightarrow> 8 \<le> length salt" and "\<And>pass salt. length (Derive (pr_kdf P) pass salt DefaultParameters) = keyLength"
  shows "\<exists>pass v s2. prompted P True = Inr pass \<and> Verifier_Verify (pr_kdf P) v pass
    \<and> node_run P role (opts\<lparr>op_init := False\<rparr>) s1 = (Inr (Serves (NewServer (pr_now P) cfg v)), s2)"
proof -
  note c = fresh_config_keeps [OF assms(4)]
  obtain t1 t2 where i: "Initialize (pr_kdf P) (pr_rnd P) (prompted P True) (pr_generated P) (pr_windows P) (pr_base P) (pr_host P) cfg [] t1 = (None, t2)"
    "t2 = s1"
    using assms(1,2) node_config_fresh [OF assms(2), of "pr_base P" "pr_host P" role True s] assms(4)
    by (auto simp: node_run_def split: prod.splits sum.splits option.splits)
  obtain pass v where f: "prompted P True = Inr pass" "NewVerifier (pr_kdf P) (pr_rnd P) pass = Inr v"
    "fs_files s1 (nd_VerifierFile cfg) = Some \<lparr>fl_data = verifier_text v, fl_mode = mode_0600\<rparr>"
    using Initialize_files [OF i(1) _ c(1) refl assms(6)] c(2) assms(3) i(2) by auto
  have v: "8 \<le> length (vf_Salt v)" "length (vf_Hash v) = keyLength" "Verifier_Verify (pr_kdf P) v pass"
    using f(2) assms(9,10) by (auto simp: NewVerifier_def Verifier_Verify_def split: sum.splits)
  have n: "node_config (pr_base P) (pr_host P) role (opts\<lparr>op_init := False\<rparr>) s1 = (Inr cfg, s1)"
    using node_config_fresh [OF assms(2), of "pr_base P" "pr_host P" role False s1] assms(4,5) by auto
  obtain log s2 where l: "logging_New (pr_windows P) (nd_DataDirectory cfg) (nd_Console cfg) s1 = (Inr log, s2)" "fs_calls s2 = []"
    "fs_files s2 (nd_VerifierFile cfg) = fs_files s1 (nd_VerifierFile cfg)"
    using logging_done [OF assms(5)] assms(7) by blast
  have "LoadVerifier (nd_VerifierFile cfg) s2 = (Inr v, s2)"
    by (rule LoadVerifier_stored [OF v(1,2) l(2)]) (simp add: l(3) f(3))
  then have "node_run P role (opts\<lparr>op_init := False\<rparr>) s1 = (Inr (Serves (NewServer (pr_now P) cfg v)), s2)"
    using n l(1) c(2) assms(3,8) by (simp add: node_run_def node_server_def)
  with f(1) v(3) show ?thesis by blast
qed

section \<open>The probe\<close>


section \<open>The client\<close>

text \<open>
  Remark (quitting twice). When the shell ends while the goroutine of a signal is draining inside \<open>Shutdown\<close>, the second call
  returns at once and the process ends: the desktop keeps the settings that point to the proxies of the dead process, and
  only the journal remains for the next start to undo it.
\<close>

theorem quit_overtakes_shutdown:
  assumes "client_setup P socks5 (Windows R) (en_fs en) = (Inr r, s1)" and "shell_Run typed (r, en\<lparr>en_fs := s1\<rparr>) = (out, r1, en1)"
  shows "client_run P socks5 (Windows R) typed True drain evs en = Some (None, en1)"
  using assms by (simp add: client_run_def Runtime_Shutdown_def shutdown_begin_def)

section \<open>Examples\<close>

lemma os_succeeds:
  assumes "fs_calls s = []"
  shows "os_MkdirAll p s = (None, s)" and "\<exists>s'. os_WriteFile p d m s = (None, s') \<and> fs_calls s' = [] \<and> fs_files s' p \<noteq> None"
    and "fs_files s p \<noteq> None \<Longrightarrow> \<exists>s'. os_Chmod p m s = (None, s') \<and> fs_calls s' = [] \<and> fs_files s' p \<noteq> None"
    and "fs_files s p \<noteq> None \<Longrightarrow> \<exists>s'. os_Rename p q s = (None, s') \<and> fs_calls s' = []"
  using assms by (auto simp: os_MkdirAll_def os_WriteFile_def os_Chmod_def os_Rename_def next_call_def Let_def)

lemma replace_file_succeeds:
  assumes "fs_calls s = []" shows "\<exists>s'. replace_file p chmod d m s = (None, s') \<and> fs_calls s' = []"
proof -
  obtain s1 where s1: "os_WriteFile (temp_of p) d m s = (None, s1)" "fs_calls s1 = []" "fs_files s1 (temp_of p) \<noteq> None"
    using os_succeeds(2) [OF assms] by blast
  obtain s2 where s2: "(case chmod of None \<Rightarrow> (None, s1) | Some m' \<Rightarrow> os_Chmod (temp_of p) m' s1) = (None, s2)" "fs_calls s2 = []"
    "fs_files s2 (temp_of p) \<noteq> None"
    using os_succeeds(3) [OF s1(2,3)] s1(2,3) by (cases chmod) auto
  obtain s3 where "os_Rename (temp_of p) p s2 = (None, s3)" "fs_calls s3 = []" using os_succeeds(4) [OF s2(2,3)] by blast
  with s1 s2 os_succeeds(1) [OF assms] show ?thesis by (simp add: replace_file_def)
qed

lemma writeFile_succeeds:
  assumes "fs_calls s = []" shows "\<exists>s'. writeFile w p d m s = (None, s') \<and> fs_calls s' = []"
proof -
  obtain s1 where s1: "os_WriteFile (temp_of p) d m s = (None, s1)" "fs_calls s1 = []" "fs_files s1 (temp_of p) \<noteq> None"
    using os_succeeds(2) [OF assms] by blast
  obtain s2 where s2: "os_Chmod (temp_of p) m s1 = (None, s2)" "fs_calls s2 = []" "fs_files s2 (temp_of p) \<noteq> None"
    using os_succeeds(3) [OF s1(2,3)] by blast
  obtain s3 where "os_Rename (temp_of p) p s2 = (None, s3)" "fs_calls s3 = []" using os_succeeds(4) [OF s2(2,3)] by blast
  with s1 s2 show ?thesis by (simp add: writeFile_def)
qed

lemma Initialize_succeeds:
  assumes "fs_calls s = []" and "fs_files s (nd_VerifierFile cfg) = None" and "NewVerifier kdf rnd pass = Inr v"
  shows "\<exists>s'. Initialize kdf rnd (Inr pass) (Inr (cert, key)) w base host cfg path s = (None, s') \<and> fs_calls s' = []"
proof -
  have st: "os_Stat_ok (nd_VerifierFile cfg) s = (Some ErrNotExist, s)" using assms(1,2) by (simp add: os_Stat_ok_def next_call_def)
  obtain s1 where s1: "Verifier_Save v (nd_VerifierFile cfg) s = (None, s1)" "fs_calls s1 = []"
    unfolding Verifier_Save_def writePrivateFile_def by (meson replace_file_succeeds [OF assms(1)])
  obtain s2 where s2: "writeFile w (nd_CertificateFile cfg) cert mode_644 s1 = (None, s2)" "fs_calls s2 = []" using writeFile_succeeds [OF s1(2)] by blast
  obtain s3 where s3: "writeFile w (nd_KeyFile cfg) key mode_600 s2 = (None, s3)" "fs_calls s3 = []" using writeFile_succeeds [OF s2(2)] by blast
  have g: "GenerateCertificate (Inr (cert, key)) w (nd_CertificateFile cfg) (nd_KeyFile cfg) s1 = (None, s3)"
    using s2 s3 os_succeeds(1) [OF s1(2)] by (simp add: GenerateCertificate_def)
  have n: "\<exists>s'. SaveNode base host p cfg t = (None, s') \<and> fs_calls s' = []" if "fs_calls t = []" for t p
    using replace_file_succeeds [OF that] os_succeeds(1) [OF that] by (simp add: SaveNode_def FillPaths_def Let_def)
  show ?thesis
    using n [OF s1(2)] n [OF s3(2)] g s1 st os_succeeds(1) [OF assms(1)] assms(3) by (simp add: Initialize_def)
qed

definition ex_process :: process where
  "ex_process = \<lparr>pr_base = Inr ''c'', pr_host = ''h'', pr_windows = False, pr_env = (\<lambda>_. None), pr_read = (\<lambda>_. Inl ErrNotExist),
     pr_tty = True, pr_typed = (Inr (bytes_of ''pw''), Inr (bytes_of ''pw'')), pr_scan = (\<lambda>_ _. Inr ''y''), pr_kdf = ex_kdf,
     pr_rnd = Inr (replicate 16 1), pr_generated = Inr ([1], [2]), pr_loadPair = (\<lambda>_ _. None), pr_now = 5\<rparr>"

definition ex_cfg :: Node where
  "ex_cfg = apply_options (ex_options\<lparr>op_dataDir := []\<rparr>) (fill (Inr ''c'') ''h'' (projr (DefaultNode (Inr ''c'') ''h'' Role_Server)))"

lemma ex_cfg_facts:
  "fresh_config (Inr ''c'') ''h'' Role_Server (ex_options\<lparr>op_dataDir := []\<rparr>) = Inr ex_cfg"
  "nd_Role ex_cfg = Role_Server" "nd_DataDirectory ex_cfg = ''c/lnproxy''" "nd_VerifierFile ex_cfg = ''c/lnproxy/passphrase.json''"
  "apart [nd_VerifierFile ex_cfg, nd_CertificateFile ex_cfg, nd_KeyFile ex_cfg, path_Join (nd_DataDirectory ex_cfg) ''node.json'']"
  "nd_VerifierFile ex_cfg \<noteq> path_Join (nd_DataDirectory ex_cfg) ''lnproxy.log''"
  "path_Join ''c/lnproxy'' ''lnproxy.log'' = ''c/lnproxy/lnproxy.log''"
proof -
  show "fresh_config (Inr ''c'') ''h'' Role_Server (ex_options\<lparr>op_dataDir := []\<rparr>) = Inr ex_cfg"
    by (simp add: fresh_config_def ex_cfg_def DefaultNode_def DefaultDataDir_def)
qed (code_simp+)

lemma ex_prompted: "prompted ex_process c = Inr ''pw''"
proof -
  have "string_of (bytes_of ''pw'') = ''pw''" "length (bytes_of ''pw'') \<noteq> 0" by code_simp+
  then show ?thesis by (simp add: prompted_def ex_process_def PromptPassphrase_def)
qed

definition ex_probe_world :: "unit probe_world" where
  "ex_probe_world = \<lparr>pw_slow = (\<lambda>_. False), pw_QUIC = ex_probe_dial [] (Inl EOF), pw_TLS = ex_probe_dial [[1]] ex_server_side,
     pw_late = False, pw_catalog = (\<lambda>s. (CatalogReceived, Some [], s)), pw_dialed = (\<lambda>_ _. Inr ()), pw_answer = (\<lambda>_ _. Some (Inr (200, 5)))\<rparr>"

definition ex_probe_options :: probe_options where
  "ex_probe_options = \<lparr>po_server = ''s:1'', po_passphrase = ''prompt'', po_fingerprint = Fingerprint [1], po_transport = ''auto'',
     po_sessionMode = ''safe'', po_target = ''t:1'', po_timeout = 1, po_httpPath = ''/''\<rparr>"

lemma ex_probe_checks: "check_options ex_probe_options = Inr ex_probe_options"
proof -
  have n: "NormalizeServerAddress ''s:1'' = Inr ''s:1''" by code_simp
  have p: "parseTarget ''t:1'' = Inr (''t'', 1)" by code_simp
  show ?thesis by (simp add: check_options_def ex_probe_options_def n p)
qed

lemma ex_probe_connects:
  "\<exists>t'. probe_connect (\<lambda>_. False) (ex_probe_dial [] (Inl EOF)) (ex_probe_dial [[1]] c) ex_probe_options (newMemoryTrust (Fingerprint [1]) [])
     = (Inr (c, ProtocolTLS), t')"
proof -
  have e: "mt_expected (newMemoryTrust (Fingerprint [1]) []) = Fingerprint [1]" "Fingerprint [1] \<noteq> []"
    using Fingerprint_nonempty [of "[1]"] by (simp_all add: newMemoryTrust_def Fingerprint_normal)
  then show ?thesis by (simp add: probe_connect_def connectQUIC_def connectTCP_def ex_probe_dial_def probe_verify_def VerifyConnection_def
        transportError_def mt_Save_def Fingerprint_normal EqualFingerprint_def ex_probe_options_def Let_def)
qed


theorem quit_overtakes_shutdown_witness:
  "\<exists>r en1. client_setup ex_process False (Windows ex_registry_key) (en_fs ex_place) = (Inr r, en_fs ex_place)
     \<and> client_run ex_process False (Windows ex_registry_key) [] True 10 [] ex_place = Some (None, en1)"
proof -
  obtain r where r: "client_setup ex_process False (Windows ex_registry_key) (en_fs ex_place) = (Inr r, en_fs ex_place)"
    by (simp add: client_setup_def ex_process_def DefaultDataDir_def logging_New_def LoadKnownHosts_def os_ReadFile_def ex_place_def next_call_def
        errors_Is_def)
  from quit_overtakes_shutdown [OF r, of "[]"] r show ?thesis by simp
qed

end
