(* ===== verification/Flags.thy ===== *)
theory Flags
  imports GoLib
begin

text \<open>
  How the commands read their arguments: what \<open>src/cmd\<close> uses of the packages \<open>flag\<close>, \<open>strconv\<close> and \<open>time\<close> of the standard
  library. A flag set is the list of its flags, each with its kind and the field it sets. The product of the fraction of a
  duration and its unit is computed in floating point in Go and an argument (\<open>fraction\<close>) here.
\<close>

section \<open>Numbers and truth values\<close>

definition ParseBool :: "string \<Rightarrow> bool option" where
  "ParseBool s =
     (if s \<in> {''1'', ''t'', ''T'', ''true'', ''TRUE'', ''True''} then Some True
      else if s \<in> {''0'', ''f'', ''F'', ''false'', ''FALSE'', ''False''} then Some False
      else None)"

datatype num_error = Syntax | Range

definition digit_of :: "char \<Rightarrow> nat option" where
  "digit_of c =
     (let n = (of_char (lower_char c) :: nat) in
      if is_digit c then Some (digit_val c) else if 97 \<le> n \<and> n \<le> 122 then Some (n - 97 + 10) else None)"

text \<open>\<open>ParseUint(s, 0, 64)\<close>: the base is read off the prefix, and underscores may separate digits.\<close>

fun uint_digits :: "nat \<Rightarrow> nat \<Rightarrow> string \<Rightarrow> num_error + nat" where
  "uint_digits base n [] = Inr n"
| "uint_digits base n (c # cs) =
     (if c = CHR ''_'' then uint_digits base n cs
      else case digit_of c of
        None \<Rightarrow> Inl Syntax
      | Some d \<Rightarrow> if base \<le> d then Inl Syntax else if 2 ^ 64 \<le> n * base + d then Inl Range else uint_digits base (n * base + d) cs)"

definition base_of :: "string \<Rightarrow> nat \<times> string" where
  "base_of s =
     (if hd s \<noteq> CHR ''0'' then (10, s)
      else if 3 \<le> length s \<and> lower_char (s ! 1) = CHR ''b'' then (2, drop 2 s)
      else if 3 \<le> length s \<and> lower_char (s ! 1) = CHR ''o'' then (8, drop 2 s)
      else if 3 \<le> length s \<and> lower_char (s ! 1) = CHR ''x'' then (16, drop 2 s)
      else (8, tl s))"

text \<open>\<open>underscoreOK\<close>: the last character seen is the start, a digit, an underscore or another one.\<close>

datatype seen = SawStart | SawDigit | SawUnderscore | SawOther

fun underscores_from :: "bool \<Rightarrow> seen \<Rightarrow> string \<Rightarrow> bool" where
  "underscores_from hex saw [] \<longleftrightarrow> saw \<noteq> SawUnderscore"
| "underscores_from hex saw (c # cs) \<longleftrightarrow>
     (if is_digit c \<or> (hex \<and> lower_char c \<in> set ''abcdef'') then underscores_from hex SawDigit cs
      else if c = CHR ''_'' then saw = SawDigit \<and> underscores_from hex SawUnderscore cs
      else saw \<noteq> SawUnderscore \<and> underscores_from hex SawOther cs)"

definition underscoreOK :: "string \<Rightarrow> bool" where
  "underscoreOK s0 =
     (let s = (if s0 \<noteq> [] \<and> (hd s0 = CHR ''-'' \<or> hd s0 = CHR ''+'') then tl s0 else s0) in
      if 2 \<le> length s \<and> hd s = CHR ''0'' \<and> lower_char (s ! 1) \<in> set ''box''
      then underscores_from (lower_char (s ! 1) = CHR ''x'') SawDigit (drop 2 s)
      else underscores_from False SawStart s)"

definition ParseUint0 :: "string \<Rightarrow> num_error + nat" where
  "ParseUint0 s =
     (if s = [] then Inl Syntax
      else case base_of s of
        (base, ds) \<Rightarrow>
          (case uint_digits base 0 ds of
             Inl e \<Rightarrow> Inl e
           | Inr n \<Rightarrow> if CHR ''_'' \<in> set ds \<and> \<not> underscoreOK s then Inl Syntax else Inr n))"

definition ParseInt0 :: "string \<Rightarrow> num_error + int" where
  "ParseInt0 s =
     (if s = [] then Inl Syntax
      else
        let neg = (hd s = CHR ''-''); u = (if hd s = CHR ''-'' \<or> hd s = CHR ''+'' then tl s else s) in
        (case ParseUint0 u of
           Inl e \<Rightarrow> Inl e
         | Inr n \<Rightarrow>
             if \<not> neg \<and> 2 ^ 63 \<le> n then Inl Range
             else if neg \<and> 2 ^ 63 < n then Inl Range
             else Inr (if neg then - int n else int n)))"

section \<open>Durations\<close>

fun leadingInt :: "nat \<Rightarrow> string \<Rightarrow> (nat \<times> string) option" where
  "leadingInt x [] = Some (x, [])"
| "leadingInt x (c # cs) =
     (if \<not> is_digit c then Some (x, c # cs)
      else if 2 ^ 63 div 10 < x then None
      else if 2 ^ 63 < x * 10 + digit_val c then None
      else leadingInt (x * 10 + digit_val c) cs)"

text \<open>The digits of a fraction, the number of those that count, and the rest; digits that no longer fit are dropped.\<close>

fun leadingFraction :: "nat \<Rightarrow> nat \<Rightarrow> bool \<Rightarrow> string \<Rightarrow> nat \<times> nat \<times> string" where
  "leadingFraction x scale overflow [] = (x, scale, [])"
| "leadingFraction x scale overflow (c # cs) =
     (if \<not> is_digit c then (x, scale, c # cs)
      else if overflow \<or> (2 ^ 63 - 1) div 10 < x \<or> 2 ^ 63 < x * 10 + digit_val c then leadingFraction x scale True cs
      else leadingFraction (x * 10 + digit_val c) (Suc scale) False cs)"

definition unit_of :: "string \<Rightarrow> nat option" where
  "unit_of u = map_of [(''ns'', 1), (''us'', 10 ^ 3), ([CHR 0xC2, CHR 0xB5, CHR ''s''], 10 ^ 3), ([CHR 0xCE, CHR 0xBC, CHR ''s''], 10 ^ 3),
     (''ms'', 10 ^ 6), (''s'', 10 ^ 9), (''m'', 60 * 10 ^ 9), (''h'', 3600 * 10 ^ 9)] u"

definition unit_char :: "char \<Rightarrow> bool" where
  "unit_char c \<longleftrightarrow> c \<noteq> CHR ''.'' \<and> \<not> is_digit c"

text \<open>One number with its unit: its value in nanoseconds and the rest.\<close>

definition duration_part :: "(nat \<Rightarrow> nat \<Rightarrow> nat \<Rightarrow> nat) \<Rightarrow> string \<Rightarrow> (nat \<times> string) option" where
  "duration_part fraction s =
     (if s = [] \<or> unit_char (hd s) then None
      else case leadingInt 0 s of
        None \<Rightarrow> None
      | Some (v, s1) \<Rightarrow>
          let pre = (length s1 \<noteq> length s);
              (f, scale, s2, post) =
                (if s1 \<noteq> [] \<and> hd s1 = CHR ''.''
                 then (case leadingFraction 0 0 False (tl s1) of (f, k, r) \<Rightarrow> (f, k, r, length r \<noteq> length (tl s1)))
                 else (0, 0, s1, False));
              u = takeWhile unit_char s2
          in if \<not> pre \<and> \<not> post then None
             else if u = [] then None
             else case unit_of u of
               None \<Rightarrow> None
             | Some unit \<Rightarrow>
                 if 2 ^ 63 div unit < v then None
                 else
                   let w = v * unit + (if 0 < f then fraction f scale unit else 0) in
                   if 0 < f \<and> 2 ^ 63 < w then None else Some (w, dropWhile unit_char s2))"

text \<open>The loop: each part is shorter than what is left, so that the length of the text is enough fuel.\<close>

fun duration_parts :: "nat \<Rightarrow> (nat \<Rightarrow> nat \<Rightarrow> nat \<Rightarrow> nat) \<Rightarrow> nat \<Rightarrow> string \<Rightarrow> nat option" where
  "duration_parts 0 fraction d s = (if s = [] then Some d else None)"
| "duration_parts (Suc n) fraction d s =
     (if s = [] then Some d
      else case duration_part fraction s of
        None \<Rightarrow> None
      | Some (v, r) \<Rightarrow> if 2 ^ 63 < (d + v) mod 2 ^ 64 then None else duration_parts n fraction ((d + v) mod 2 ^ 64) r)"

definition ParseDuration :: "(nat \<Rightarrow> nat \<Rightarrow> nat \<Rightarrow> nat) \<Rightarrow> string \<Rightarrow> int option" where
  "ParseDuration fraction s0 =
     (let neg = (s0 \<noteq> [] \<and> hd s0 = CHR ''-''); s = (if s0 \<noteq> [] \<and> (hd s0 = CHR ''-'' \<or> hd s0 = CHR ''+'') then tl s0 else s0) in
      if s = ''0'' then Some 0
      else if s = [] then None
      else case duration_parts (length s) fraction 0 s of
        None \<Rightarrow> None
      | Some d \<Rightarrow> if neg then Some (wrap64 (- int d)) else if 2 ^ 63 - 1 < d then None else Some (int d))"

text \<open>The fuel is enough: every part takes at least one character.\<close>

lemma leadingInt_length: "leadingInt x s = Some (v, r) \<Longrightarrow> length r \<le> length s"
  by (induction x s rule: leadingInt.induct) (auto split: if_splits)

lemma leadingFraction_length: "leadingFraction x k b s = (v, k', r) \<Longrightarrow> length r \<le> length s"
  by (induction x k b s rule: leadingFraction.induct) (auto split: if_splits)

lemma duration_part_shorter:
  assumes "duration_part fraction s = Some (w, r)"
  shows "length r < length s"
proof -
  obtain v s1 where v: "leadingInt 0 s = Some (v, s1)" using assms by (auto simp: duration_part_def split: if_splits option.splits)
  note l = leadingInt_length [OF v]
  have d: "length (dropWhile unit_char t) < length t" if "takeWhile unit_char t \<noteq> []" for t
    using that by (cases t) (auto simp: length_dropWhile_le le_imp_less_Suc split: if_splits)
  show ?thesis
  proof (cases "s1 \<noteq> [] \<and> hd s1 = CHR ''.''")
    case True
    obtain f k t where t: "leadingFraction 0 0 False (tl s1) = (f, k, t)" by (metis prod_cases3)
    have "length t \<le> length (tl s1)" by (rule leadingFraction_length [OF t])
    moreover have "r = dropWhile unit_char t" "takeWhile unit_char t \<noteq> []"
      using assms v True t by (auto simp: duration_part_def Let_def split: if_splits option.splits)
    ultimately show ?thesis using d [of t] l by simp
  next
    case False
    then have "r = dropWhile unit_char s1" "takeWhile unit_char s1 \<noteq> []"
      using assms v by (auto simp: duration_part_def Let_def split: if_splits option.splits)
    then show ?thesis using d [of s1] l by simp
  qed
qed

lemma duration_parts_Nil [simp]: "duration_parts n fraction d [] = Some d"
  by (cases n) simp_all

lemma duration_parts_fuel:
  "length s \<le> n \<Longrightarrow> length s \<le> m \<Longrightarrow> duration_parts n fraction d s = duration_parts m fraction d s"
proof (induction n arbitrary: m d s)
  case (Suc n)
  show ?case
  proof (cases "s = []")
    case False
    then obtain k where m: "m = Suc k" using Suc.prems by (cases m) auto
    have "duration_parts n fraction e r = duration_parts k fraction e r" if "duration_part fraction s = Some (v, r)" for v r e
      using Suc.IH [of r k e] Suc.prems duration_part_shorter [OF that] by (simp add: m)
    then show ?thesis using m by (simp split: option.splits)
  qed simp
qed simp

section \<open>Flag sets\<close>

datatype 'o flag_value =
    BoolVar "bool \<Rightarrow> 'o \<Rightarrow> 'o"
  | StringVar "string \<Rightarrow> 'o \<Rightarrow> 'o"
  | IntVar "int \<Rightarrow> 'o \<Rightarrow> 'o"
  | DurationVar "int \<Rightarrow> 'o \<Rightarrow> 'o"

type_synonym 'o flag_set = "(string \<times> 'o flag_value) list"

definition ErrHelp :: error where "ErrHelp = Msg ''flag: help requested''"

definition num_text :: "num_error \<Rightarrow> string" where
  "num_text e = (case e of Syntax \<Rightarrow> ''parse error'' | Range \<Rightarrow> ''value out of range'')"

text \<open>\<open>Value.Set\<close>, with the text of its error.\<close>

definition flag_Set :: "(nat \<Rightarrow> nat \<Rightarrow> nat \<Rightarrow> nat) \<Rightarrow> 'o flag_value \<Rightarrow> string \<Rightarrow> 'o \<Rightarrow> string + 'o" where
  "flag_Set fraction v text opts =
     (case v of
        BoolVar f \<Rightarrow> (case ParseBool text of None \<Rightarrow> Inl ''parse error'' | Some b \<Rightarrow> Inr (f b opts))
      | StringVar f \<Rightarrow> Inr (f text opts)
      | IntVar f \<Rightarrow> (case ParseInt0 text of Inl e \<Rightarrow> Inl (num_text e) | Inr n \<Rightarrow> Inr (f n opts))
      | DurationVar f \<Rightarrow> (case ParseDuration fraction text of None \<Rightarrow> Inl ''parse error'' | Some d \<Rightarrow> Inr (f d opts)))"

text \<open>A name and, behind the first equals sign that is not its first character, a value.\<close>

definition split_flag :: "string \<Rightarrow> string \<times> string option" where
  "split_flag s =
     (let n = hd s # takeWhile (\<lambda>c. c \<noteq> CHR ''='') (tl s); r = dropWhile (\<lambda>c. c \<noteq> CHR ''='') (tl s) in
      (n, if r = [] then None else Some (tl r)))"

text \<open>
  \<open>FlagSet.Parse\<close>: arguments are taken while they are flags. The outcome is the error, or the options and the arguments that
  are left.
\<close>

fun flag_Parse :: "(nat \<Rightarrow> nat \<Rightarrow> nat \<Rightarrow> nat) \<Rightarrow> 'o flag_set \<Rightarrow> string list \<Rightarrow> 'o \<Rightarrow> ('o \<times> string list) res" where
  "flag_Parse fraction fs [] opts = Inr (opts, [])"
| "flag_Parse fraction fs (s # args) opts =
     (if length s < 2 \<or> hd s \<noteq> CHR ''-'' then Inr (opts, s # args)
      else if s = ''--'' then Inr (opts, args)
      else
        let name0 = (if s ! 1 = CHR ''-'' then drop 2 s else tl s) in
        if name0 = [] \<or> hd name0 = CHR ''-'' \<or> hd name0 = CHR ''='' then Inl (Msg (''bad flag syntax: '' @ s))
        else case split_flag name0 of
          (name, given) \<Rightarrow>
            (case map_of fs name of
               None \<Rightarrow> if name = ''help'' \<or> name = ''h'' then Inl ErrHelp else Inl (Msg (''flag provided but not defined: -'' @ name))
             | Some (BoolVar f) \<Rightarrow>
                 (case given of
                    Some value \<Rightarrow>
                      (case flag_Set fraction (BoolVar f) value opts of
                         Inl e \<Rightarrow> Inl (Msg (''invalid boolean value '' @ quoted value @ '' for -'' @ name @ '': '' @ e))
                       | Inr o1 \<Rightarrow> flag_Parse fraction fs args o1)
                  | None \<Rightarrow> flag_Parse fraction fs args (f True opts))
             | Some v \<Rightarrow>
                 (case given of
                    Some value \<Rightarrow>
                      (case flag_Set fraction v value opts of
                         Inl e \<Rightarrow> Inl (Msg (''invalid value '' @ quoted value @ '' for flag -'' @ name @ '': '' @ e))
                       | Inr o1 \<Rightarrow> flag_Parse fraction fs args o1)
                  | None \<Rightarrow>
                      (case args of
                         [] \<Rightarrow> Inl (Msg (''flag needs an argument: -'' @ name))
                       | value # rest \<Rightarrow>
                           (case flag_Set fraction v value opts of
                              Inl e \<Rightarrow> Inl (Msg (''invalid value '' @ quoted value @ '' for flag -'' @ name @ '': '' @ e))
                            | Inr o1 \<Rightarrow> flag_Parse fraction fs rest o1)))))"

declare flag_Parse.simps(2) [simp del]

section \<open>Printing and parsing\<close>

text \<open>A flag with its value as one argument.\<close>

definition flag_arg :: "string \<Rightarrow> string \<Rightarrow> string" where
  "flag_arg name val = ''--'' @ name @ ''='' @ val"

lemma split_flag_eq:
  assumes "name \<noteq> []" and "CHR ''='' \<notin> set name"
  shows "split_flag (name @ ''='' @ val) = (name, Some val)"
proof -
  obtain c cs where name: "name = c # cs" using assms(1) by (cases name) auto
  then have "CHR ''='' \<notin> set cs" using assms(2) by simp
  then have "takeWhile (\<lambda>c. c \<noteq> CHR ''='') (cs @ ''='' @ val) = cs" "dropWhile (\<lambda>c. c \<noteq> CHR ''='') (cs @ ''='' @ val) = ''='' @ val"
    by (induction cs) auto
  then show ?thesis by (simp add: split_flag_def name)
qed

definition flag_name :: "string \<Rightarrow> bool" where
  "flag_name n \<longleftrightarrow> n \<noteq> [] \<and> hd n \<noteq> CHR ''-'' \<and> CHR ''='' \<notin> set n"

lemma flag_Parse_arg:
  assumes "flag_name name" and "map_of fs name = Some v" and "flag_Set fraction v val opts = Inr o1"
  shows "flag_Parse fraction fs (flag_arg name val # args) opts = flag_Parse fraction fs args o1"
proof -
  have "hd name \<noteq> CHR ''=''" using assms(1) by (cases name) (auto simp: flag_name_def)
  then show ?thesis
    using assms split_flag_eq [of name val] by (cases v) (auto simp: flag_Parse.simps(2) flag_arg_def flag_name_def)
qed

lemma flag_Parse_switch:
  assumes "flag_name name" and "map_of fs name = Some (BoolVar f)"
  shows "flag_Parse fraction fs ((''--'' @ name) # args) opts = flag_Parse fraction fs args (f True opts)"
proof -
  have "split_flag name = (name, None)"
    using assms(1) takeWhile_eq_all_conv [of "\<lambda>c. c \<noteq> CHR ''=''" "tl name"] dropWhile_eq_Nil_conv [of "\<lambda>c. c \<noteq> CHR ''=''" "tl name"]
    by (cases name) (auto simp: split_flag_def flag_name_def)
  moreover have "hd name \<noteq> CHR ''=''" using assms(1) by (cases name) (auto simp: flag_name_def)
  ultimately show ?thesis using assms by (auto simp: flag_Parse.simps(2) flag_name_def)
qed

text \<open>Decimal numbers without leading zeros are read as what they are.\<close>

abbreviation decimal :: "nat \<Rightarrow> string \<Rightarrow> nat" where
  "decimal m ds \<equiv> foldl (\<lambda>a c. 10 * a + digit_val c) m ds"

lemma decimal_grows: "m \<le> decimal m ds"
proof (induction ds arbitrary: m)
  case (Cons c cs)
  from Cons [of "10 * m + digit_val c"] show ?case by simp
qed simp

lemma digit_val_less: "is_digit c \<Longrightarrow> digit_val c < 10"
  by (auto simp: is_digit_def digit_val_def)

lemma digit_not_underscore: "is_digit c \<Longrightarrow> c \<noteq> CHR ''_''"
  by (auto simp: is_digit_def)

lemma uint_digits_decimal:
  "list_all is_digit ds \<Longrightarrow> decimal m ds < 2 ^ 64 \<Longrightarrow> uint_digits 10 m ds = Inr (decimal m ds)"
proof (induction ds arbitrary: m)
  case (Cons c cs)
  have "10 * m + digit_val c < 2 ^ 64"
    using Cons.prems(2) decimal_grows [of "10 * m + digit_val c" cs] by simp
  with Cons show ?case
    using digit_val_less [of c] by (auto simp: digit_of_def digit_not_underscore mult.commute)
qed simp

lemma leadingInt_decimal:
  assumes "list_all is_digit ds" and "decimal m ds \<le> 2 ^ 63" and "r = [] \<or> \<not> is_digit (hd r)"
  shows "leadingInt m (ds @ r) = Some (decimal m ds, r)"
  using assms(1,2)
proof (induction ds arbitrary: m)
  case Nil
  then show ?case using assms(3) by (cases r) auto
next
  case (Cons c cs)
  have "10 * m + digit_val c \<le> 2 ^ 63"
    using Cons.prems(2) decimal_grows [of "10 * m + digit_val c" cs] by simp
  moreover from this have "m \<le> 2 ^ 63 div 10" by simp
  ultimately show ?case using Cons by (simp add: mult.commute)
qed

lemma decimal_show_nat: "decimal 0 (show_nat n) = n"
  using read_show_nat [of n] by (simp add: read_nat_def)

lemma show_nat_no_sign: "hd (show_nat n) \<noteq> CHR ''-''" "hd (show_nat n) \<noteq> CHR ''+''"
proof -
  note is_digit_hd_show_nat [of n]
  then show "hd (show_nat n) \<noteq> CHR ''-''" "hd (show_nat n) \<noteq> CHR ''+''" by (auto simp: is_digit_def)
qed

lemma ParseInt0_show_nat:
  assumes "n < 2 ^ 63"
  shows "ParseInt0 (show_nat n) = Inr (int n)"
proof (cases "n = 0")
  case True
  have "ParseInt0 ''0'' = Inr 0" by (simp add: ParseInt0_def ParseUint0_def base_of_def)
  with True show ?thesis by (simp add: show_nat_0)
next
  case False
  have "list_all is_digit (show_nat n)" by (rule show_nat_digits)
  moreover from this have "CHR ''_'' \<notin> set (show_nat n)" using digit_not_underscore by (auto simp: list_all_iff)
  moreover have "uint_digits 10 0 (show_nat n) = Inr n"
    using uint_digits_decimal [OF show_nat_digits, of 0 n] assms by (simp add: decimal_show_nat)
  ultimately have "ParseUint0 (show_nat n) = Inr n"
    using False show_nat_hd [of n] by (simp add: ParseUint0_def base_of_def)
  with assms show ?thesis by (simp add: ParseInt0_def show_nat_no_sign Let_def)
qed

lemma ParseDuration_ns:
  assumes "n < 2 ^ 63"
  shows "ParseDuration fraction (show_nat n @ ''ns'') = Some (int n)"
proof -
  let ?s = "show_nat n @ ''ns''"
  have li: "leadingInt 0 ?s = Some (n, ''ns'')"
    using leadingInt_decimal [OF show_nat_digits, of 0 n "''ns''"] assms by (simp add: decimal_show_nat is_digit_def)
  have hd: "hd ?s = hd (show_nat n)" "is_digit (hd (show_nat n))" by (simp_all add: is_digit_hd_show_nat)
  have u: "unit_char (CHR ''n'')" "unit_char (CHR ''s'')" "\<not> unit_char (hd ?s)" using hd by (auto simp: unit_char_def is_digit_def)
  have part: "duration_part fraction ?s = Some (n, [])"
    using u li assms by (simp add: duration_part_def unit_of_def)
  have "duration_parts (length ?s) fraction 0 ?s = Some n"
    using assms part by simp
  moreover have "?s \<noteq> ''0''"
  proof
    assume "?s = ''0''"
    then have "length (show_nat n) + 2 = 1" by (metis length_append length_Cons list.size(3) One_nat_def numeral_2_eq_2)
    then show False by simp
  qed
  ultimately show ?thesis
    using assms show_nat_no_sign [of n] hd(1) by (simp add: ParseDuration_def Let_def)
qed

end
