(* ===== verification/CommandLine.thy ===== *)
theory CommandLine
  imports CommandsProps Flags
begin

text \<open>
  The commands of \<open>src/cmd\<close> from their arguments: the flag sets of the four commands that have one, the parsing of arguments
  and what is then run. A node's command line can be written from its options and is read back as these.
\<close>

section \<open>Flag sets\<close>

definition zero_options :: options where
  "zero_options = \<lparr>op_init = False, op_config = [], op_dataDir = [], op_listen = [], op_server = [], op_fingerprint = [],
     op_passphrase = [], op_console = False, op_capacity = 0, op_idleTimeout = 0\<rparr>"

definition node_flags :: "options flag_set" where
  "node_flags = [(''init'', BoolVar (\<lambda>b opts. opts\<lparr>op_init := b\<rparr>)), (''config'', StringVar (\<lambda>v opts. opts\<lparr>op_config := v\<rparr>)),
     (''data-dir'', StringVar (\<lambda>v opts. opts\<lparr>op_dataDir := v\<rparr>)), (''listen'', StringVar (\<lambda>v opts. opts\<lparr>op_listen := v\<rparr>)),
     (''server'', StringVar (\<lambda>v opts. opts\<lparr>op_server := v\<rparr>)), (''fingerprint'', StringVar (\<lambda>v opts. opts\<lparr>op_fingerprint := v\<rparr>)),
     (''passphrase'', StringVar (\<lambda>v opts. opts\<lparr>op_passphrase := v\<rparr>)), (''console'', BoolVar (\<lambda>b opts. opts\<lparr>op_console := b\<rparr>)),
     (''capacity'', IntVar (\<lambda>n opts. opts\<lparr>op_capacity := n\<rparr>)), (''idle-timeout'', DurationVar (\<lambda>n opts. opts\<lparr>op_idleTimeout := n\<rparr>))]"

definition init_flags :: "options flag_set" where
  "init_flags = [(''config'', StringVar (\<lambda>v opts. opts\<lparr>op_config := v\<rparr>)),
     (''data-dir'', StringVar (\<lambda>v opts. opts\<lparr>op_dataDir := v\<rparr>)), (''listen'', StringVar (\<lambda>v opts. opts\<lparr>op_listen := v\<rparr>)),
     (''server'', StringVar (\<lambda>v opts. opts\<lparr>op_server := v\<rparr>)), (''fingerprint'', StringVar (\<lambda>v opts. opts\<lparr>op_fingerprint := v\<rparr>)),
     (''passphrase'', StringVar (\<lambda>v opts. opts\<lparr>op_passphrase := v\<rparr>)), (''capacity'', IntVar (\<lambda>n opts. opts\<lparr>op_capacity := n\<rparr>)),
     (''idle-timeout'', DurationVar (\<lambda>n opts. opts\<lparr>op_idleTimeout := n\<rparr>))]"

definition probe_defaults :: probe_options where
  "probe_defaults = \<lparr>po_server = [], po_passphrase = ''prompt'', po_fingerprint = [], po_transport = ''auto'', po_sessionMode = ''safe'',
     po_target = ''127.0.0.1:8080'', po_timeout = 15 * 10 ^ 9, po_httpPath = ''/''\<rparr>"

definition probe_flags :: "probe_options flag_set" where
  "probe_flags = [(''server'', StringVar (\<lambda>v opts. opts\<lparr>po_server := v\<rparr>)), (''passphrase'', StringVar (\<lambda>v opts. opts\<lparr>po_passphrase := v\<rparr>)),
     (''fingerprint'', StringVar (\<lambda>v opts. opts\<lparr>po_fingerprint := v\<rparr>)), (''transport'', StringVar (\<lambda>v opts. opts\<lparr>po_transport := v\<rparr>)),
     (''session-mode'', StringVar (\<lambda>v opts. opts\<lparr>po_sessionMode := v\<rparr>)), (''target'', StringVar (\<lambda>v opts. opts\<lparr>po_target := v\<rparr>)),
     (''timeout'', DurationVar (\<lambda>n opts. opts\<lparr>po_timeout := n\<rparr>)), (''http-path'', StringVar (\<lambda>v opts. opts\<lparr>po_httpPath := v\<rparr>))]"

record client_options =
  co_socks5 :: bool
  co_drain :: int

definition client_flags :: "client_options flag_set" where
  "client_flags = [(''socks5'', BoolVar (\<lambda>b opts. opts\<lparr>co_socks5 := b\<rparr>)), (''drain-timeout'', DurationVar (\<lambda>n opts. opts\<lparr>co_drain := n\<rparr>))]"

section \<open>Arguments\<close>

text \<open>The arguments behind the flags are ignored by every command.\<close>

definition node_parseOptions :: "(nat \<Rightarrow> nat \<Rightarrow> nat \<Rightarrow> nat) \<Rightarrow> string list \<Rightarrow> options res" where
  "node_parseOptions fraction args =
     (case flag_Parse fraction node_flags args zero_options of Inl e \<Rightarrow> Inl e | Inr (opts, rest) \<Rightarrow> Inr opts)"

definition init_parseOptions :: "(nat \<Rightarrow> nat \<Rightarrow> nat \<Rightarrow> nat) \<Rightarrow> string list \<Rightarrow> (string \<times> options) res" where
  "init_parseOptions fraction args =
     (case parseRole ''lnproxy-init'' args of
        Inl e \<Rightarrow> Inl e
      | Inr (role, rest) \<Rightarrow>
          (case flag_Parse fraction init_flags rest zero_options of Inl e \<Rightarrow> Inl e | Inr (opts, _) \<Rightarrow> Inr (role, opts)))"

definition probe_parseOptions :: "(nat \<Rightarrow> nat \<Rightarrow> nat \<Rightarrow> nat) \<Rightarrow> string list \<Rightarrow> probe_options res" where
  "probe_parseOptions fraction args =
     (case flag_Parse fraction probe_flags args probe_defaults of Inl e \<Rightarrow> Inl e | Inr (opts, rest) \<Rightarrow> Inr opts)"

section \<open>Commands\<close>

definition parseInvocation :: "string list \<Rightarrow> (string \<times> string list) res" where
  "parseInvocation args = parseRole ''lnproxy-node'' args"

definition node_main :: "process \<Rightarrow> (nat \<Rightarrow> nat \<Rightarrow> nat \<Rightarrow> nat) \<Rightarrow> string list \<Rightarrow> fs \<Rightarrow> started res \<times> fs" where
  "node_main P fraction args s =
     (case parseInvocation args of
        Inl e \<Rightarrow> (Inl e, s)
      | Inr (role, rest) \<Rightarrow>
          (case node_parseOptions fraction rest of
             Inl e \<Rightarrow> (Inl e, s)
           | Inr opts \<Rightarrow> node_run P role opts s))"

definition init_main :: "process \<Rightarrow> (nat \<Rightarrow> nat \<Rightarrow> nat \<Rightarrow> nat) \<Rightarrow> string list \<Rightarrow> fs \<Rightarrow> error option \<times> fs" where
  "init_main P fraction args s =
     (case init_parseOptions fraction args of
        Inl e \<Rightarrow> (Some e, s)
      | Inr (role, opts) \<Rightarrow>
          init_run (pr_kdf P) (pr_rnd P) (prompted P True) (pr_generated P) (pr_windows P) (pr_base P) (pr_host P) role opts s)"

definition probe_main :: "process \<Rightarrow> 't probe_world \<Rightarrow> (nat \<Rightarrow> nat \<Rightarrow> nat \<Rightarrow> nat) \<Rightarrow> string list \<Rightarrow> string res list \<Rightarrow> int list" where
  "probe_main P W fraction args answers =
     probe_run P W
       (case probe_parseOptions fraction args of
          Inl e \<Rightarrow> if errors_Is e ErrHelp then None else Some (Inl e)
        | Inr opts \<Rightarrow> Some (Inr opts)) answers"

definition client_main ::
  "process \<Rightarrow> (nat \<Rightarrow> nat \<Rightarrow> nat \<Rightarrow> nat) \<Rightarrow> string list \<Rightarrow> 'w SystemProxy \<Rightarrow> (shell_world \<times> string) list \<Rightarrow> bool \<Rightarrow> drain_event list \<Rightarrow> 'w environment \<Rightarrow>
   (error option \<times> 'w environment) option" where
  "client_main P fraction args sp typed signalled evs en =
     (if args = [''-h''] \<or> args = [''--help''] then Some (None, en)
      else case flag_Parse fraction client_flags args \<lparr>co_socks5 = False, co_drain = 10 * 10 ^ 9\<rparr> of
        Inl e \<Rightarrow> Some (Some e, en)
      | Inr (opts, rest) \<Rightarrow> client_run P (co_socks5 opts) sp typed signalled (co_drain opts) evs en)"

section \<open>Writing a command line\<close>

definition node_args :: "options \<Rightarrow> string list" where
  "node_args opts = (if op_init opts then [''--init''] else []) @ (if op_console opts then [''--console''] else []) @
     [flag_arg ''config'' (op_config opts), flag_arg ''data-dir'' (op_dataDir opts), flag_arg ''listen'' (op_listen opts),
      flag_arg ''server'' (op_server opts), flag_arg ''fingerprint'' (op_fingerprint opts), flag_arg ''passphrase'' (op_passphrase opts),
      flag_arg ''capacity'' (show_nat (nat (op_capacity opts))), flag_arg ''idle-timeout'' (show_nat (nat (op_idleTimeout opts)) @ ''ns'')]"

lemma node_flag_values:
  "map_of node_flags ''init'' = Some (BoolVar (\<lambda>b opts. opts\<lparr>op_init := b\<rparr>))"
  "map_of node_flags ''console'' = Some (BoolVar (\<lambda>b opts. opts\<lparr>op_console := b\<rparr>))"
  "map_of node_flags ''config'' = Some (StringVar (\<lambda>v opts. opts\<lparr>op_config := v\<rparr>))"
  "map_of node_flags ''data-dir'' = Some (StringVar (\<lambda>v opts. opts\<lparr>op_dataDir := v\<rparr>))"
  "map_of node_flags ''listen'' = Some (StringVar (\<lambda>v opts. opts\<lparr>op_listen := v\<rparr>))"
  "map_of node_flags ''server'' = Some (StringVar (\<lambda>v opts. opts\<lparr>op_server := v\<rparr>))"
  "map_of node_flags ''fingerprint'' = Some (StringVar (\<lambda>v opts. opts\<lparr>op_fingerprint := v\<rparr>))"
  "map_of node_flags ''passphrase'' = Some (StringVar (\<lambda>v opts. opts\<lparr>op_passphrase := v\<rparr>))"
  "map_of node_flags ''capacity'' = Some (IntVar (\<lambda>n opts. opts\<lparr>op_capacity := n\<rparr>))"
  "map_of node_flags ''idle-timeout'' = Some (DurationVar (\<lambda>n opts. opts\<lparr>op_idleTimeout := n\<rparr>))"
  by (simp_all add: node_flags_def)

lemma node_options_read:
  assumes "0 \<le> op_capacity opts" "op_capacity opts < 2 ^ 63" "0 \<le> op_idleTimeout opts" "op_idleTimeout opts < 2 ^ 63"
  shows "node_parseOptions fraction (node_args opts) = Inr opts"
proof -
  note sw = flag_Parse_switch [where fs = node_flags and fraction = fraction]
  have names: "flag_name n" if "n \<in> {''init'', ''console'', ''config'', ''data-dir'', ''listen'', ''server'', ''fingerprint'', ''passphrase'', ''capacity'', ''idle-timeout''}" for n
    using that by (auto simp: flag_name_def)
  have i: "flag_Parse fraction node_flags (''--init'' # as) o1 = flag_Parse fraction node_flags as (o1\<lparr>op_init := True\<rparr>)"
    "flag_Parse fraction node_flags (''--console'' # as) o1 = flag_Parse fraction node_flags as (o1\<lparr>op_console := True\<rparr>)" for as o1
    using sw [OF names node_flag_values(1), of as o1] sw [OF names node_flag_values(2), of as o1] by simp_all
  have n: "nat (op_capacity opts) < 2 ^ 63" "nat (op_idleTimeout opts) < 2 ^ 63" using assms by auto
  note ar = flag_Parse_arg [OF names, where fs = node_flags and fraction = fraction]
  note ps = ParseInt0_show_nat [OF n(1)] ParseDuration_ns [OF n(2)]
  have "flag_Parse fraction node_flags (node_args opts) zero_options = Inr (opts, [])"
    using assms by (auto simp: node_args_def i ar [OF _ node_flag_values(3)] ar [OF _ node_flag_values(4)] ar [OF _ node_flag_values(5)]
        ar [OF _ node_flag_values(6)] ar [OF _ node_flag_values(7)] ar [OF _ node_flag_values(8)] ar [OF _ node_flag_values(9)]
        ar [OF _ node_flag_values(10)] flag_Set_def ps zero_options_def)
  then show ?thesis by (simp add: node_parseOptions_def)
qed

definition plain_numbers :: "options \<Rightarrow> bool" where
  "plain_numbers opts \<longleftrightarrow> 0 \<le> op_capacity opts \<and> op_capacity opts < 2 ^ 63 \<and> 0 \<le> op_idleTimeout opts \<and> op_idleTimeout opts < 2 ^ 63"

lemma node_main_args:
  assumes "role \<in> {Role_Server, Role_Exit, Role_ServerExit}" and "plain_numbers opts"
  shows "node_main P fraction (role # node_args opts) s = node_run P role opts s"
proof -
  have "role \<noteq> ''-h''" "role \<noteq> ''--help''" using assms(1) by (auto simp: Role_Server_def Role_Exit_def Role_ServerExit_def)
  then have "parseRole ''lnproxy-node'' (role # node_args opts) = Inr (role, node_args opts)" using assms(1) by (simp add: parseRole_def)
  with assms(2) node_options_read [of opts fraction] show ?thesis by (simp add: node_main_def parseInvocation_def plain_numbers_def)
qed

section \<open>Properties\<close>



end
