(* ===== verification/Spec2Isabelle.thy ===== *)
theory Spec2Isabelle
  imports SessionFaults ServerFaults ServerRun PathProps Socks5 HttpConnect CommandLine
begin

text \<open>
  lnproxy carries TCP connections of a workstation through a server to exits in other networks. A \<^emph>\<open>client\<close> (C) runs
  local SOCKS5 and HTTP proxies and keeps one authenticated connection to the \<^emph>\<open>server\<close> (S); \<^emph>\<open>exits\<close> (E) keep such a
  connection as well and register themselves. Every connection (QUIC, or TLS over TCP) carries frames of one multiplexed
  session. A stream that a local application opens is an open request to the server, which chooses an exit, opens
  a stream there and relays bytes between the two.

  \<^bold>\<open>Conventions.\<close> Go structs are records, with the source's field names behind a short prefix; \<open>int\<close> and \<open>int64\<close> are
  \<^typ>\<open>int\<close> with the wrap-around written out where a value can leave its range, sized unsigned integers are words.
  Errors are values of \<open>Prelude.error\<close>; a fallible operation returns \<open>error option\<close> or \<open>error + 'a\<close>; a panic is an
  error of its own. Mutexes become the atomicity of one definition. Code that runs in several goroutines is cut at
  the points where another goroutine may come in: the pieces are definitions, an inductive step relation has one rule per
  piece, and invariants are proved of every reachable state (locale \<open>Prelude.transition_system\<close>). An operation that may
  wait (a select, a full channel) returns the list of its possible outcomes, empty while it waits. Loops are
  structural recursion; \<open>io_Copy\<close> has fuel, and the theorems on relays give the number of rounds that is enough.
  What lies outside of the repository is an argument: Argon2id, the outcomes of system calls, of dials and of listening,
  the TLS and QUIC stacks (by their documented verification callback), certificates, time, random bytes, the
  Windows registry, \<open>gsettings\<close> and the KDE tools, parsed HTTP, the floating point product in \<open>time.ParseDuration\<close>.

  \<^bold>\<open>Shared theories.\<close> \<open>Prelude\<close> (machine types, errors, connections as byte streams, Go maps with locale \<open>go_map\<close>,
  transition systems), \<open>GoLib\<close> (\<open>strings\<close>, \<open>strconv\<close>, UTF-8, \<open>net.SplitHostPort\<close>), \<open>GoNet\<close> (\<open>net.ParseIP\<close>), \<open>BigEndian\<close>,
  \<open>Json\<close> and \<open>Codec\<close> (\<open>encoding/json\<close> printing and parsing with the round trip, base64), \<open>Sha256\<close> (SHA-256 and HMAC),
  \<open>Files\<close> (files with every failure of a system call; locale \<open>atomic_writer\<close> for the temporary-file idiom, interpreted on
  the writers of the verifier and the configuration).

  \<^bold>\<open>Protocol\<close> (\<open>src/internal/protocol\<close>): \<open>Frame\<close>, \<open>Messages\<close>. The frame codec and the JSON of every message; locale \<open>framing\<close>,
  interpreted on the codec. Shown: round trips, the wire determines the frames, the error of every cut connection.

  \<^bold>\<open>Session\<close> (\<open>src/internal/session\<close>): \<open>Session\<close> has the streams in a heap, the read and dispatch loops and every operation
  of \<open>session.go\<close>; \<open>SessionInv\<close> the invariant and that all operations keep it; \<open>SessionProps\<close> the step relation, reachable
  states, the path from \<open>Write\<close> to \<open>Read\<close>; \<open>SessionTraffic\<close> opening handshakes and isolation of streams; \<open>SessionFaults\<close>
  panics, stalls, orphaned streams; \<open>Relay\<close> (\<open>relay.go\<close>) the locale \<open>byte_queue\<close> with \<open>io.Copy\<close>, interpreted on streams.
  \<open>Path\<close> and \<open>PathProps\<close> join the relays of client, server and exit by their two sessions, both goroutines of each \<open>Relay\<close> included,
  into one transition system. Shown of every interleaving: what each side has received is a prefix of what the other sent,
  no read loop panics, no run is infinite, and a run that cannot go on has delivered everything and closed both sides. Only this
  connection's frames travel there; what other streams may do to it is the matter of \<open>SessionTraffic\<close> and \<open>SessionFaults\<close>.

  \<^bold>\<open>Authentication\<close> (\<open>src/internal/auth\<close>): \<open>Auth\<close>, \<open>AuthProps\<close>, \<open>RateLimit\<close>. Verifier and its file, passphrase sources, both
  handshakes, the limiter. Shown: agreement of both ends, acceptance only of a proof, bounded work, exact blocking.

  \<^bold>\<open>Trust\<close> (\<open>src/internal/transport\<close>): \<open>Trust\<close>, \<open>TrustProps\<close>, \<open>Dialing\<close>. Fingerprints, certificate verification, the known
  hosts store and its file, control streams, TLS configurations of dials; locale \<open>trust_store\<close>, interpreted on the store.

  \<^bold>\<open>Node\<close> (\<open>src/internal/node\<close>): \<open>Registry\<close> (exits and their selection), \<open>Server\<close> (handlers of connections as program
  counters, routing, catalogue), \<open>ServerProps\<close> (invariant, authentication before service, forwarding, blocking of addresses),
  \<open>ServerFaults\<close> (collisions of names and numbers), \<open>ServerRun\<close> (\<open>Run\<close> and its accept loops), \<open>Exit\<close> and \<open>ExitProps\<close> (joining,
  heartbeats, backoff, trust).

  \<^bold>\<open>Configuration and bundles\<close> (\<open>src/internal/config\<close>, \<open>initnode\<close>, \<open>silentserver\<close>): \<open>Config\<close>, \<open>Bundle\<close>, \<open>BundleProps\<close>. Defaults,
  validation, files; initialization; start of a prepared node. Shown: round trips, an initialized node starts.

  \<^bold>\<open>Local proxies\<close> (\<open>src/internal/proxy\<close>): \<open>Proxy\<close>, \<open>Socks5\<close>, \<open>HttpConnect\<close>, \<open>ProxyRelay\<close> (\<open>dialer.go\<close>; \<open>byte_queue\<close> interpreted on
  sockets, in \<open>HttpConnect\<close> on the streams of a session behind the operations \<open>stream_ops\<close>). Shown: what is dialed is what was asked for, nothing else is relayed, relays move every byte.

  \<^bold>\<open>Client\<close> (\<open>src/internal/client\<close>): \<open>Manager\<close>, \<open>ManagerProps\<close> (one connection, reconnecting, reported state, catalogue),
  \<open>Runtime\<close>, \<open>RuntimeProps\<close> (start, shutdown with draining, journal, choice of exits), \<open>Shell\<close> (commands).

  \<^bold>\<open>System proxy\<close> (\<open>src/internal/systemproxy\<close>): \<open>SystemProxy\<close>, \<open>SystemProxyProps\<close>. GNOME, KDE, Windows, journal; locale
  \<open>system_proxy\<close> (a restore undoes everything since the snapshot), interpreted on the unsupported provider and, through
  the sublocale of \<open>windows_registry\<close>, on the Windows provider over a registry that stores what is written. The GNOME
  provider does not keep this contract (\<open>gnome_restore_loses_proxy\<close>).

  \<^bold>\<open>Logging\<close> (\<open>src/internal/logging\<close>): \<open>Logging\<close>, the rotating writer against a list of files whose oldest is dropped.

  \<^bold>\<open>Commands\<close> (\<open>src/cmd\<close>): \<open>Probe\<close> (the stages of \<open>lnproxy-probe\<close>), \<open>Commands\<close>, \<open>CommandsProps\<close> (\<open>run\<close> of every command from its
  parsed flags), \<open>Flags\<close> (what is used of the packages \<open>flag\<close>, \<open>strconv\<close> and \<open>time\<close>), \<open>CommandLine\<close> (the commands from their arguments).

  \<^bold>\<open>End to end.\<close> This theory joins the parts: what an application asks a local proxy for is followed through the client's
  manager and session, the server's read loop, registry and routing, to the exit's read loop and the address it dials.

  \<^bold>\<open>Properties.\<close> A theorem whose text begins with \<open>C\<close> and a number is a property of the program; \<open>Remark\<close> marks further
  facts of the same kind, many of them shortcomings of the code. Hypotheses on outside code are named
  predicates: \<open>verifying\<close> and \<open>probe_verifying\<close> (a dial succeeds only after its callback accepted the certificates),
  \<open>reads_values\<close> and \<open>writes_values\<close> (a registry stores what is written). Theorems with hypotheses have an example
  (\<open>_witness\<close>) that applies them to a concrete input.

  \<^bold>\<open>Bounds.\<close> The frame limit, stream buffers, cost bounds of Argon2id, limiter, backoffs and log sizes are the source's
  constants. \<open>io_Copy\<close> needs one round per pending byte and one more, since each round moves at least one byte; \<open>duration_parts\<close>
  needs as many rounds as the text has characters (\<open>duration_parts_fuel\<close>).
  System calls beyond a given list of outcomes succeed.

  \<^bold>\<open>Not modelled.\<close> Deadlines and idle timers of sockets and the wrappers around QUIC and TLS connections, which only pass
  calls on; generation of keys and X.509 certificates; formatting of log records and of the probe's report; memory
  statistics; parsing of HTTP by the standard library; trivial accessors (\<open>Done\<close>, \<open>Request\<close>, \<open>LocalAddr\<close>);
  \<open>WithRateLimitKey\<close>, which nothing calls; the constant providers of other platforms.
\<close>

section \<open>From an application to its target\<close>

text \<open>The client's part: the open request of a local proxy on the wire.\<close>

lemma client_sends_request:
  assumes "mg_session m = Some i" and "i < length (mg_sessions m)" and "healthy (mg_sess m i) c"
    and "q = Open_request (dialer_request host port x) (ss_nextID (mg_sess m i) + 1)" and "frame_ok (open_frame q)"
    and "Manager_Dial (dialer_request host port x) m = (res, m')"
  shows "\<exists>r. res = Inr (i, r)"
    and "ss_conn (mg_sess m' i) = Some (c\<lparr>wout := wout c @ frame_bytes (open_frame q)\<rparr>)"
  using assms Open_send_healthy [OF assms(3-5)] by (auto simp: Manager_Dial_def put_session_def)

text \<open>The exit's part: what it dials for a stream.\<close>

lemma exit_dials:
  assumes "or_Destination (st_request (deref t r)) = host" and "or_Port (st_request (deref t r)) = port" and "host \<noteq> []" and "port \<noteq> 0"
  shows "fst (serve dial r t e) \<longleftrightarrow> (\<exists>target. dial (JoinHostPort host (portString port)) = Inr target) \<and> fst (Stream_Accept r t) = None"
  using assms by (auto simp: serve_def DialDestination_def Let_def split: sum.splits prod.splits option.splits)

text \<open>
  C8 (end to end). An application asks the client's SOCKS5 proxy for a host and a port. The proxy reads exactly these, the
  client's manager writes one open request for them, at the chosen exit, on its session with the server. The server's read
  loop takes it, and the server forwards it to the connection that serves the exit its registry selects, which is the
  chosen one unless the choice is automatic. The exit's read loop takes it there, and the exit dials this very host
  and port, and starts relaying exactly if this succeeds and the stream can be acknowledged.
\<close>

theorem application_request_reaches_target:
  assumes "methods \<noteq> []" and "0 \<in> set methods" and "length methods \<le> 255" and "destination_ok d" and "port \<noteq> 0"
    and "rbuf app = greeting methods @ connect_request d port @ data" and "wres app = []" and "host = destination_host d"
    and "mg_session m = Some i" and "i < length (mg_sessions m)" and "healthy (mg_sess m i) c"
    and "q = Open_request (dialer_request host port chosen) (ss_nextID (mg_sess m i) + 1)" and "or_RequestID q \<noteq> 0"
    and "frame_ok (open_frame q)" and "open_text q"
    and "Manager_Dial (dialer_request host port chosen) m = (res, m')" and "ss_conn (mg_sess m' i) = Some c'" and "wout c' = wout c @ b"
    and "sv_ok sv" and "h < length (sv_handlers sv)" and "ss_rpc (session_of sv h) = RIdle" and "ss_conn (session_of sv h) = Some dh"
    and "rbuf dh = b @ rest" and "\<not> ss_closed (session_of sv h)" and "length (ss_incoming (session_of sv h)) < incoming_cap"
    and "Registry_Select chosen False (sv_registry sv) = Inr selected" and "ei_ID selected \<noteq> directID"
    and "gm_get (sv_exits sv) (ei_ID selected) = Some x" and "x \<noteq> h" and "healthy (session_of sv x) cx"
    and "ss_rpc t = RIdle" and "ss_conn t = Some dt" and "rbuf dt = frame_bytes (open_frame q) @ rest'" and "\<not> ss_closed t"
    and "length (ss_incoming t) < incoming_cap"
  shows "(\<exists>app1 app2. negotiate app = (None, app1) \<and> readRequest app1 = (Inr (host, port), app2) \<and> rbuf app2 = data)
    \<and> (\<exists>r. res = Inr (i, r))
    \<and> (\<exists>s1 r1 y sv2 cx'. readLoop_step (session_of sv h) = [s1] \<and> ss_incoming s1 = ss_incoming (session_of sv h) @ [r1]
        \<and> forward_open h r1 (set_session h s1 sv) = (FExit x y, sv2) \<and> serving (handler_of sv x) = Some (ei_ID selected)
        \<and> (chosen \<notin> {[], ''auto''} \<longrightarrow> ei_ID selected = chosen)
        \<and> ss_conn (session_of sv2 x) = Some cx' \<and> wout cx' = wout cx @ frame_bytes (open_frame q))
    \<and> (\<exists>t' r'. readLoop_step t = [t'] \<and> ss_incoming t' = ss_incoming t @ [r']
        \<and> (fst (serve dial r' t' e) \<longleftrightarrow> (\<exists>target. dial (JoinHostPort host (portString port)) = Inr target) \<and> fst (Stream_Accept r' t') = None))"
proof -
  have q: "or_Destination q = host" "or_Port q = port" "or_Protocol q = ProtocolTCP" "or_ExitID q = chosen" "host \<noteq> []"
    using assms(12) assms(8) destination_nonempty [OF assms(4)] by (auto simp: Open_request_def dialer_request_def ProtocolTCP_def Let_def)
  note qs = q(5)
  let ?a1 = "app\<lparr>rbuf := connect_request d port @ data, wout := wout app @ [5, 0]\<rparr>"
  have n: "negotiate app = (None, ?a1)"
    using negotiate_greeting [of methods app "connect_request d port @ data"] assms(1-3,6,7) by simp
  have rr: "readRequest ?a1 = (Inr (host, port), ?a1\<lparr>rbuf := data\<rparr>)"
    using readRequest_connect [OF assms(4,5), of ?a1 data] assms(8) by simp
  note cl = client_sends_request [OF assms(9-12,14,16)]
  have b: "b = frame_bytes (open_frame q)" using cl(2) assms(17,18) by auto
  have arr: "or_Destination q \<noteq> []" "or_Port q \<noteq> 0" "or_Protocol q = ProtocolTCP" using q assms(5) by simp_all
  obtain s1 r1 where s1: "readLoop_step (session_of sv h) = [s1]" "deref s1 r1 = (newStream (or_RequestID q))\<lparr>st_request := q\<rparr>"
    "ss_incoming s1 = ss_incoming (session_of sv h) @ [r1]"
    using open_arrives [OF assms(14,13,15) arr assms(21,22) assms(23) [unfolded b] assms(24,25)] by blast
  let ?sv1 = "set_session h s1 sv"
  have ok: "sv_ok ?sv1" by (rule sv_set_session [OF assms(19) sess_readLoop [OF sv_sess [OF assms(19,20)]]]) (simp add: s1)
  have sess: "session_of ?sv1 x = session_of sv x" "session_of ?sv1 h = s1" "sv_registry ?sv1 = sv_registry sv" "sv_exits ?sv1 = sv_exits sv"
    "handler_of ?sv1 x = handler_of sv x"
    using assms(20,29) sv_len [OF assms(19)] by (simp_all add: set_session_def)
  have x: "x < length (sv_sessions ?sv1)" "x < length (sv_sessions sv)"
    using sv_exit_ok [OF assms(19,28)] sv_len [OF assms(19)] by (simp_all add: set_session_def)
  have rq: "Open_request q (ss_nextID (session_of sv x) + 1) = q" using assms(13) q(3) by (simp add: Open_request_def ProtocolTCP_def)
  obtain y s2 where o: "Open_send q (session_of sv x) = (Inr y, s2)" "ss_conn s2 = Some (cx\<lparr>wout := wout cx @ frame_bytes (open_frame q)\<rparr>)"
    using Open_send_healthy [OF assms(30) rq [symmetric] assms(14)] by simp
  have fw: "forward_open h r1 ?sv1 = (FExit x y, set_session x s2 ?sv1)"
    using assms(26-28) o(1) s1(2) sess q(4) by (simp add: forward_open_def Let_def)
  have cx: "ss_conn (session_of (set_session x s2 ?sv1) x) = Some (cx\<lparr>wout := wout cx @ frame_bytes (open_frame q)\<rparr>)"
    using o(2) x by (simp add: set_session_def)
  have fa: "serving (handler_of sv x) = Some (ei_ID selected) \<and> (chosen \<notin> {[], ''auto''} \<longrightarrow> ei_ID selected = chosen)
      \<and> (\<exists>t' r'. readLoop_step t = [t'] \<and> ss_incoming t' = ss_incoming t @ [r'] \<and> st_request (deref t' r') = q)"
    using forward_arrives [OF ok _ _ assms(27) _ _ assms(14,13,15) arr fw cx _ assms(31-35), of cx] s1(2) sess assms(26,28,30) q(4) by auto
  then obtain t' r' where t': "readLoop_step t = [t']" "ss_incoming t' = ss_incoming t @ [r']" "st_request (deref t' r') = q" by blast
  have sv: "fst (serve dial r' t' e) \<longleftrightarrow> (\<exists>target. dial (JoinHostPort host (portString port)) = Inr target) \<and> fst (Stream_Accept r' t') = None"
    by (rule exit_dials) (simp_all add: t'(3) q(1,2) qs assms(5))
  show ?thesis
    using n rr cl(1) s1(1,3) fw fa cx t'(1,2) sv by auto
qed

definition ex_asked :: OpenRequest where
  "ex_asked = \<lparr>or_RequestID = 1, or_ExitID = ''x'', or_Destination = ''a.b'', or_Port = 80, or_Protocol = ProtocolTCP, or_ClientSelected = False\<rparr>"

abbreviation ex_arriving :: session where
  "ex_arriving \<equiv> ex_link\<lparr>ss_conn := Some (conn_of (frame_bytes (open_frame ex_asked)))\<rparr>"

definition ex_serving :: Server where
  "ex_serving = set_session 0 ex_arriving ex_net"

abbreviation ex_connected :: Manager where
  "ex_connected \<equiv> (NewManager None)\<lparr>mg_session := Some 0, mg_sessions := [ex_link]\<rparr>"

lemma ex_asked_frame: "frame_ok (open_frame ex_asked)" "open_text ex_asked" "or_RequestID ex_asked \<noteq> 0"
  "ex_asked = Open_request (dialer_request ''a.b'' 80 ''x'') (ss_nextID ex_link + 1)"
proof -
  have "length (Marshal (OpenRequest_json ex_asked)) < 200" by code_simp
  then show "frame_ok (open_frame ex_asked)" by (simp add: frame_ok_def open_frame_def MaxFrameSize_def)
qed (simp_all add: ex_asked_def open_text_def Open_request_def dialer_request_def ex_link_def New_def ProtocolTCP_def)

lemma ex_serving_facts:
  "sv_ok ex_serving" "0 < length (sv_handlers ex_serving)" "session_of ex_serving 0 = ex_arriving" "session_of ex_serving 1 = ex_link"
  "gm_get (sv_exits ex_serving) ''x'' = Some 1" "\<exists>e. Registry_Select ''x'' False (sv_registry ex_serving) = Inr e \<and> ei_ID e = ''x''"
  "handler_of ex_serving 1 = handler_of ex_net 1"
proof -
  show "sv_ok ex_serving" unfolding ex_serving_def by (rule sv_set_session [OF ex_net_ok]) (simp add: ex_sessions_ok)
  show "\<exists>e. Registry_Select ''x'' False (sv_registry ex_serving) = Inr e \<and> ei_ID e = ''x''"
    by (simp add: ex_serving_def set_session_def ex_net_def Registry_Add_def Registry_add_def NewRegistry_def Let_def Registry_Select_def
        exit_info_def ex_registration_def usable_def gm_get_def)
qed (simp_all add: ex_serving_def set_session_def ex_net_def gm_get_def)

theorem application_request_reaches_target_witness:
  "\<exists>s1 r1 y sv2 t' r'. readLoop_step ex_arriving = [s1] \<and> forward_open 0 r1 (set_session 0 s1 ex_serving) = (FExit 1 y, sv2)
     \<and> readLoop_step ex_arriving = [t']
     \<and> (fst (serve (\<lambda>a. if a = JoinHostPort ''a.b'' (portString 80) then Inr (conn_of []) else Inl EOF) r' t' ex_out) \<longleftrightarrow> fst (Stream_Accept r' t') = None)"
proof -
  let ?app = "conn_of (greeting [0] @ connect_request (Domain ''a.b'') 80 @ [])"
  let ?dial = "\<lambda>a. if a = JoinHostPort ''a.b'' (portString 80) then Inr (conn_of []) else Inl EOF"
  note v = ex_serving_facts and a = ex_asked_frame
  obtain e where e: "Registry_Select ''x'' False (sv_registry ex_serving) = Inr e" "ei_ID e = ''x''" using v(6) by blast
  have h: "healthy ex_link (conn_of [])" by (simp add: ex_link_def healthy_def New_def conn_of_def)
  obtain res m' where m': "Manager_Dial (dialer_request ''a.b'' 80 ''x'') ex_connected = (res, m')" by fastforce
  have c': "ss_conn (mg_sess m' 0) = Some (conn_of []\<lparr>wout := frame_bytes (open_frame ex_asked)\<rparr>)"
    using client_sends_request(2) [of ex_connected 0 "conn_of []", OF _ _ _ _ a(1) m'] h a(4) by (simp add: conn_of_def)
  have t: "ss_rpc ex_arriving = RIdle" "ss_conn ex_arriving = Some (conn_of (frame_bytes (open_frame ex_asked)))"
    "rbuf (conn_of (frame_bytes (open_frame ex_asked))) = frame_bytes (open_frame ex_asked) @ []" "\<not> ss_closed ex_arriving"
    "length (ss_incoming ex_arriving) < incoming_cap"
    by (simp_all add: ex_link_def New_def conn_of_def incoming_cap_def)
  let ?c' = "conn_of []\<lparr>wout := frame_bytes (open_frame ex_asked)\<rparr>"
  note w = application_request_reaches_target [of "[0]" "Domain ''a.b''" 80 ?app "[]" "''a.b''" ex_connected 0 "conn_of []" ex_asked "''x''"
      res m' ?c' "frame_bytes (open_frame ex_asked)" ex_serving 0 "conn_of (frame_bytes (open_frame ex_asked))" "[]" e 1 "conn_of []"
      ex_arriving "conn_of (frame_bytes (open_frame ex_asked))" "[]" ?dial ex_out, THEN conjunct2, THEN conjunct2]
  have hyps: "ss_rpc (session_of ex_serving 0) = RIdle" "ss_conn (session_of ex_serving 0) = Some (conn_of (frame_bytes (open_frame ex_asked)))"
    "\<not> ss_closed (session_of ex_serving 0)" "length (ss_incoming (session_of ex_serving 0)) < incoming_cap" "healthy (session_of ex_serving 1) (conn_of [])"
    "healthy (mg_sess ex_connected 0) (conn_of [])" "ex_asked = Open_request (dialer_request ''a.b'' 80 ''x'') (ss_nextID (mg_sess ex_connected 0) + 1)"
    using t h v(3,4) a(4) by simp_all
  have out: "\<exists>s1 r1 y sv2 cx'. readLoop_step (session_of ex_serving 0) = [s1] \<and> ss_incoming s1 = ss_incoming (session_of ex_serving 0) @ [r1]
      \<and> forward_open 0 r1 (set_session 0 s1 ex_serving) = (FExit 1 y, sv2) \<and> serving (handler_of ex_serving 1) = Some (ei_ID e)
      \<and> (''x'' \<notin> {[], ''auto''} \<longrightarrow> ei_ID e = ''x'')
      \<and> ss_conn (session_of sv2 1) = Some cx' \<and> wout cx' = wout (conn_of []) @ frame_bytes (open_frame ex_asked)"
    by (rule w [THEN conjunct1]) (rule hyps t h a c' m' v(1,2,5) e(1) | simp add: e(2) v(5) directID_def conn_of_def)+
  have far: "\<exists>t' r'. readLoop_step ex_arriving = [t'] \<and> ss_incoming t' = ss_incoming ex_arriving @ [r']
      \<and> (fst (serve ?dial r' t' ex_out) \<longleftrightarrow> (\<exists>target. ?dial (JoinHostPort ''a.b'' (portString 80)) = Inr target) \<and> fst (Stream_Accept r' t') = None)"
    by (rule w [THEN conjunct2]) (rule hyps t h a c' m' v(1,2,5) e(1) | simp add: e(2) v(5) directID_def conn_of_def)+
  have "?dial (JoinHostPort ''a.b'' (portString 80)) = Inr (conn_of [])" by simp
  with far have "\<exists>t' r'. readLoop_step ex_arriving = [t'] \<and> (fst (serve ?dial r' t' ex_out) \<longleftrightarrow> fst (Stream_Accept r' t') = None)" by blast
  moreover have "\<exists>s1 r1 y sv2. readLoop_step ex_arriving = [s1] \<and> forward_open 0 r1 (set_session 0 s1 ex_serving) = (FExit 1 y, sv2)"
    using out unfolding v(3) by blast
  ultimately show ?thesis by (elim exE conjE, intro exI conjI)
qed

end
